(* ===== verification/Prelude.thy ===== *)
theory Prelude
  imports Main "HOL-Library.AList"
begin

text \<open>
  Shared vocabulary of the development: the Python built-ins that the analyzer
  (\<open>src/dxl_lexer.py\<close>, \<open>src/dxl-analyzer/dxl_scan.py\<close>) relies on, written as
  executable HOL functions, and the generic lemmas about them that the component
  theories use.
  \<^item> Python strings are \<open>string\<close> (byte strings: the code runs on Python 2);
  \<^item> Python dicts are association lists updated with \<open>AList.update\<close>, which keeps
    the position of an existing key and appends a new key, as a Python dict does;
    \<open>map_of\<close> reads them. (Python 2 iterates a dict in hash order; every theorem of
    the development that depends on iteration order says so.)
  \<^item> Python sets are duplicate-free lists;
  \<^item> exceptions that the code does not catch are values of \<open>py_exc\<close>.
\<close>

named_theorems dxl_simps \<open>characteristic equations of the Python built-ins\<close>

type_synonym line = nat
type_synonym path = string
type_synonym ('k, 'v) pydict = "('k \<times> 'v) list"

datatype py_exc = IndexError | ValueError | KeyError | IOError | RuntimeError | TypeError
  | UnboundLocalError

subsection \<open>String built-ins\<close>

text \<open>\<open>s.startswith(p)\<close>\<close>

definition py_startswith :: "string \<Rightarrow> string \<Rightarrow> bool" where
  "py_startswith s p \<longleftrightarrow> take (length p) s = p"

text \<open>\<open>s.startswith((p1, p2, ...))\<close>\<close>

definition py_startswith_any :: "string \<Rightarrow> string list \<Rightarrow> bool" where
  "py_startswith_any s ps \<longleftrightarrow> list_ex (py_startswith s) ps"

text \<open>\<open>sub in s\<close> on strings (substring test)\<close>

fun py_contains :: "string \<Rightarrow> string \<Rightarrow> bool" where
  "py_contains [] sub \<longleftrightarrow> sub = []"
| "py_contains (c # cs) sub \<longleftrightarrow> py_startswith (c # cs) sub \<or> py_contains cs sub"

text \<open>\<open>s.lstrip(c)\<close> for a single character \<open>c\<close>: strips every leading \<open>c\<close>.\<close>

definition py_lstrip :: "char \<Rightarrow> string \<Rightarrow> string" where
  "py_lstrip c s = dropWhile (\<lambda>x. x = c) s"

text \<open>\<open>s.split(c)\<close> for a single separator character.\<close>

definition py_split :: "char \<Rightarrow> string \<Rightarrow> string list" where
  "py_split c s = foldr (\<lambda>x acc. if x = c then [] # acc else (x # hd acc) # tl acc) s [[]]"

text \<open>\<open>s.split(c)[0]\<close>, which never raises.\<close>

definition py_split_head :: "char \<Rightarrow> string \<Rightarrow> string" where
  "py_split_head c s = takeWhile (\<lambda>x. x \<noteq> c) s"

text \<open>\<open>s.split(c, 1)[-1]\<close>: what follows the first \<open>c\<close>, or the whole string.\<close>

definition py_split1_last :: "char \<Rightarrow> string \<Rightarrow> string" where
  "py_split1_last c s = (if c \<in> set s then tl (dropWhile (\<lambda>x. x \<noteq> c) s) else s)"

text \<open>\<open>s.split(c, 1)[1]\<close>: what follows the first \<open>c\<close>, IndexError without one.\<close>

definition py_split1_second :: "char \<Rightarrow> string \<Rightarrow> py_exc + string" where
  "py_split1_second c s = (if c \<in> set s then Inr (tl (dropWhile (\<lambda>x. x \<noteq> c) s)) else Inl IndexError)"

text \<open>\<open>s.rstrip(c)\<close> for a single character \<open>c\<close>.\<close>

definition py_rstrip :: "char \<Rightarrow> string \<Rightarrow> string" where
  "py_rstrip c s = rev (dropWhile (\<lambda>x. x = c) (rev s))"

text \<open>\<open>s.endswith(p)\<close>\<close>

definition py_endswith :: "string \<Rightarrow> string \<Rightarrow> bool" where
  "py_endswith s p \<longleftrightarrow> take (length p) (rev s) = rev p"

text \<open>\<open>s.rstrip(chars)\<close> and \<open>s.lstrip(chars)\<close> for a string of characters: every
  trailing (leading) character that occurs in \<open>chars\<close> is removed, whatever its order.\<close>

definition py_rstrip_chars :: "string \<Rightarrow> string \<Rightarrow> string" where
  "py_rstrip_chars chars s = rev (dropWhile (\<lambda>x. x \<in> set chars) (rev s))"

definition py_lstrip_chars :: "string \<Rightarrow> string \<Rightarrow> string" where
  "py_lstrip_chars chars s = dropWhile (\<lambda>x. x \<in> set chars) s"

text \<open>\<open>s * n\<close>.\<close>

definition py_str_mul :: "string \<Rightarrow> nat \<Rightarrow> string" where
  "py_str_mul s n = concat (replicate n s)"

text \<open>\<open>s[1:-1]\<close>: drops the first and the last character; empty on short strings.\<close>

definition py_strip_delims :: "string \<Rightarrow> string" where
  "py_strip_delims s = take (length s - 2) (drop 1 s)"

text \<open>\<open>xs[i]\<close> with its IndexError.\<close>

definition py_index :: "'a list \<Rightarrow> nat \<Rightarrow> py_exc + 'a" where
  "py_index xs i = (if i < length xs then Inr (xs ! i) else Inl IndexError)"

text \<open>\<open>s.replace(c, new)\<close> for a one-character \<open>c\<close>.\<close>

definition py_replace_char :: "char \<Rightarrow> string \<Rightarrow> string \<Rightarrow> string" where
  "py_replace_char c new s = concat (map (\<lambda>x. if x = c then new else [x]) s)"

text \<open>\<open>s.count(sub)\<close>: non-overlapping occurrences, left to right.\<close>

fun py_count :: "string \<Rightarrow> string \<Rightarrow> nat" where
  "py_count [] sub = (if sub = [] then 1 else 0)"
| "py_count (c # cs) sub =
     (if sub = [] then length (c # cs) + 1
      else if py_startswith (c # cs) sub then Suc (py_count (drop (length sub - 1) cs) sub)
      else py_count cs sub)"

text \<open>\<open>str(n)\<close> and \<open>"%d" % n\<close> for a natural number.\<close>

fun py_str_nat :: "nat \<Rightarrow> string" where
  "py_str_nat n = (if n < 10 then [char_of (48 + n)] else py_str_nat (n div 10) @ [char_of (48 + n mod 10)])"

declare py_str_nat.simps [simp del]

subsection \<open>\<open>int(s)\<close> on a string\<close>

text \<open>
  Python 2's \<open>int(s)\<close>: surrounding whitespace is ignored, then an optional sign and
  at least one decimal digit; anything else raises ValueError.
\<close>

definition py_whitespace :: "char \<Rightarrow> bool" where
  "py_whitespace c \<longleftrightarrow>
     c = CHR 0x20 \<or> c = CHR 0x09 \<or> c = CHR 0x0A \<or> c = CHR 0x0B \<or> c = CHR 0x0C \<or> c = CHR 0x0D"

definition py_is_digit :: "char \<Rightarrow> bool" where
  "py_is_digit c \<longleftrightarrow> 48 \<le> (of_char c :: nat) \<and> (of_char c :: nat) \<le> 57"

definition digits_value :: "string \<Rightarrow> int" where
  "digits_value ds = foldl (\<lambda>acc d. 10 * acc + (int (of_char d) - 48)) 0 ds"

definition py_int_unsigned :: "string \<Rightarrow> py_exc + int" where
  "py_int_unsigned ds =
     (if ds \<noteq> [] \<and> list_all py_is_digit ds then Inr (digits_value ds) else Inl ValueError)"

definition py_int :: "string \<Rightarrow> py_exc + int" where
  "py_int s =
     (let t = rev (dropWhile py_whitespace (rev (dropWhile py_whitespace s))) in
      case t of
        [] \<Rightarrow> Inl ValueError
      | c # ds \<Rightarrow>
          (if c = CHR ''-'' then map_sum id uminus (py_int_unsigned ds)
           else if c = CHR ''+'' then py_int_unsigned ds
           else py_int_unsigned t))"

subsection \<open>Counting: \<open>collections.Counter\<close>\<close>

text \<open>\<open>[k for k, v in Counter(xs).items() if v > 1]\<close>\<close>

definition counter_dups :: "'a list \<Rightarrow> 'a list" where
  "counter_dups xs = filter (\<lambda>k. 1 < count_list xs k) (remdups xs)"

subsection \<open>Dicts built by a loop, and loops that look at the previous element\<close>

text \<open>A dict updated by \<open>d[k] = v\<close> for each pair, in order; \<open>dict_of\<close> starts empty.\<close>

definition dict_upds :: "('k, 'v) pydict \<Rightarrow> ('k \<times> 'v) list \<Rightarrow> ('k, 'v) pydict" where
  "dict_upds al kvs = foldl (\<lambda>al (k, v). AList.update k v al) al kvs"

definition dict_of :: "('k \<times> 'v) list \<Rightarrow> ('k, 'v) pydict" where
  "dict_of kvs = dict_upds [] kvs"

text \<open>The value the last pair with key \<open>k\<close> carries: what \<open>d[k]\<close> holds after the loop.\<close>

definition last_value :: "('k \<times> 'v) list \<Rightarrow> 'k \<Rightarrow> 'v" where
  "last_value kvs k = last [v. (k', v) \<leftarrow> kvs, k' = k]"

text \<open>A dict of lists filled by \<open>if k not in d: d[k] = []\<close> then \<open>d[k].append(x)\<close>,
  and the list it holds for a key (empty when the key is absent).\<close>

definition dict_append :: "('k, 'v list) pydict \<Rightarrow> 'k \<Rightarrow> 'v \<Rightarrow> ('k, 'v list) pydict" where
  "dict_append d k x = AList.update k (case map_of d k of None \<Rightarrow> [x] | Some xs \<Rightarrow> xs @ [x]) d"

definition dict_get :: "('k, 'v list) pydict \<Rightarrow> 'k \<Rightarrow> 'v list" where
  "dict_get d k = (case map_of d k of None \<Rightarrow> [] | Some xs \<Rightarrow> xs)"

text \<open>A loop whose body may raise: the first exception ends it.\<close>

fun foldl_exc :: "('s \<Rightarrow> 'a \<Rightarrow> 'e + 's) \<Rightarrow> 's \<Rightarrow> 'a list \<Rightarrow> 'e + 's" where
  "foldl_exc f s [] = Inr s"
| "foldl_exc f s (x # xs) = (case f s x of Inl e \<Rightarrow> Inl e | Inr s' \<Rightarrow> foldl_exc f s' xs)"

text \<open>Each element paired with the one before it (\<open>p\<close> before the first).\<close>

fun with_prev_from :: "'a option \<Rightarrow> 'a list \<Rightarrow> ('a option \<times> 'a) list" where
  "with_prev_from p [] = []"
| "with_prev_from p (x # xs) = (p, x) # with_prev_from (Some x) xs"

abbreviation with_prev :: "'a list \<Rightarrow> ('a option \<times> 'a) list" where
  "with_prev xs \<equiv> with_prev_from None xs"

subsection \<open>Lemmas\<close>

lemma py_startswith_Nil [simp, dxl_simps]: "py_startswith s []"
  by (simp add: py_startswith_def)

lemma py_startswith_Cons [simp, dxl_simps]:
  "py_startswith (c # cs) (p # ps) \<longleftrightarrow> c = p \<and> py_startswith cs ps"
  by (auto simp: py_startswith_def)

lemma py_startswith_Nil_Cons [simp, dxl_simps]: "\<not> py_startswith [] (p # ps)"
  by (simp add: py_startswith_def)

lemma py_startswith_append [simp]: "py_startswith (p @ s) p"
  by (simp add: py_startswith_def)

lemma py_startswith_any_simps [simp, dxl_simps]:
  "\<not> py_startswith_any s []"
  "py_startswith_any s (p # ps) \<longleftrightarrow> py_startswith s p \<or> py_startswith_any s ps"
  by (simp_all add: py_startswith_any_def)

lemma py_contains_iff: "py_contains s sub \<longleftrightarrow> (\<exists>xs ys. s = xs @ sub @ ys)"
proof (induction s)
  case Nil
  then show ?case by simp
next
  case (Cons c cs)
  have "py_startswith (c # cs) sub \<longleftrightarrow> (\<exists>ys. c # cs = sub @ ys)"
    by (metis append_eq_conv_conj py_startswith_def)
  moreover have "(\<exists>xs ys. c # cs = xs @ sub @ ys) \<longleftrightarrow>
      (\<exists>ys. c # cs = sub @ ys) \<or> (\<exists>xs ys. cs = xs @ sub @ ys)"
    by (auto simp: Cons_eq_append_conv)
  ultimately show ?case using Cons.IH by simp
qed

lemma py_contains_Nil_sub [simp]: "py_contains s []"
  by (cases s) simp_all

lemma py_split_head_Cons [simp, dxl_simps]:
  "py_split_head c (x # xs) = (if x = c then [] else x # py_split_head c xs)"
  "py_split_head c [] = []"
  by (simp_all add: py_split_head_def)

lemma py_split_nonempty: "py_split c s \<noteq> []"
  by (induction s) (simp_all add: py_split_def)

lemma py_split_Cons [dxl_simps]:
  "py_split c (x # xs) =
     (if x = c then [] # py_split c xs
      else (x # hd (py_split c xs)) # tl (py_split c xs))"
  by (simp add: py_split_def)

lemma py_split_Nil [simp, dxl_simps]: "py_split c [] = [[]]"
  by (simp add: py_split_def)

lemma hd_py_split: "hd (py_split c s) = py_split_head c s"
  by (induction s) (simp_all add: py_split_Cons)

lemma py_index_simps [simp, dxl_simps]:
  "py_index [] i = Inl IndexError"
  "py_index (x # xs) 0 = Inr x"
  "py_index (x # xs) (Suc i) = py_index xs i"
  by (simp_all add: py_index_def)

lemma py_lstrip_simps [simp, dxl_simps]:
  "py_lstrip c [] = []"
  "py_lstrip c (x # xs) = (if x = c then py_lstrip c xs else x # xs)"
  by (simp_all add: py_lstrip_def)

lemma py_strip_delims_simps [dxl_simps]:
  "py_strip_delims (a # xs @ [b]) = xs"
  by (simp add: py_strip_delims_def)

lemma count_list_pos_iff [simp]: "0 < count_list xs x \<longleftrightarrow> x \<in> set xs"
  by (induction xs) auto

lemma set_counter_dups: "set (counter_dups xs) = {k. 1 < count_list xs k}"
  by (auto simp: counter_dups_def) (metis count_notin less_nat_zero_code)

lemma dict_upds_simps [simp, dxl_simps]:
  "dict_upds al [] = al"
  "dict_upds al ((k, v) # kvs) = dict_upds (AList.update k v al) kvs"
  by (simp_all add: dict_upds_def)

lemma dict_upds_append [simp]: "dict_upds al (xs @ ys) = dict_upds (dict_upds al xs) ys"
  by (simp add: dict_upds_def)

lemma map_of_dict_upds: "map_of (dict_upds al kvs) = map_of al ++ map_of (rev kvs)"
  by (induction kvs arbitrary: al) (auto simp: update_conv' map_add_def fun_eq_iff
      split: option.splits)

lemma keys_dict_upds: "fst ` set (dict_upds al kvs) = fst ` set al \<union> fst ` set kvs"
proof (induction kvs arbitrary: al)
  case (Cons kv kvs)
  obtain k v where kv: "kv = (k, v)" by force
  have "fst ` set (AList.update k v al) = {k} \<union> fst ` set al" by (rule dom_update)
  then show ?case using Cons.IH [of "AList.update k v al"] kv by auto
qed simp

lemma distinct_dict_upds: "distinct (map fst al) \<Longrightarrow> distinct (map fst (dict_upds al kvs))"
proof (induction kvs arbitrary: al)
  case (Cons kv kvs)
  then show ?case by (cases kv) (simp add: distinct_update)
qed simp

lemma map_of_dict_of: "map_of (dict_of kvs) = map_of (rev kvs)"
  by (simp add: dict_of_def map_of_dict_upds)

lemma keys_dict_of: "fst ` set (dict_of kvs) = fst ` set kvs"
  by (simp add: dict_of_def keys_dict_upds)

lemma distinct_dict_of: "distinct (map fst (dict_of kvs))"
  by (simp add: dict_of_def distinct_dict_upds)

lemma foldl_invariant:
  assumes "\<And>s x. P s \<Longrightarrow> P (f s x)" and "P s"
  shows "P (foldl f s xs)"
  using assms(2) by (induction xs arbitrary: s) (simp_all add: assms(1))

lemma map_snd_with_prev_from [simp]: "map snd (with_prev_from p xs) = xs"
  by (induction xs arbitrary: p) auto

lemma dict_get_Nil [simp]: "dict_get [] k = []"
  by (simp add: dict_get_def)

lemma dict_get_append [simp]:
  "dict_get (dict_append d k x) g = (if g = k then dict_get d k @ [x] else dict_get d g)"
  by (simp add: dict_get_def dict_append_def update_conv' split: option.splits)

lemma dict_get_update [simp]:
  "dict_get (AList.update k xs d) g = (if g = k then xs else dict_get d g)"
  by (simp add: dict_get_def update_conv')

lemma dict_get_foldl_append:
  "dict_get (foldl (\<lambda>d (k, x). dict_append d k x) d kxs) g = dict_get d g @ [x. (k, x) \<leftarrow> kxs, k = g]"
  by (induction kxs arbitrary: d) auto

lemma keys_dict_append [simp]: "fst ` set (dict_append d k x) = insert k (fst ` set d)"
  by (simp add: dict_append_def dom_update)

lemma distinct_dict_append [simp]:
  "distinct (map fst d) \<Longrightarrow> distinct (map fst (dict_append d k x))"
  by (simp add: dict_append_def distinct_update)

lemma dict_get_in_keys: "dict_get d k \<noteq> [] \<Longrightarrow> k \<in> fst ` set d"
  by (force simp: dict_get_def dest: map_of_SomeD split: option.splits)

text \<open>A scan over distinct candidates that acts on the one equal to \<open>v\<close>.\<close>

lemma foldl_if_eq_distinct:
  "distinct hs \<Longrightarrow> foldl (\<lambda>d h. if v = h then g d else d) d hs = (if v \<in> set hs then g d else d)"
  by (induction hs arbitrary: d) auto

lemma distinct_counter_dups [simp]: "distinct (counter_dups xs)"
  by (simp add: counter_dups_def)

lemma last_value_snoc [simp]:
  "last_value (kvs @ [(a, b)]) k = (if a = k then b else last_value kvs k)"
  by (simp add: last_value_def)

lemma map_of_rev_last_value:
  "map_of (rev kvs) k = (if k \<in> fst ` set kvs then Some (last_value kvs k) else None)"
proof (induction kvs rule: rev_induct)
  case (snoc x xs)
  then show ?case by (cases x) auto
qed simp

lemma set_dict_of: "set (dict_of kvs) = (\<lambda>k. (k, last_value kvs k)) ` fst ` set kvs"
proof -
  have "(k, v) \<in> set (dict_of kvs) \<longleftrightarrow> map_of (dict_of kvs) k = Some v" for k v
    using distinct_dict_of [of kvs] by (auto intro: map_of_is_SomeI dest: map_of_SomeD)
  then show ?thesis
    by (auto simp: map_of_dict_of map_of_rev_last_value split: if_splits) (metis fst_conv image_eqI)
qed

text \<open>A loop over a dict whose body adds diagnostics that name the key adds no
  diagnostic twice.\<close>

lemma distinct_concat_map_keys:
  assumes "distinct (map fst d)" "\<And>x. distinct (g x)"
    "\<And>x y z. z \<in> set (g x) \<Longrightarrow> z \<in> set (g y) \<Longrightarrow> fst x = fst y"
  shows "distinct (concat (map g d))"
  using assms(1)
proof (induction d)
  case (Cons x d)
  have "set (g x) \<inter> set (concat (map g d)) = {}"
  proof (rule ccontr)
    assume "set (g x) \<inter> set (concat (map g d)) \<noteq> {}"
    then obtain z y where "z \<in> set (g x)" "y \<in> set d" "z \<in> set (g y)" by auto
    then have "fst x = fst y" using assms(3) by blast
    with \<open>y \<in> set d\<close> Cons.prems show False by auto
  qed
  with Cons show ?case by (simp add: assms(2))
qed simp

text \<open>A loop over a dict that acts only on the entry with key \<open>c\<close>.\<close>

lemma foldl_dict_key:
  "distinct (map fst d) \<Longrightarrow>
   foldl (\<lambda>r (k, v). if k = c then A r v else r) r d = (case map_of d c of None \<Rightarrow> r | Some v \<Rightarrow> A r v)"
proof (induction d arbitrary: r)
  case (Cons kv d)
  then show ?case by (cases kv) (force split: option.splits dest: map_of_SomeD)
qed simp

lemma map_of_dict_of_last_value:
  "map_of (dict_of kvs) k = (if k \<in> fst ` set kvs then Some (last_value kvs k) else None)"
  by (simp add: map_of_dict_of map_of_rev_last_value)

lemma count_list_map: "count_list (map g xs) y = length (filter (\<lambda>x. g x = y) xs)"
  by (induction xs) auto

lemma last_value_in: "k \<in> fst ` set kvs \<Longrightarrow> (k, last_value kvs k) \<in> set kvs"
  using map_of_rev_last_value [of kvs k] by (auto dest: map_of_SomeD)

lemma dict_of_eq_Nil_iff [simp]: "dict_of kvs = [] \<longleftrightarrow> kvs = []"
  using keys_dict_of [of kvs] by (metis image_is_empty set_empty)

lemma values_dict_of: "snd ` set (dict_of kvs) = last_value kvs ` fst ` set kvs"
  by (simp add: set_dict_of image_image)

lemma with_prev_from_snd_in: "(a, b) \<in> set (with_prev_from p xs) \<Longrightarrow> b \<in> set xs"
  using map_snd_with_prev_from [of p xs] by (metis image_eqI list.set_map snd_conv)

lemma upt_0_Suc_Suc: "[0..<Suc (Suc n)] = 0 # 1 # map (\<lambda>i. i + 2) [0..<n]"
  by (induction n) auto

lemma concat_map_dict_get:
  "distinct (map fst d) \<Longrightarrow> (\<And>k v. (k, v) \<in> set d \<Longrightarrow> k \<noteq> c \<Longrightarrow> F k v = []) \<Longrightarrow> F c [] = [] \<Longrightarrow>
   concat (map (\<lambda>(k, v). F k v) d) = F c (dict_get d c)"
proof (induction d)
  case (Cons kv d)
  obtain k v where kv: "kv = (k, v)" by fastforce
  have rest: "concat (map (\<lambda>(k, v). F k v) d) = F c (dict_get d c)"
    using Cons.prems by (intro Cons.IH) auto
  show ?case
  proof (cases "k = c")
    case True
    with Cons.prems kv have "c \<notin> fst ` set d" by simp
    then have "map_of d c = None" by (simp add: map_of_eq_None_iff)
    then have "dict_get d c = []" by (simp add: dict_get_def)
    moreover have "dict_get ((c, v) # d) c = v" by (simp add: dict_get_def)
    ultimately show ?thesis using rest Cons.prems(3) kv True by simp
  next
    case False
    then have "dict_get ((k, v) # d) c = dict_get d c" by (simp add: dict_get_def)
    with False rest Cons.prems(2) kv show ?thesis by simp
  qed
qed (simp add: dict_get_def)

lemma in_set_remove1D: "x \<in> set (remove1 y xs) \<Longrightarrow> x \<in> set xs"
  using set_remove1_subset by fast

lemma concat_map_if_singleton: "concat (map (\<lambda>x. if P x then [f x] else []) xs) = map f (filter P xs)"
  by (induction xs) auto

lemma filter_upt_eq: "i < n \<Longrightarrow> filter (\<lambda>j. P j \<and> j = i) [0..<n] = (if P i then [i] else [])"
  by (induction n) (auto simp: less_Suc_eq)

lemma foldl_exc_append:
  "foldl_exc f s (xs @ ys) = (case foldl_exc f s xs of Inl e \<Rightarrow> Inl e | Inr s' \<Rightarrow> foldl_exc f s' ys)"
  by (induction xs arbitrary: s) (auto split: sum.splits)

lemma foldl_exc_Inr_foldl:
  "(\<And>s x. f s x = Inr (g s x)) \<Longrightarrow> foldl_exc f s xs = Inr (foldl g s xs)"
  by (induction xs arbitrary: s) auto

lemma foldl_exc_invariant:
  assumes "\<And>s x s'. P s \<Longrightarrow> f s x = Inr s' \<Longrightarrow> P s'" "P s" "foldl_exc f s xs = Inr s'"
  shows "P s'"
  using assms(2,3) by (induction xs arbitrary: s) (auto split: sum.splits intro: assms(1))

lemma foldl_exc_total:
  "(\<And>s x. \<not> isl (f s x)) \<Longrightarrow> \<exists>s'. foldl_exc f s xs = Inr s'"
proof (induction xs arbitrary: s)
  case (Cons x xs)
  then obtain s1 where "f s x = Inr s1" by (metis isl_def sum.collapse(2))
  with Cons show ?case by simp
qed simp

text \<open>A fold that cannot raise, with a quantity that grows by a known step.\<close>

lemma foldl_exc_measure:
  assumes "\<And>s x. x \<in> set xs \<Longrightarrow> P s \<Longrightarrow> \<exists>s'. f s x = Inr s' \<and> P s' \<and> m s' = m s + k x" "P s"
  shows "\<exists>s'. foldl_exc f s xs = Inr s' \<and> P s' \<and> m s' = m s + sum_list (map k xs)"
  using assms
proof (induction xs arbitrary: s)
  case (Cons x xs)
  then obtain s1 where "f s x = Inr s1" "P s1" "m s1 = m s + k x" by fastforce
  with Cons.IH [of s1] Cons.prems(1) show ?case by (simp add: add.assoc)
qed simp

lemma py_str_mul_Suc [simp]: "py_str_mul s (Suc n) = s @ py_str_mul s n"
  by (simp add: py_str_mul_def)

lemma py_str_mul_0 [simp]: "py_str_mul s 0 = []"
  by (simp add: py_str_mul_def)

subsection \<open>Decimal strings and sorted lists\<close>

lemma sorted_le_last: "sorted ys \<Longrightarrow> y \<in> set ys \<Longrightarrow> y \<le> last ys"
  by (induction ys) (auto simp: last_in_set)

lemma last_sort_Max: "xs \<noteq> [] \<Longrightarrow> last (sort xs) = Max (set xs)"
proof -
  assume "xs \<noteq> []"
  then have ne: "sort xs \<noteq> []" by (metis length_0_conv length_sort)
  have "last (sort xs) \<in> set xs" using ne last_in_set by fastforce
  then show ?thesis
    using sorted_le_last [OF sorted_sort, of _ xs] by (intro Max_eqI [symmetric]) auto
qed



lemma py_str_nat_digits: "py_str_nat n \<noteq> [] \<and> list_all py_is_digit (py_str_nat n)"
proof (induction n rule: py_str_nat.induct)
  case (1 n)
  then show ?case
    unfolding py_str_nat.simps [of n] by (auto simp: py_is_digit_def of_char_of)
qed

lemma length_py_str_nat_le: "0 < k \<Longrightarrow> length (py_str_nat n) \<le> k \<longleftrightarrow> n < 10 ^ k"
proof (induction n arbitrary: k rule: py_str_nat.induct)
  case (1 n)
  show ?case
  proof (cases "n < 10")
    case True
    have "(10::nat) \<le> 10 ^ k" using 1(2) by (cases k) auto
    with True 1(2) show ?thesis
      by (subst py_str_nat.simps) (auto simp: Suc_le_eq)
  next
    case False
    then have len: "length (py_str_nat n) = Suc (length (py_str_nat (n div 10)))"
      by (subst py_str_nat.simps) simp
    obtain m where k: "k = Suc m" using 1(2) by (cases k) auto
    show ?thesis
    proof (cases m)
      case 0
      have "py_str_nat (n div 10) \<noteq> []" using py_str_nat_digits by blast
      with len False k 0 show ?thesis by simp
    next
      case (Suc m')
      have "n div 10 < 10 ^ m \<longleftrightarrow> n < 10 * 10 ^ m" by (simp add: div_less_iff_less_mult mult.commute)
      with 1(1) [OF False, of m] len k Suc show ?thesis by simp
    qed
  qed
qed



subsection \<open>Stripping characters and loops that only raise a flag\<close>

text \<open>\<open>dropWhile\<close> leaves a list unchanged exactly when its first element stops it.\<close>

lemma dropWhile_eq_self: "dropWhile P xs = xs \<longleftrightarrow> xs = [] \<or> \<not> P (hd xs)"
proof (cases xs)
  case (Cons x ys)
  have "length (dropWhile P ys) < length (x # ys)"
    using length_dropWhile_le [of P ys] by simp
  then show ?thesis using Cons by auto
qed simp

lemma set_py_rstrip_chars: "set (py_rstrip_chars chars s) \<subseteq> set s"
  using set_dropWhileD [of _ _ "rev s"] by (auto simp: py_rstrip_chars_def)

lemma py_endswith_append [simp]: "py_endswith (s @ p) p"
  by (simp add: py_endswith_def)

text \<open>A loop \<open>for x in xs: if P(x): flag = True\<close>.\<close>

lemma foldl_flag [simp]: "foldl (\<lambda>e x. if P x then True else e) e xs \<longleftrightarrow> e \<or> (\<exists>x\<in>set xs. P x)"
  by (induction xs arbitrary: e) auto

text \<open>A dict filled by \<open>for x in xs: d[x] = g(x)\<close>.\<close>

lemma map_of_foldl_update_self:
  "map_of (foldl (\<lambda>d x. AList.update x (g x) d) d0 xs) k = (if k \<in> set xs then Some (g k) else map_of d0 k)"
  by (induction xs arbitrary: d0) (auto simp: update_conv')

end
