(* ===== verification/Tokens.thy ===== *)
theory Tokens
  imports Prelude
begin

text \<open>
  The token vocabulary of \<open>src/dxl_lexer.py\<close>: the token kinds of the ply lexer
  (the \<open>tokens\<close> tuple, lines 18--62), the token object that \<open>lexer.token()\<close>
  returns as a record, and the fixed keyword lists the scanners compare token kinds
  against. As in the code, a token kind is a string (\<open>tok.type == "INCLUDE"\<close> is
  \<open>tok_type tok = ''INCLUDE''\<close>).
\<close>

type_synonym tok_type = string

text \<open>The \<open>tokens\<close> tuple (lines 18--62): the kinds the lexer can produce.\<close>

definition reserved_base :: "tok_type list" where
  "reserved_base = [''AND'', ''BOOL'', ''BREAK'', ''BY'', ''CASE'', ''CHAR'', ''CONST'', ''CONTINUE'',
     ''DEFAULT'', ''DO'', ''ELSE'', ''ELSEIF'', ''ENUM'', ''FOR'', ''IF'', ''IN'', ''INT'', ''OR'',
     ''REAL'', ''RETURN'', ''SIZEOF'', ''STATIC'', ''STRUCT'', ''STRING'',
     ''SWITCH'', ''THEN'', ''UNION'', ''VOID'', ''WHILE'']"

definition reserved_other :: "tok_type list" where
  "reserved_other = [''MODULE'', ''OBJECT'', ''SKIP'', ''BUFFER'', ''TEMPLATE'', ''MODULE_VERSION'',
     ''DATE'', ''LINK'', ''LINK_REF'', ''STREAM'', ''REGEXP'', ''ATTR_DEF'', ''DB'', ''DBE'']"

definition tokens :: "tok_type list" where
  "tokens = reserved_base @ reserved_other @
     [''ICONST'', ''FCONST'', ''CCONST'', ''SCONST'', ''ID'',
      ''PLUS'', ''MINUS'', ''TIMES'', ''DIVIDE'', ''MOD'', ''NOT'', ''XOR'',
      ''LSHIFT'', ''RSHIFT'', ''LOR'', ''LAND'', ''LNOT'', ''TMPC'', ''LT'', ''LE'', ''GT'',
      ''GE'', ''EQ'', ''NE'',
      ''EQUALS'', ''TIMESEQUAL'', ''DIVEQUAL'', ''MODEQUAL'', ''PLUSEQUAL'', ''MINUSEQUAL'',
      ''LSHIFTEQUAL'', ''RSHIFTEQUAL'', ''ANDEQUAL'', ''XOREQUAL'', ''OREQUAL'', ''INLINK'',
      ''OVRLOAD'', ''DEF'',
      ''LPAREN'', ''RPAREN'', ''LBRACKET'', ''RBRACKET'', ''LBRACE'', ''RBRACE'',
      ''COMMA'', ''PERIOD'', ''SEMI'', ''COLON'', ''SQUOTE'', ''DQUOTE'',
      ''C_COMMENT'', ''CPP_COMMENT'',
      ''INCLUDE'', ''INCLUDE_PATH'',
      ''SYS_CALL'', ''PRAGMA'', ''FUNCTION'',
      ''STRING_INIT'', ''ERR_INIT_VAR'', ''VAR_SINGLE_LINE'',
      ''ARRAY_DEF'', ''BR'']"

text \<open>
  A ply \<open>LexToken\<close>: the matched text, its kind, the lexer's line counter when
  the token was produced, and its offset in the input (\<open>lexpos\<close>).
\<close>

record lex_token =
  tok_value :: string
  tok_type :: tok_type
  tok_lineno :: nat
  tok_lexpos :: nat

text \<open>
  The type keywords: \<open>keywords\<close> of \<open>Lexer.get_tokens\<close> (line 247) and of
  \<open>Lexer.get_func_declarations\<close> (line 339), which also lists \<open>SKIP\<close>.
\<close>

definition call_keywords :: "tok_type list" where
  "call_keywords = [''BOOL'', ''CHAR'', ''INT'', ''STRING'', ''REAL'', ''VOID'', ''OBJECT'', ''MODULE'']"

definition decl_keywords :: "tok_type list" where
  "decl_keywords = [''BOOL'', ''CHAR'', ''INT'', ''STRING'', ''REAL'', ''VOID'', ''OBJECT'', ''MODULE'', ''SKIP'']"

text \<open>
  \<open>tok.value.split("(")[0]\<close>: the callee part of a \<open>FUNCTION\<close> token.
\<close>

definition callee :: "string \<Rightarrow> string" where
  "callee v = py_split_head (CHR ''('') v"

text \<open>A token, written compactly for concrete examples.\<close>

definition mk_tok :: "tok_type \<Rightarrow> string \<Rightarrow> nat \<Rightarrow> lex_token" where
  "mk_tok ty v l = \<lparr>tok_value = v, tok_type = ty, tok_lineno = l, tok_lexpos = 0\<rparr>"

lemma mk_tok_sel [simp]:
  "tok_value (mk_tok ty v l) = v"
  "tok_type (mk_tok ty v l) = ty"
  "tok_lineno (mk_tok ty v l) = l"
  by (simp_all add: mk_tok_def)

lemma call_keywords_subset_decl: "set call_keywords \<subseteq> set decl_keywords"
  by (simp add: call_keywords_def decl_keywords_def)

lemma keyword_sets [simp]:
  "t \<in> set call_keywords \<longleftrightarrow>
     t \<in> {''BOOL'', ''CHAR'', ''INT'', ''STRING'', ''REAL'', ''VOID'', ''OBJECT'', ''MODULE''}"
  "t \<in> set decl_keywords \<longleftrightarrow>
     t \<in> {''BOOL'', ''CHAR'', ''INT'', ''STRING'', ''REAL'', ''VOID'', ''OBJECT'', ''MODULE'', ''SKIP''}"
  by (simp_all add: call_keywords_def decl_keywords_def)

end
