(* ===== verification/Classifier.thy ===== *)
theory Classifier
  imports Tokens
begin

text \<open>
  The context classifier: \<open>Lexer.get_tokens\<close> (\<open>src/dxl_lexer.py\<close>, lines 224--327).
  It runs once over the token stream of a file and fills the lexer's side tables
  (includes, string initialisations, pragmas, system calls, called functions, the
  executable marker). The loop's local flags and the side tables together are the
  record \<open>gt_state\<close>; the loop body is \<open>get_tokens_step\<close>, the composition of one
  definition per block of the body, in the order of the code; \<open>get_tokens\<close> starts
  from the reset state of lines 231--253 and folds the step over the tokens.
\<close>

record gt_state =
  is_exec_by_doors :: bool
  include_dict :: "(string, line) pydict"
  string_init_dict :: "(string, line) pydict"
  string_init_loop_dict :: "(string, line) pydict"
  pragma_dict :: "(string, line) pydict"
  sys_call_dict :: "(string, line) pydict"
  var_single_line_dict :: "(string, line) pydict"
  func_called :: "string list"
  prev_include :: bool
  prev_string_init :: bool
  prev_cpp_comment :: bool
  count_tok :: int
  is_first_token :: bool
  prev_keyword :: bool
  has_loop :: bool
  in_loop :: bool
  count_brace :: int

text \<open>The reset at the start of every call (lines 231--253).\<close>

definition gt_init :: gt_state where
  "gt_init = \<lparr>is_exec_by_doors = False, include_dict = [], string_init_dict = [],
     string_init_loop_dict = [], pragma_dict = [], sys_call_dict = [],
     var_single_line_dict = [], func_called = [],
     prev_include = False, prev_string_init = False, prev_cpp_comment = False,
     count_tok = 0, is_first_token = False, prev_keyword = False,
     has_loop = False, in_loop = False, count_brace = 0\<rparr>"

subsection \<open>The blocks of the loop body\<close>

text \<open>Include tokens (lines 261--265): the literal after an \<open>INCLUDE\<close> token.\<close>

definition gt_include :: "gt_state \<Rightarrow> lex_token \<Rightarrow> gt_state" where
  "gt_include s tok =
     (if prev_include s \<and> tok_type tok \<in> {''INCLUDE_PATH'', ''SCONST''}
      then s\<lparr>include_dict :=
               AList.update (py_strip_delims (tok_value tok)) (tok_lineno tok) (include_dict s)\<rparr>
      else s)"

text \<open>String initialisations (lines 268--271): the token after a \<open>STRING_INIT\<close>.\<close>

definition gt_string_init :: "gt_state \<Rightarrow> lex_token \<Rightarrow> gt_state" where
  "gt_string_init s tok =
     (if prev_string_init s
      then s\<lparr>string_init_dict :=
               AList.update (tok_value tok) (tok_lineno tok) (string_init_dict s)\<rparr>
      else s)"

text \<open>Loop scope (lines 274--282): pending loop, brace depth, active scope.\<close>

definition gt_loop :: "gt_state \<Rightarrow> lex_token \<Rightarrow> gt_state" where
  "gt_loop s tok =
     (let s1 = (if tok_type tok \<in> {''FOR'', ''WHILE''} then s\<lparr>has_loop := True\<rparr> else s) in
      if tok_type tok = ''LBRACE'' \<and> has_loop s1
      then s1\<lparr>in_loop := True, count_brace := count_brace s1 + 1\<rparr>
      else if tok_type tok = ''RBRACE'' \<and> has_loop s1
      then (let s2 = s1\<lparr>count_brace := count_brace s1 - 1\<rparr> in
            if count_brace s2 = 0 then s2\<lparr>in_loop := False, has_loop := False\<rparr> else s2)
      else s1)"

text \<open>String initialisations inside a loop scope (lines 284--288).\<close>

definition gt_loop_init :: "gt_state \<Rightarrow> lex_token \<Rightarrow> gt_state" where
  "gt_loop_init s tok =
     (if in_loop s \<and> tok_type tok = ''STRING_INIT''
      then s\<lparr>string_init_loop_dict :=
               AList.update (tok_value tok) (tok_lineno tok) (string_init_loop_dict s)\<rparr>
      else s)"

text \<open>Pragmas (lines 297--300).\<close>

definition gt_pragma :: "gt_state \<Rightarrow> lex_token \<Rightarrow> gt_state" where
  "gt_pragma s tok =
     (if tok_type tok = ''PRAGMA''
      then s\<lparr>pragma_dict := AList.update (tok_value tok) (tok_lineno tok) (pragma_dict s)\<rparr>
      else s)"

text \<open>
  System calls (lines 303--311): \<open>SYS_CALL\<close> tokens, and \<open>FUNCTION\<close> tokens whose
  text starts with \<open>system\<close> (\<open>tok.value[:6] == "system"\<close>).
\<close>

definition gt_sys_call :: "gt_state \<Rightarrow> lex_token \<Rightarrow> gt_state" where
  "gt_sys_call s tok =
     (let s1 = (if tok_type tok = ''SYS_CALL''
                then s\<lparr>sys_call_dict :=
                         AList.update (tok_value tok) (tok_lineno tok) (sys_call_dict s)\<rparr>
                else s) in
      if tok_type tok = ''FUNCTION'' \<and> take 6 (tok_value tok) = ''system''
      then s1\<lparr>sys_call_dict := AList.update (tok_value tok) (tok_lineno tok) (sys_call_dict s1)\<rparr>
      else s1)"

text \<open>
  The executable marker (lines 314--317). \<open>count_tok\<close> is compared with 1 but no line
  of the function ever changes it.
\<close>

definition gt_exec_marker :: "gt_state \<Rightarrow> lex_token \<Rightarrow> gt_state" where
  "gt_exec_marker s tok =
     (let s1 = (if tok_type tok = ''CPP_COMMENT'' \<and> count_tok s = 1
                then s\<lparr>is_first_token := True\<rparr> else s) in
      if prev_cpp_comment s1 \<and> is_first_token s1 \<and> tok_type tok = ''C_COMMENT''
      then s1\<lparr>is_exec_by_doors := True\<rparr>
      else s1)"

text \<open>Called functions (lines 320--322): the callee of a \<open>FUNCTION\<close> token not
  preceded by a type keyword.\<close>

definition gt_called :: "gt_state \<Rightarrow> lex_token \<Rightarrow> gt_state" where
  "gt_called s tok =
     (if tok_type tok = ''FUNCTION'' \<and> \<not> prev_keyword s
      then s\<lparr>func_called := func_called s @ [callee (tok_value tok)]\<rparr>
      else s)"

text \<open>The previous-token flags (lines 324--327).\<close>

definition gt_prev :: "gt_state \<Rightarrow> lex_token \<Rightarrow> gt_state" where
  "gt_prev s tok =
     s\<lparr>prev_include := (tok_type tok = ''INCLUDE''),
       prev_string_init := (tok_type tok = ''STRING_INIT''),
       prev_cpp_comment := (tok_type tok = ''CPP_COMMENT''),
       prev_keyword := (tok_type tok \<in> set call_keywords)\<rparr>"

text \<open>The whole loop body (lines 256--327), blocks in the order of the code.\<close>

definition get_tokens_step :: "gt_state \<Rightarrow> lex_token \<Rightarrow> gt_state" where
  "get_tokens_step s tok =
     (let s1 = gt_include s tok;
          s2 = gt_string_init s1 tok;
          s3 = gt_loop s2 tok;
          s4 = gt_loop_init s3 tok;
          s5 = gt_pragma s4 tok;
          s6 = gt_sys_call s5 tok;
          s7 = gt_exec_marker s6 tok;
          s8 = gt_called s7 tok
      in gt_prev s8 tok)"

definition get_tokens :: "lex_token list \<Rightarrow> gt_state" where
  "get_tokens toks = foldl get_tokens_step gt_init toks"

subsection \<open>What a token stream contains: the declarative reading\<close>

text \<open>
  The classifier keeps one flag per kind of previous token. Read declaratively, each
  table is a comprehension over the tokens paired with their predecessors.
\<close>

definition prev_type_in :: "tok_type set \<Rightarrow> lex_token option \<Rightarrow> bool" where
  "prev_type_in K p = (case p of None \<Rightarrow> False | Some t \<Rightarrow> tok_type t \<in> K)"

definition include_directives_from :: "lex_token option \<Rightarrow> lex_token list \<Rightarrow> (string \<times> line) list" where
  "include_directives_from p toks =
     [(py_strip_delims (tok_value c), tok_lineno c).
        (q, c) \<leftarrow> with_prev_from p toks,
        prev_type_in {''INCLUDE''} q \<and> tok_type c \<in> {''INCLUDE_PATH'', ''SCONST''}]"

definition string_inits_from :: "lex_token option \<Rightarrow> lex_token list \<Rightarrow> (string \<times> line) list" where
  "string_inits_from p toks =
     [(tok_value c, tok_lineno c). (q, c) \<leftarrow> with_prev_from p toks, prev_type_in {''STRING_INIT''} q]"

definition called_functions_from :: "lex_token option \<Rightarrow> lex_token list \<Rightarrow> string list" where
  "called_functions_from p toks =
     [callee (tok_value c). (q, c) \<leftarrow> with_prev_from p toks,
        tok_type c = ''FUNCTION'' \<and> \<not> prev_type_in (set call_keywords) q]"

definition pragma_entries :: "lex_token list \<Rightarrow> (string \<times> line) list" where
  "pragma_entries toks = [(tok_value t, tok_lineno t). t \<leftarrow> toks, tok_type t = ''PRAGMA'']"

definition is_sys_call_tok :: "lex_token \<Rightarrow> bool" where
  "is_sys_call_tok t \<longleftrightarrow>
     tok_type t = ''SYS_CALL'' \<or> (tok_type t = ''FUNCTION'' \<and> take 6 (tok_value t) = ''system'')"

definition sys_call_entries :: "lex_token list \<Rightarrow> (string \<times> line) list" where
  "sys_call_entries toks = [(tok_value t, tok_lineno t). t \<leftarrow> toks, is_sys_call_tok t]"

abbreviation include_directives :: "lex_token list \<Rightarrow> (string \<times> line) list" where
  "include_directives \<equiv> include_directives_from None"

abbreviation string_inits :: "lex_token list \<Rightarrow> (string \<times> line) list" where
  "string_inits \<equiv> string_inits_from None"

abbreviation called_functions :: "lex_token list \<Rightarrow> string list" where
  "called_functions \<equiv> called_functions_from None"

subsection \<open>Characteristic equations of one step\<close>

text \<open>Each block as the record update it performs.\<close>

lemma gt_include_upd:
  "gt_include s tok = s\<lparr>include_dict :=
     (if prev_include s \<and> tok_type tok \<in> {''INCLUDE_PATH'', ''SCONST''}
      then AList.update (py_strip_delims (tok_value tok)) (tok_lineno tok) (include_dict s)
      else include_dict s)\<rparr>"
  by (auto simp: gt_include_def)

lemma gt_string_init_upd:
  "gt_string_init s tok = s\<lparr>string_init_dict :=
     (if prev_string_init s then AList.update (tok_value tok) (tok_lineno tok) (string_init_dict s)
      else string_init_dict s)\<rparr>"
  by (simp add: gt_string_init_def)

lemma gt_loop_upd:
  "gt_loop s tok =
     (let hl = (tok_type tok \<in> {''FOR'', ''WHILE''} \<or> has_loop s);
          opens = (tok_type tok = ''LBRACE'' \<and> hl);
          closes = (tok_type tok = ''RBRACE'' \<and> hl)
      in s\<lparr>has_loop := (if closes \<and> count_brace s - 1 = 0 then False else hl),
           in_loop := (if opens then True else if closes \<and> count_brace s - 1 = 0 then False
                       else in_loop s),
           count_brace := (if opens then count_brace s + 1 else if closes then count_brace s - 1
                           else count_brace s)\<rparr>)"
  by (cases s) (auto simp: gt_loop_def Let_def)

lemma gt_loop_init_upd:
  "gt_loop_init s tok = s\<lparr>string_init_loop_dict :=
     (if in_loop s \<and> tok_type tok = ''STRING_INIT''
      then AList.update (tok_value tok) (tok_lineno tok) (string_init_loop_dict s)
      else string_init_loop_dict s)\<rparr>"
  by (simp add: gt_loop_init_def)

lemma gt_pragma_upd:
  "gt_pragma s tok = s\<lparr>pragma_dict :=
     (if tok_type tok = ''PRAGMA'' then AList.update (tok_value tok) (tok_lineno tok) (pragma_dict s)
      else pragma_dict s)\<rparr>"
  by (simp add: gt_pragma_def)

lemma gt_sys_call_upd:
  "gt_sys_call s tok = s\<lparr>sys_call_dict :=
     (if is_sys_call_tok tok then AList.update (tok_value tok) (tok_lineno tok) (sys_call_dict s)
      else sys_call_dict s)\<rparr>"
  by (auto simp: gt_sys_call_def is_sys_call_tok_def Let_def)

lemma gt_exec_marker_upd:
  "gt_exec_marker s tok =
     (let ft = (is_first_token s \<or> (tok_type tok = ''CPP_COMMENT'' \<and> count_tok s = 1))
      in s\<lparr>is_first_token := ft,
           is_exec_by_doors := (is_exec_by_doors s \<or>
             (prev_cpp_comment s \<and> ft \<and> tok_type tok = ''C_COMMENT''))\<rparr>)"
  by (cases s) (auto simp: gt_exec_marker_def Let_def)

lemma gt_called_upd:
  "gt_called s tok = s\<lparr>func_called := func_called s @
     (if tok_type tok = ''FUNCTION'' \<and> \<not> prev_keyword s then [callee (tok_value tok)] else [])\<rparr>"
  by (simp add: gt_called_def)

lemmas gt_block_upd = gt_include_upd gt_string_init_upd gt_loop_upd gt_loop_init_upd
  gt_pragma_upd gt_sys_call_upd gt_exec_marker_upd gt_called_upd gt_prev_def

lemma get_tokens_step_flags [simp]:
  "prev_include (get_tokens_step s tok) \<longleftrightarrow> tok_type tok = ''INCLUDE''"
  "prev_string_init (get_tokens_step s tok) \<longleftrightarrow> tok_type tok = ''STRING_INIT''"
  "prev_cpp_comment (get_tokens_step s tok) \<longleftrightarrow> tok_type tok = ''CPP_COMMENT''"
  "prev_keyword (get_tokens_step s tok) \<longleftrightarrow> tok_type tok \<in> set call_keywords"
  "count_tok (get_tokens_step s tok) = count_tok s"
  by (simp_all add: get_tokens_step_def gt_block_upd Let_def del: keyword_sets)

lemma get_tokens_step_tables [simp]:
  "include_dict (get_tokens_step s tok) =
     (if prev_include s \<and> tok_type tok \<in> {''INCLUDE_PATH'', ''SCONST''}
      then AList.update (py_strip_delims (tok_value tok)) (tok_lineno tok) (include_dict s)
      else include_dict s)"
  "string_init_dict (get_tokens_step s tok) =
     (if prev_string_init s then AList.update (tok_value tok) (tok_lineno tok) (string_init_dict s)
      else string_init_dict s)"
  "pragma_dict (get_tokens_step s tok) =
     (if tok_type tok = ''PRAGMA'' then AList.update (tok_value tok) (tok_lineno tok) (pragma_dict s)
      else pragma_dict s)"
  "sys_call_dict (get_tokens_step s tok) =
     (if is_sys_call_tok tok then AList.update (tok_value tok) (tok_lineno tok) (sys_call_dict s)
      else sys_call_dict s)"
  "func_called (get_tokens_step s tok) =
     func_called s @ (if tok_type tok = ''FUNCTION'' \<and> \<not> prev_keyword s then [callee (tok_value tok)] else [])"
  by (simp_all add: get_tokens_step_def gt_block_upd Let_def del: keyword_sets)

lemma get_tokens_step_marker:
  "is_first_token (get_tokens_step s tok) \<longleftrightarrow>
     is_first_token s \<or> (tok_type tok = ''CPP_COMMENT'' \<and> count_tok s = 1)"
  "is_exec_by_doors (get_tokens_step s tok) \<longleftrightarrow>
     is_exec_by_doors s \<or> (prev_cpp_comment s \<and> is_first_token s \<and> tok_type tok = ''C_COMMENT'')"
  by (auto simp: get_tokens_step_def gt_block_upd Let_def simp del: keyword_sets)

lemma get_tokens_step_loop:
  "has_loop (get_tokens_step s tok) = has_loop (gt_loop s tok)"
  "in_loop (get_tokens_step s tok) = in_loop (gt_loop s tok)"
  "count_brace (get_tokens_step s tok) = count_brace (gt_loop s tok)"
  "string_init_loop_dict (get_tokens_step s tok) =
     (if in_loop (gt_loop s tok) \<and> tok_type tok = ''STRING_INIT''
      then AList.update (tok_value tok) (tok_lineno tok) (string_init_loop_dict s)
      else string_init_loop_dict s)"
  by (auto simp: get_tokens_step_def gt_block_upd Let_def simp del: keyword_sets)

lemma get_tokens_Nil [simp]: "get_tokens [] = gt_init"
  by (simp add: get_tokens_def)

lemma get_tokens_snoc: "get_tokens (toks @ [t]) = get_tokens_step (get_tokens toks) t"
  by (simp add: get_tokens_def)

subsection \<open>The tables over a run\<close>

lemma include_directives_from_simps [simp]:
  "include_directives_from p [] = []"
  "include_directives_from p (t # ts) =
     (if prev_type_in {''INCLUDE''} p \<and> tok_type t \<in> {''INCLUDE_PATH'', ''SCONST''}
      then [(py_strip_delims (tok_value t), tok_lineno t)] else []) @ include_directives_from (Some t) ts"
  by (simp_all add: include_directives_from_def)

lemma string_inits_from_simps [simp]:
  "string_inits_from p [] = []"
  "string_inits_from p (t # ts) =
     (if prev_type_in {''STRING_INIT''} p then [(tok_value t, tok_lineno t)] else []) @ string_inits_from (Some t) ts"
  by (simp_all add: string_inits_from_def)

lemma called_functions_from_simps [simp]:
  "called_functions_from p [] = []"
  "called_functions_from p (t # ts) =
     (if tok_type t = ''FUNCTION'' \<and> \<not> prev_type_in (set call_keywords) p then [callee (tok_value t)] else [])
     @ called_functions_from (Some t) ts"
  by (simp_all add: called_functions_from_def)

lemma prev_type_in_simps [simp]:
  "\<not> prev_type_in K None"
  "prev_type_in K (Some t) \<longleftrightarrow> tok_type t \<in> K"
  by (simp_all add: prev_type_in_def)

lemma include_dict_foldl:
  "prev_include s \<longleftrightarrow> prev_type_in {''INCLUDE''} p \<Longrightarrow>
   include_dict (foldl get_tokens_step s toks) = dict_upds (include_dict s) (include_directives_from p toks)"
proof (induction toks arbitrary: s p)
  case (Cons t ts)
  have "prev_include (get_tokens_step s t) = prev_type_in {''INCLUDE''} (Some t)"
    by (simp)
  from Cons.IH [OF this] Cons.prems show ?case by auto
qed simp

lemma string_init_dict_foldl:
  "prev_string_init s \<longleftrightarrow> prev_type_in {''STRING_INIT''} p \<Longrightarrow>
   string_init_dict (foldl get_tokens_step s toks) = dict_upds (string_init_dict s) (string_inits_from p toks)"
proof (induction toks arbitrary: s p)
  case (Cons t ts)
  have "prev_string_init (get_tokens_step s t) = prev_type_in {''STRING_INIT''} (Some t)"
    by (simp)
  from Cons.IH [OF this] Cons.prems show ?case by (simp)
qed simp

lemma func_called_foldl:
  "prev_keyword s \<longleftrightarrow> prev_type_in (set call_keywords) p \<Longrightarrow>
   func_called (foldl get_tokens_step s toks) = func_called s @ called_functions_from p toks"
proof (induction toks arbitrary: s p)
  case (Cons t ts)
  have "prev_keyword (get_tokens_step s t) = prev_type_in (set call_keywords) (Some t)"
    by (simp del: keyword_sets)
  from Cons.IH [OF this] Cons.prems show ?case by (simp del: keyword_sets)
qed simp

lemma pragma_dict_foldl:
  "pragma_dict (foldl get_tokens_step s toks) = dict_upds (pragma_dict s) (pragma_entries toks)"
  by (induction toks arbitrary: s) (simp_all add: pragma_entries_def)

lemma sys_call_dict_foldl:
  "sys_call_dict (foldl get_tokens_step s toks) = dict_upds (sys_call_dict s) (sys_call_entries toks)"
  by (induction toks arbitrary: s) (simp_all add: sys_call_entries_def)

lemma exec_marker_foldl:
  "count_tok s = 0 \<and> \<not> is_first_token s \<and> \<not> is_exec_by_doors s \<Longrightarrow>
   count_tok (foldl get_tokens_step s toks) = 0 \<and> \<not> is_first_token (foldl get_tokens_step s toks)
   \<and> \<not> is_exec_by_doors (foldl get_tokens_step s toks)"
  by (rule foldl_invariant [where P = "\<lambda>s. count_tok s = 0 \<and> \<not> is_first_token s \<and> \<not> is_exec_by_doors s"])
     (simp_all add: get_tokens_step_marker)

text \<open>The tables of a whole run, one equation each, for the checks that read them.\<close>

lemma get_tokens_dicts:
  "include_dict (get_tokens toks) = dict_of (include_directives toks)"
  "string_init_dict (get_tokens toks) = dict_of (string_inits toks)"
  "pragma_dict (get_tokens toks) = dict_of (pragma_entries toks)"
  "sys_call_dict (get_tokens toks) = dict_of (sys_call_entries toks)"
  "func_called (get_tokens toks) = called_functions toks"
proof -
  have init: "\<not> prev_include gt_init" "\<not> prev_string_init gt_init" "\<not> prev_keyword gt_init"
    by (simp_all add: gt_init_def)
  show "include_dict (get_tokens toks) = dict_of (include_directives toks)"
    using include_dict_foldl [of gt_init None toks] init
    by (simp add: get_tokens_def dict_of_def) (simp add: gt_init_def)
  show "string_init_dict (get_tokens toks) = dict_of (string_inits toks)"
    using string_init_dict_foldl [of gt_init None toks] init
    by (simp add: get_tokens_def dict_of_def) (simp add: gt_init_def)
  show "pragma_dict (get_tokens toks) = dict_of (pragma_entries toks)"
    by (simp add: get_tokens_def dict_of_def pragma_dict_foldl) (simp add: gt_init_def)
  show "sys_call_dict (get_tokens toks) = dict_of (sys_call_entries toks)"
    by (simp add: get_tokens_def dict_of_def sys_call_dict_foldl) (simp add: gt_init_def)
  show "func_called (get_tokens toks) = called_functions toks"
    using func_called_foldl [of gt_init None toks] init
    by (simp add: get_tokens_def) (simp add: gt_init_def)
qed

subsection \<open>Theorems\<close>

text \<open>
  Claim C1. The classifier's side tables are the declarative reading of the token stream:
  the include table holds the literal after each include marker, the string-initialiser
  table the token after each initialiser header, the pragma and system-call tables the
  pragma tokens and the system-call-shaped tokens, each dict filled in stream order
  (a repeated key keeps its first position and takes the last line), and the called
  functions are the callees of the call tokens not preceded by a type keyword.
\<close>

theorem get_tokens_tables:
  "include_dict (get_tokens toks) = dict_of (include_directives toks) \<and>
   string_init_dict (get_tokens toks) = dict_of (string_inits toks) \<and>
   pragma_dict (get_tokens toks) = dict_of (pragma_entries toks) \<and>
   sys_call_dict (get_tokens toks) = dict_of (sys_call_entries toks) \<and>
   func_called (get_tokens toks) = called_functions toks"
  by (simp add: get_tokens_dicts)

theorem get_tokens_tables_witness:
  "include_dict (get_tokens
     [mk_tok ''INCLUDE'' ''#include'' 1, mk_tok ''INCLUDE_PATH'' ''<a.inc>'' 1,
      mk_tok ''PRAGMA'' ''pragma runLim, 0'' 2, mk_tok ''STRING_INIT'' ''string s = '' 3,
      mk_tok ''ID'' ''null'' 3, mk_tok ''FUNCTION'' ''system(\"dir\")'' 4,
      mk_tok ''INCLUDE'' ''#include'' 5, mk_tok ''SCONST'' ''\"a.inc\"'' 5]) = [(''a.inc'', 5)] \<and>
   sys_call_dict (get_tokens
     [mk_tok ''STRING_INIT'' ''string s = '' 3, mk_tok ''ID'' ''null'' 3,
      mk_tok ''FUNCTION'' ''system(\"dir\")'' 4]) = [(''system(\"dir\")'', 4)] \<and>
   func_called (get_tokens
     [mk_tok ''STRING_INIT'' ''string s = '' 3, mk_tok ''ID'' ''null'' 3,
      mk_tok ''FUNCTION'' ''system(\"dir\")'' 4]) = [''system'']"
  using get_tokens_tables [of "[mk_tok ''INCLUDE'' ''#include'' 1, mk_tok ''INCLUDE_PATH'' ''<a.inc>'' 1,
      mk_tok ''PRAGMA'' ''pragma runLim, 0'' 2, mk_tok ''STRING_INIT'' ''string s = '' 3,
      mk_tok ''ID'' ''null'' 3, mk_tok ''FUNCTION'' ''system(\"dir\")'' 4,
      mk_tok ''INCLUDE'' ''#include'' 5, mk_tok ''SCONST'' ''\"a.inc\"'' 5]"]
    get_tokens_tables [of "[mk_tok ''STRING_INIT'' ''string s = '' 3, mk_tok ''ID'' ''null'' 3,
      mk_tok ''FUNCTION'' ''system(\"dir\")'' 4]"]
  by (simp add: include_directives_from_def sys_call_entries_def is_sys_call_tok_def
      called_functions_from_def dict_of_def py_strip_delims_def callee_def)

text \<open>
  Claim C18. The executable marker is never set: \<open>count_tok\<close> stays 0, so the
  "first token is a line comment" flag is never raised, whatever the token stream, also
  when a line comment is immediately followed by a block comment at the start of the file.
\<close>

theorem get_tokens_never_executable: "\<not> is_exec_by_doors (get_tokens toks)"
  using exec_marker_foldl [of gt_init toks] by (simp add: get_tokens_def gt_init_def)

theorem get_tokens_never_executable_witness:
  "\<not> is_exec_by_doors (get_tokens [mk_tok ''CPP_COMMENT'' ''// x'' 1, mk_tok ''C_COMMENT'' ''/* y */'' 2])"
  by (rule get_tokens_never_executable)

end
