(* ===== verification/Report.thy ===== *)
theory Report
  imports Prelude
begin

text \<open>
  Diagnostics and the per-file report of \<open>src/dxl-analyzer/dxl_scan.py\<close>: the error
  classes (lines 31--85) as one datatype with a constructor per class, and
  \<open>StartDoors.__add_error\<close> (lines 586--593), which appends a diagnostic to the list
  the report dict holds for a file. The report is a dict from file paths to lists of
  diagnostics, filled in the order the checks run.
\<close>

datatype diag =
    Error string string line
      \<comment> \<open>\<open>Error(kind, message, line)\<close>\<close>
  | IncludeError path string line
      \<comment> \<open>\<open>IncludeError(path, kind, line)\<close>: message \<open>"when including " + path\<close>\<close>
  | FunctionError string string line
      \<comment> \<open>\<open>FunctionError(token, kind, line)\<close>\<close>
  | PragmaError string string line
      \<comment> \<open>\<open>PragmaError(token, kind, line)\<close>\<close>
  | DuplicateFileError string string
      \<comment> \<open>\<open>DuplicateFileError(message, file_path)\<close>\<close>
  | OversizeFileError nat
      \<comment> \<open>\<open>OversizeFileError("File (%d bytes) too big" % fs)\<close>: the size it reports\<close>

text \<open>The kind a diagnostic is reported under (the \<open>kind\<close> field, or the message of
  the classes that have none).\<close>

fun diag_kind :: "diag \<Rightarrow> string" where
  "diag_kind (Error k _ _) = k"
| "diag_kind (IncludeError _ k _) = k"
| "diag_kind (FunctionError _ k _) = k"
| "diag_kind (PragmaError _ k _) = k"
| "diag_kind (DuplicateFileError m _) = m"
| "diag_kind (OversizeFileError _) = ''File too big''"

type_synonym report = "(path, diag list) pydict"

text \<open>\<open>__add_error(dxl_file, e)\<close>: create the file's list if needed, append.\<close>

definition add_error :: "report \<Rightarrow> path \<Rightarrow> diag \<Rightarrow> report" where
  "add_error rep f e = dict_append rep f e"

text \<open>Several diagnostics for one file, in order.\<close>

definition add_errors :: "report \<Rightarrow> path \<Rightarrow> diag list \<Rightarrow> report" where
  "add_errors rep f es = foldl (\<lambda>r e. add_error r f e) rep es"

text \<open>The diagnostics the report holds for a file (none when it has no entry).\<close>

definition report_of :: "report \<Rightarrow> path \<Rightarrow> diag list" where
  "report_of rep f = dict_get rep f"

text \<open>A report that only had diagnostics appended: each file's list extends the old one.\<close>

definition report_grows :: "report \<Rightarrow> report \<Rightarrow> bool" where
  "report_grows r r' \<longleftrightarrow> (\<forall>g. \<exists>zs. report_of r' g = report_of r g @ zs)"

lemma report_of_add_error [simp]:
  "report_of (add_error rep f e) g = (if g = f then report_of rep f @ [e] else report_of rep g)"
  by (simp add: report_of_def add_error_def)

lemma report_of_add_errors [simp]:
  "report_of (add_errors rep f es) g = (if g = f then report_of rep f @ es else report_of rep g)"
  by (induction es arbitrary: rep) (simp_all add: add_errors_def)

lemma add_errors_simps [simp]:
  "add_errors rep f [] = rep"
  "add_errors rep f (e # es) = add_errors (add_error rep f e) f es"
  by (simp_all add: add_errors_def)

lemma report_of_Nil [simp]: "report_of [] f = []"
  by (simp add: report_of_def)

lemma report_of_update [simp]:
  "report_of (AList.update f es rep) g = (if g = f then es else report_of rep g)"
  by (simp add: report_of_def)

text \<open>Diagnostics added by a loop over (file, diagnostic) pairs, as the global checks do.\<close>

lemma report_of_foldl_add_error:
  "report_of (foldl (\<lambda>r (f, e). add_error r f e) rep fes) g = report_of rep g @ [e. (f, e) \<leftarrow> fes, f = g]"
  by (induction fes arbitrary: rep) auto

lemma foldl_add_error_pairs:
  "foldl (\<lambda>r (a, b). add_error r f (E a b)) rep xs = add_errors rep f (map (\<lambda>(a, b). E a b) xs)"
  by (induction xs arbitrary: rep) (auto simp: add_errors_def)

lemma report_grows_refl [simp]: "report_grows r r"
  by (simp add: report_grows_def)

lemma report_grows_trans [trans]: "report_grows r1 r2 \<Longrightarrow> report_grows r2 r3 \<Longrightarrow> report_grows r1 r3"
  unfolding report_grows_def by (metis append.assoc)

lemma report_grows_add_error [simp]: "report_grows r (add_error r f e)"
  by (simp add: report_grows_def)

lemma report_grows_add_errors [simp]: "report_grows r (add_errors r f es)"
  by (simp add: report_grows_def)

lemma report_grows_foldl:
  "(\<And>r x. report_grows r (g r x)) \<Longrightarrow> report_grows r (foldl g r xs)"
  by (induction xs arbitrary: r) (auto intro: report_grows_trans)

lemma report_grows_in: "report_grows r r' \<Longrightarrow> e \<in> set (report_of r g) \<Longrightarrow> e \<in> set (report_of r' g)"
  unfolding report_grows_def by (metis Un_iff set_append)

end
