(* ===== verification/Includes.thy ===== *)
theory Includes
  imports Classifier Report
begin

text \<open>
  The include resolver: \<open>StartDoors.__get_valid_includes\<close>
  (\<open>src/dxl-analyzer/dxl_scan.py\<close>, lines 596--668). For every include target that the
  classifier recorded (\<open>include_dict\<close>), it strips leading backslashes and looks the
  path up: an absolute path as it is, a relative one under each search root in turn
  (the addin roots, then the project roots), trying the fixed DOORS library directory
  after every root that fails. Found paths go into a set; each is then classified by
  its drive letter. The file system and \<open>os.path\<close> are the interface record
  \<open>os_iface\<close>: every theorem holds for any file system and any implementation of the
  path functions, unless it names a property of them as a hypothesis.
\<close>

record os_iface =
  os_exists :: "path \<Rightarrow> bool"          \<comment> \<open>\<open>os.path.exists\<close>\<close>
  os_isabs :: "path \<Rightarrow> bool"           \<comment> \<open>\<open>os.path.isabs\<close>\<close>
  os_join :: "path \<Rightarrow> path \<Rightarrow> path"    \<comment> \<open>\<open>os.path.join\<close>\<close>
  os_normpath :: "path \<Rightarrow> path"        \<comment> \<open>\<open>os.path.normpath\<close>\<close>
  os_drive :: "path \<Rightarrow> string"         \<comment> \<open>\<open>os.path.splitdrive(p)[0]\<close>\<close>
  os_basename :: "path \<Rightarrow> string"      \<comment> \<open>\<open>os.path.basename\<close>\<close>
  os_getsize :: "path \<Rightarrow> nat"          \<comment> \<open>\<open>os.path.getsize\<close>\<close>

definition backslash :: char where
  "backslash = CHR 0x5C"

text \<open>The DOORS library directory tried after each root (line 632).\<close>

definition doors_includes_path :: path where
  "doors_includes_path = ''D:/AppX64/IBM/Rational/DOORS/9.6/lib/dxl''"

text \<open>The prefixes whose unresolved includes are not reported (line 641).\<close>

definition unreported_prefixes :: "string list" where
  "unreported_prefixes = [''utils'', ''%%Path%%'', ''%%templatePath%%'']"

text \<open>The size cap checked before any scanning (\<open>fs > 500*1000\<close>).\<close>

definition size_cap :: nat where
  "size_cap = 500 * 1000"

subsection \<open>Resolving one include target\<close>

text \<open>Lines 614--615: \<open>if path.startswith("\\"): path = path.lstrip("\\")\<close>.\<close>

definition strip_include_path :: "path \<Rightarrow> path" where
  "strip_include_path p = (if py_startswith p [backslash] then py_lstrip backslash p else p)"

text \<open>
  Lines 624--638: the loop over the roots. After a root where the path does not exist,
  the library directory is tried before the next root.
\<close>

fun search_roots :: "os_iface \<Rightarrow> path list \<Rightarrow> path \<Rightarrow> path option" where
  "search_roots os [] p = None"
| "search_roots os (start_path # rest) p =
     (let fp = os_normpath os (os_join os start_path p) in
      if os_exists os fp then Some fp
      else
        (let c_path = os_normpath os (os_join os doors_includes_path p) in
         if os_exists os c_path then Some c_path else search_roots os rest p))"

text \<open>Lines 614--638: the stripped path and where it was found, if anywhere.\<close>

definition resolve_include :: "os_iface \<Rightarrow> path list \<Rightarrow> path \<Rightarrow> path \<times> path option" where
  "resolve_include os roots raw =
     (let p = strip_include_path raw in
      (p, if os_isabs os p then (if os_exists os p then Some p else None)
          else search_roots os roots p))"

subsection \<open>The two loops\<close>

text \<open>\<open>exists_path_list.add(p)\<close> on a set, kept as a duplicate-free list.\<close>

definition set_add :: "'a \<Rightarrow> 'a list \<Rightarrow> 'a list" where
  "set_add x xs = (if x \<in> set xs then xs else xs @ [x])"

text \<open>Lines 613--643: one include target; the state is the set of found paths and the
  diagnostics added so far.\<close>

definition include_step ::
  "os_iface \<Rightarrow> path list \<Rightarrow> bool \<Rightarrow> path list \<times> diag list \<Rightarrow> path \<times> line \<Rightarrow> path list \<times> diag list" where
  "include_step os roots log_error st item =
     (let (exists_path_list, errs) = st; (raw, l) = item;
          (p, found) = resolve_include os roots raw
      in case found of
           Some fp \<Rightarrow> (set_add fp exists_path_list, errs)
         | None \<Rightarrow>
             (exists_path_list,
              if \<not> py_startswith_any p unreported_prefixes \<and> log_error
              then errs @ [IncludeError p ''Path not found or not valid'' l] else errs))"

text \<open>
  Lines 645--666: one found path. \<open>line\<close> is the variable left over from the first
  loop, the line of the last include target it visited.
\<close>

definition valid_step ::
  "os_iface \<Rightarrow> bool \<Rightarrow> line \<Rightarrow> path list \<times> diag list \<Rightarrow> path \<Rightarrow> path list \<times> diag list" where
  "valid_step os log_error l st p =
     (let (valid, errs) = st;
          errs1 = (if py_contains p [backslash, backslash] \<and> log_error
                   then errs @ [IncludeError p ''Double Backslash'' l] else errs);
          drive = os_drive os p
      in if drive \<in> {''K:'', ''D:''} then (valid @ [p], errs1)
         else if drive = ''R:''
         then (valid @ [p], if log_error then errs1 @ [IncludeError p ''Illegal path'' l] else errs1)
         else (valid, if log_error then errs1 @ [IncludeError p ''Illegal path'' l] else errs1))"

text \<open>
  The whole method for a file of the given size whose tokens (lexed from line 1) are
  \<open>toks\<close>: \<open>None\<close> for an oversize file, where nothing happens; otherwise the
  diagnostics it adds to the file's report, in order, and the list it stores as
  \<open>valid_includes_dict[dxl_file]\<close>.
\<close>

definition get_valid_includes ::
  "os_iface \<Rightarrow> path list \<Rightarrow> nat \<Rightarrow> lex_token list \<Rightarrow> bool \<Rightarrow> (diag list \<times> path list) option" where
  "get_valid_includes os roots fs toks log_error =
     (if fs > size_cap then None
      else
        (let items = include_dict (get_tokens toks);
             (exists_path_list, errs1) = foldl (include_step os roots log_error) ([], []) items;
             l = snd (last items);
             (valid, errs2) = foldl (valid_step os log_error l) ([], errs1) exists_path_list
         in Some (errs2, valid)))"

subsection \<open>The resolution order the spec describes, and the claims' vocabulary\<close>

text \<open>
  \<open>spec_search\<close> is section 4.4 of the spec: the first root under which the path
  exists, else the library directory. \<open>set_of_found\<close>, \<open>not_found_errors\<close> and
  \<open>path_errors\<close> say what the two loops produce, target by target and path by path.
  \<open>toy_os\<close> is a small Windows-like file system for the examples: a list of existing
  files, backslash joins, drive letters.
\<close>

abbreviation lib_path :: "os_iface \<Rightarrow> path \<Rightarrow> path" where
  "lib_path os p \<equiv> os_normpath os (os_join os doors_includes_path p)"

abbreviation under :: "os_iface \<Rightarrow> path \<Rightarrow> path \<Rightarrow> path" where
  "under os r p \<equiv> os_normpath os (os_join os r p)"

definition spec_search :: "os_iface \<Rightarrow> path list \<Rightarrow> path \<Rightarrow> path option" where
  "spec_search os roots p =
     (case find (\<lambda>r. os_exists os (under os r p)) roots of
        Some r \<Rightarrow> Some (under os r p)
      | None \<Rightarrow> if os_exists os (lib_path os p) then Some (lib_path os p) else None)"

definition set_of_found :: "os_iface \<Rightarrow> path list \<Rightarrow> (path \<times> line) list \<Rightarrow> path set" where
  "set_of_found os roots items = {fp. \<exists>raw l. (raw, l) \<in> set items \<and> snd (resolve_include os roots raw) = Some fp}"

definition not_found_errors :: "os_iface \<Rightarrow> path list \<Rightarrow> bool \<Rightarrow> (path \<times> line) list \<Rightarrow> diag list" where
  "not_found_errors os roots log_error items =
     concat (map (\<lambda>(raw, l). let (p, r) = resolve_include os roots raw in
        if r = None \<and> \<not> py_startswith_any p unreported_prefixes \<and> log_error
        then [IncludeError p ''Path not found or not valid'' l] else []) items)"

definition path_errors :: "os_iface \<Rightarrow> bool \<Rightarrow> line \<Rightarrow> path \<Rightarrow> diag list" where
  "path_errors os log_error l p =
     (if py_contains p [backslash, backslash] \<and> log_error then [IncludeError p ''Double Backslash'' l] else [])
     @ (if os_drive os p \<notin> {''K:'', ''D:''} \<and> log_error then [IncludeError p ''Illegal path'' l] else [])"

definition toy_os :: "path list \<Rightarrow> os_iface" where
  "toy_os files =
     \<lparr>os_exists = (\<lambda>p. p \<in> set files),
      os_isabs = (\<lambda>p. py_startswith p [backslash] \<or> (take 1 (drop 1 p) = '':'' \<and> py_startswith (drop 2 p) [backslash])),
      os_join = (\<lambda>a b. a @ [backslash] @ b),
      os_normpath = id,
      os_drive = (\<lambda>p. if take 1 (drop 1 p) = '':'' then take 2 p else []),
      os_basename = (\<lambda>p. rev (takeWhile (\<lambda>c. c \<noteq> backslash) (rev p))),
      os_getsize = (\<lambda>_. 0)\<rparr>"

subsection \<open>Lemmas\<close>

lemma search_roots_Cons:
  "search_roots os (r # rs) p =
     (if os_exists os (under os r p) then Some (under os r p)
      else if os_exists os (lib_path os p) then Some (lib_path os p)
      else search_roots os rs p)"
  by (simp add: Let_def)

lemma set_set_add [simp]: "set (set_add x xs) = insert x (set xs)"
  by (auto simp: set_add_def)

lemma distinct_set_add [simp]: "distinct xs \<Longrightarrow> distinct (set_add x xs)"
  by (simp add: set_add_def)

lemma include_step_apply:
  "resolve_include os roots raw = (p, r) \<Longrightarrow>
   include_step os roots log_error (ex, es) (raw, l) =
     (case r of Some fp \<Rightarrow> (set_add fp ex, es)
      | None \<Rightarrow> (ex, if \<not> py_startswith_any p unreported_prefixes \<and> log_error
                    then es @ [IncludeError p ''Path not found or not valid'' l] else es))"
  by (simp add: include_step_def split: option.splits)

lemma foldl_include_step:
  "foldl (include_step os roots log_error) (ex, es) items = (ex', es') \<Longrightarrow>
   set ex' = set ex \<union> {fp. \<exists>raw l. (raw, l) \<in> set items \<and> snd (resolve_include os roots raw) = Some fp}
   \<and> (distinct ex \<longrightarrow> distinct ex')
   \<and> es' = es @ not_found_errors os roots log_error items"
proof (induction items arbitrary: ex es)
  case Nil
  then show ?case by (simp add: not_found_errors_def)
next
  case (Cons it items)
  obtain raw l where it: "it = (raw, l)" by force
  obtain p r where res: "resolve_include os roots raw = (p, r)" by force
  show ?case
  proof (cases r)
    case None
    with Cons.prems it res have
      "foldl (include_step os roots log_error)
         (ex, if \<not> py_startswith_any p unreported_prefixes \<and> log_error
              then es @ [IncludeError p ''Path not found or not valid'' l] else es) items = (ex', es')"
      by (simp add: include_step_apply)
    from Cons.IH [OF this] None it res show ?thesis
      by (auto simp: not_found_errors_def)
  next
    case (Some fp)
    with Cons.prems it res have
      "foldl (include_step os roots log_error) (set_add fp ex, es) items = (ex', es')"
      by (simp add: include_step_apply)
    from Cons.IH [OF this] Some it res show ?thesis
      by (auto simp: not_found_errors_def)
  qed
qed

lemma valid_step_apply:
  "valid_step os log_error l (v, es) p =
     (v @ (if os_drive os p \<in> {''K:'', ''D:'', ''R:''} then [p] else []), es @ path_errors os log_error l p)"
  by (auto simp: valid_step_def path_errors_def Let_def)

lemma foldl_valid_step:
  "foldl (valid_step os log_error l) (v, es) ps =
     (v @ filter (\<lambda>p. os_drive os p \<in> {''K:'', ''D:'', ''R:''}) ps,
      es @ concat (map (path_errors os log_error l) ps))"
  by (induction ps arbitrary: v es) (simp_all add: valid_step_apply)

lemma get_valid_includes_Some:
  assumes "get_valid_includes os roots fs toks log_error = Some (errs, valid)"
  obtains ex where
    "fs \<le> size_cap"
    "set ex = set_of_found os roots (include_dict (get_tokens toks))"
    "distinct ex"
    "valid = filter (\<lambda>p. os_drive os p \<in> {''K:'', ''D:'', ''R:''}) ex"
    "errs = not_found_errors os roots log_error (include_dict (get_tokens toks))
       @ concat (map (path_errors os log_error (snd (last (include_dict (get_tokens toks))))) ex)"
proof -
  let ?items = "include_dict (get_tokens toks)"
  obtain ex es where fe: "foldl (include_step os roots log_error) ([], []) ?items = (ex, es)"
    by force
  from foldl_include_step [OF fe] have
    "set ex = set_of_found os roots ?items" "distinct ex"
    "es = not_found_errors os roots log_error ?items"
    by (simp_all add: set_of_found_def)
  moreover from assms fe have "fs \<le> size_cap"
    "valid = filter (\<lambda>p. os_drive os p \<in> {''K:'', ''D:'', ''R:''}) ex"
    "errs = es @ concat (map (path_errors os log_error (snd (last ?items))) ex)"
    by (auto simp: get_valid_includes_def Let_def foldl_valid_step split: if_splits)
  ultimately show ?thesis using that by blast
qed

lemma not_found_errors_kind:
  "e \<in> set (not_found_errors os roots log_error items) \<Longrightarrow>
   \<exists>p l. e = IncludeError p ''Path not found or not valid'' l"
  by (auto simp: not_found_errors_def split: prod.splits if_splits)

lemma path_errors_kind:
  "e \<in> set (path_errors os log_error l p) \<Longrightarrow>
   e = IncludeError p ''Double Backslash'' l \<or> e = IncludeError p ''Illegal path'' l"
  by (auto simp: path_errors_def split: if_splits)

lemma leak_example:
  "get_valid_includes (toy_os [''K:'' @ [backslash, backslash] @ ''lib'' @ [backslash] @ ''a.inc'']) [] 0
     [mk_tok ''INCLUDE'' ''#include'' 1,
      mk_tok ''SCONST'' (''\"K:'' @ [backslash, backslash] @ ''lib'' @ [backslash] @ ''a.inc\"'') 1,
      mk_tok ''INCLUDE'' ''#include'' 9, mk_tok ''INCLUDE_PATH'' ''<b.inc>'' 9] True
   = Some ([IncludeError ''b.inc'' ''Path not found or not valid'' 9,
            IncludeError (''K:'' @ [backslash, backslash] @ ''lib'' @ [backslash] @ ''a.inc'') ''Double Backslash'' 9],
           [''K:'' @ [backslash, backslash] @ ''lib'' @ [backslash] @ ''a.inc''])"
  by (simp add: get_valid_includes_def get_tokens_def gt_init_def size_cap_def toy_os_def
      backslash_def py_strip_delims_def resolve_include_def strip_include_path_def
      include_step_def valid_step_def set_add_def unreported_prefixes_def Let_def)

lemma leak_example_tables:
  "include_dict (get_tokens
     [mk_tok ''INCLUDE'' ''#include'' 1,
      mk_tok ''SCONST'' (''\"K:'' @ [backslash, backslash] @ ''lib'' @ [backslash] @ ''a.inc\"'') 1,
      mk_tok ''INCLUDE'' ''#include'' 9, mk_tok ''INCLUDE_PATH'' ''<b.inc>'' 9])
   = [(''K:'' @ [backslash, backslash] @ ''lib'' @ [backslash] @ ''a.inc'', 1), (''b.inc'', 9)]"
  by (simp add: get_tokens_def gt_init_def backslash_def py_strip_delims_def)

subsection \<open>Theorems\<close>

text \<open>
  Claim C2. When the DOORS library directory does not hold the path, the root search finds
  exactly what the spec's resolution order finds: the path under the first root that has
  it, in the caller's order, and nothing otherwise.
\<close>

theorem search_roots_spec:
  "\<not> os_exists os (lib_path os p) \<Longrightarrow> search_roots os roots p = spec_search os roots p"
  by (induction roots) (auto simp: Let_def spec_search_def)

theorem search_roots_spec_witness:
  "\<not> os_exists (toy_os [''K:r2'' @ [backslash] @ ''foo.inc''])
      (lib_path (toy_os [''K:r2'' @ [backslash] @ ''foo.inc'']) ''foo.inc'') \<and>
   search_roots (toy_os [''K:r2'' @ [backslash] @ ''foo.inc'']) [''K:r1'', ''K:r2''] ''foo.inc''
     = Some (''K:r2'' @ [backslash] @ ''foo.inc'') \<and>
   spec_search (toy_os [''K:r2'' @ [backslash] @ ''foo.inc'']) [''K:r1'', ''K:r2''] ''foo.inc''
     = Some (''K:r2'' @ [backslash] @ ''foo.inc'')"
proof -
  have h: "\<not> os_exists (toy_os [''K:r2'' @ [backslash] @ ''foo.inc''])
      (lib_path (toy_os [''K:r2'' @ [backslash] @ ''foo.inc'']) ''foo.inc'')"
    by (simp add: toy_os_def doors_includes_path_def backslash_def)
  have s: "spec_search (toy_os [''K:r2'' @ [backslash] @ ''foo.inc'']) [''K:r1'', ''K:r2''] ''foo.inc''
     = Some (''K:r2'' @ [backslash] @ ''foo.inc'')"
    by (simp add: spec_search_def toy_os_def backslash_def)
  show ?thesis
    using search_roots_spec [OF h, of "[''K:r1'', ''K:r2'']"] h s by simp
qed

text \<open>
  Claim C19. When the DOORS library directory holds the path, only the first root is ever
  consulted: the search returns the path under the first root if it exists there and the
  library copy otherwise, even when a later root holds the path; with no roots at all
  nothing is found.
\<close>


theorem search_roots_library_first:
  "os_exists os (lib_path os p) \<Longrightarrow>
   search_roots os roots p =
     (case roots of [] \<Rightarrow> None
      | r # _ \<Rightarrow> Some (if os_exists os (under os r p) then under os r p else lib_path os p))"
  by (cases roots) (simp_all add: Let_def)

theorem search_roots_library_first_witness:
  "os_exists (toy_os [doors_includes_path @ [backslash] @ ''foo.inc'', ''K:r2'' @ [backslash] @ ''foo.inc''])
      (lib_path (toy_os [doors_includes_path @ [backslash] @ ''foo.inc'', ''K:r2'' @ [backslash] @ ''foo.inc'']) ''foo.inc'') \<and>
   os_exists (toy_os [doors_includes_path @ [backslash] @ ''foo.inc'', ''K:r2'' @ [backslash] @ ''foo.inc''])
      (''K:r2'' @ [backslash] @ ''foo.inc'') \<and>
   search_roots (toy_os [doors_includes_path @ [backslash] @ ''foo.inc'', ''K:r2'' @ [backslash] @ ''foo.inc''])
      [''K:r1'', ''K:r2''] ''foo.inc'' = Some (doors_includes_path @ [backslash] @ ''foo.inc'')"
proof -
  have h: "os_exists (toy_os [doors_includes_path @ [backslash] @ ''foo.inc'', ''K:r2'' @ [backslash] @ ''foo.inc''])
      (lib_path (toy_os [doors_includes_path @ [backslash] @ ''foo.inc'', ''K:r2'' @ [backslash] @ ''foo.inc'']) ''foo.inc'')"
    by (simp add: toy_os_def)
  show ?thesis
    using search_roots_library_first [OF h, of "[''K:r1'', ''K:r2'']"] h
    by (simp add: toy_os_def doors_includes_path_def backslash_def)
qed

text \<open>
  Claim C3. The "Path not found or not valid" diagnostics of a file are, in order, one for
  each include target (with the line of its last occurrence) that resolves nowhere,
  carrying the stripped path, unless error logging is off or the path starts with one of
  the unreported prefixes.
\<close>

theorem get_valid_includes_not_found:
  "get_valid_includes os roots fs toks log_error = Some (errs, valid) \<Longrightarrow>
   filter (\<lambda>e. diag_kind e = ''Path not found or not valid'') errs =
     not_found_errors os roots log_error (include_dict (get_tokens toks))"
proof (erule get_valid_includes_Some)
  fix ex
  let ?nf = "not_found_errors os roots log_error (include_dict (get_tokens toks))"
  let ?pe = "concat (map (path_errors os log_error (snd (last (include_dict (get_tokens toks))))) ex)"
  assume errs: "errs = ?nf @ ?pe"
  have "\<forall>e \<in> set ?nf. diag_kind e = ''Path not found or not valid''"
    by (auto dest: not_found_errors_kind)
  moreover have "\<forall>e \<in> set ?pe. diag_kind e \<noteq> ''Path not found or not valid''"
    by (fastforce dest: path_errors_kind)
  ultimately show ?thesis
    by (simp add: errs)
qed

theorem get_valid_includes_not_found_witness:
  "filter (\<lambda>e. diag_kind e = ''Path not found or not valid'')
     [IncludeError ''b.inc'' ''Path not found or not valid'' 9,
      IncludeError (''K:'' @ [backslash, backslash] @ ''lib'' @ [backslash] @ ''a.inc'') ''Double Backslash'' 9]
   = not_found_errors (toy_os [''K:'' @ [backslash, backslash] @ ''lib'' @ [backslash] @ ''a.inc'']) [] True [(''K:'' @ [backslash, backslash] @ ''lib'' @ [backslash] @ ''a.inc'', 1), (''b.inc'', 9)]"
  using get_valid_includes_not_found [OF leak_example] leak_example_tables by simp

text \<open>
  Claim C4. The valid includes of a file are the found paths on drives K:, D: and R:, and
  a found path gets an "Illegal path" diagnostic exactly when it is not on drive K: or D:
  (so R: paths are both linked and flagged), when error logging is on.
\<close>

theorem get_valid_includes_legality:
  "get_valid_includes os roots fs toks log_error = Some (errs, valid) \<Longrightarrow>
   set valid = {fp \<in> set_of_found os roots (include_dict (get_tokens toks)).
                  os_drive os fp \<in> {''K:'', ''D:'', ''R:''}} \<and>
   {fp. \<exists>l. IncludeError fp ''Illegal path'' l \<in> set errs} =
     (if log_error then {fp \<in> set_of_found os roots (include_dict (get_tokens toks)).
                          os_drive os fp \<notin> {''K:'', ''D:''}} else {})"
proof (erule get_valid_includes_Some)
  fix ex
  let ?nf = "not_found_errors os roots log_error (include_dict (get_tokens toks))"
  let ?l = "snd (last (include_dict (get_tokens toks)))"
  assume ex: "set ex = set_of_found os roots (include_dict (get_tokens toks))"
    and valid: "valid = filter (\<lambda>p. os_drive os p \<in> {''K:'', ''D:'', ''R:''}) ex"
    and errs: "errs = ?nf @ concat (map (path_errors os log_error ?l) ex)"
  have nf: "IncludeError fp ''Illegal path'' l \<notin> set ?nf" for fp l
    by (auto dest: not_found_errors_kind)
  have "(\<exists>l. IncludeError fp ''Illegal path'' l \<in> set errs) \<longleftrightarrow>
        log_error \<and> fp \<in> set ex \<and> os_drive os fp \<notin> {''K:'', ''D:''}" for fp
    by (auto simp: errs nf path_errors_def split: if_splits)
  then show ?thesis
    by (auto simp: valid ex)
qed

theorem get_valid_includes_legality_witness:
  "set [''K:'' @ [backslash, backslash] @ ''lib'' @ [backslash] @ ''a.inc''] = {fp \<in> set_of_found (toy_os [''K:'' @ [backslash, backslash] @ ''lib'' @ [backslash] @ ''a.inc'']) [] [(''K:'' @ [backslash, backslash] @ ''lib'' @ [backslash] @ ''a.inc'', 1), (''b.inc'', 9)].
                 os_drive (toy_os [''K:'' @ [backslash, backslash] @ ''lib'' @ [backslash] @ ''a.inc'']) fp \<in> {''K:'', ''D:'', ''R:''}} \<and>
   {fp. \<exists>l. IncludeError fp ''Illegal path'' l \<in> set
      [IncludeError ''b.inc'' ''Path not found or not valid'' 9, IncludeError (''K:'' @ [backslash, backslash] @ ''lib'' @ [backslash] @ ''a.inc'') ''Double Backslash'' 9]}
   = {fp \<in> set_of_found (toy_os [''K:'' @ [backslash, backslash] @ ''lib'' @ [backslash] @ ''a.inc'']) [] [(''K:'' @ [backslash, backslash] @ ''lib'' @ [backslash] @ ''a.inc'', 1), (''b.inc'', 9)]. os_drive (toy_os [''K:'' @ [backslash, backslash] @ ''lib'' @ [backslash] @ ''a.inc'']) fp \<notin> {''K:'', ''D:''}}"
  using get_valid_includes_legality [OF leak_example] leak_example_tables by simp

text \<open>
  Claim C20. Every "Double Backslash" and "Illegal path" diagnostic carries the line of the
  last include target the first loop visited, not the line of the include that produced
  the path: the loop variable \<open>line\<close> leaks out of the first loop.
\<close>

theorem get_valid_includes_line_leak:
  "get_valid_includes os roots fs toks log_error = Some (errs, valid) \<Longrightarrow>
   IncludeError p k l \<in> set errs \<Longrightarrow> k \<in> {''Double Backslash'', ''Illegal path''} \<Longrightarrow>
   l = snd (last (include_dict (get_tokens toks)))"
proof (erule get_valid_includes_Some)
  fix ex
  assume errs: "errs = not_found_errors os roots log_error (include_dict (get_tokens toks))
       @ concat (map (path_errors os log_error (snd (last (include_dict (get_tokens toks))))) ex)"
  assume "IncludeError p k l \<in> set errs" "k \<in> {''Double Backslash'', ''Illegal path''}"
  then show "l = snd (last (include_dict (get_tokens toks)))"
    by (auto simp: errs dest!: not_found_errors_kind path_errors_kind)
qed


theorem get_valid_includes_line_leak_witness:
  "IncludeError (''K:'' @ [backslash, backslash] @ ''lib'' @ [backslash] @ ''a.inc'') ''Double Backslash'' 9
     \<in> set [IncludeError ''b.inc'' ''Path not found or not valid'' 9,
              IncludeError (''K:'' @ [backslash, backslash] @ ''lib'' @ [backslash] @ ''a.inc'') ''Double Backslash'' 9] \<and>
   map_of (include_dict (get_tokens [mk_tok ''INCLUDE'' ''#include'' 1,
      mk_tok ''SCONST'' (''\"K:'' @ [backslash, backslash] @ ''lib'' @ [backslash] @ ''a.inc\"'') 1,
      mk_tok ''INCLUDE'' ''#include'' 9, mk_tok ''INCLUDE_PATH'' ''<b.inc>'' 9])) (''K:'' @ [backslash, backslash] @ ''lib'' @ [backslash] @ ''a.inc'') = Some 1 \<and>
   (9::nat) = snd (last (include_dict (get_tokens [mk_tok ''INCLUDE'' ''#include'' 1,
      mk_tok ''SCONST'' (''\"K:'' @ [backslash, backslash] @ ''lib'' @ [backslash] @ ''a.inc\"'') 1,
      mk_tok ''INCLUDE'' ''#include'' 9, mk_tok ''INCLUDE_PATH'' ''<b.inc>'' 9])))"
  using get_valid_includes_line_leak [OF leak_example, of "''K:'' @ [backslash, backslash] @ ''lib'' @ [backslash] @ ''a.inc''" "''Double Backslash''" 9]
    leak_example_tables by simp

end
