(* ===== verification/Issues.thy ===== *)
theory Issues
  imports Includes
begin

text \<open>
  The per-file checks of \<open>src/dxl-analyzer/dxl_scan.py\<close> that turn the classifier's
  tables into diagnostics: \<open>__check_string_init\<close> (lines 811--830),
  \<open>__check_sys_calls\<close> (670--684), \<open>__check_pragmas\<close> (833--891) and
  \<open>__check_duplicates\<close> (894--924). Each takes the file's size, its token stream,
  the report so far and the file's path, and returns the report with the file's new
  diagnostics appended; \<open>__check_pragmas\<close> may instead raise (\<open>Inl\<close>), since
  \<open>int(pragma.split(",")[1])\<close> fails on a malformed argument, and also returns the
  \<open>__is_error_pragma\<close> flag that the HTML renderer reads.
\<close>

subsection \<open>String initialisations\<close>

definition null_init_error :: "line \<Rightarrow> diag" where
  \<open>null_init_error l = Error ''Bad string initialization'' ''Use "" instead of null'' l\<close>

text \<open>Lines 816--830: one diagnostic per entry of \<open>string_init_dict\<close> whose value is
  \<open>null\<close>; the dict is keyed by the initialising token.\<close>

definition check_string_init :: "nat \<Rightarrow> lex_token list \<Rightarrow> report \<Rightarrow> path \<Rightarrow> report" where
  "check_string_init fs toks rep f =
     (if size_cap < fs then rep
      else foldl (\<lambda>r (token, l). if token = ''null'' then add_error r f (null_init_error l) else r)
             rep (string_init_dict (get_tokens toks)))"

subsection \<open>System calls\<close>

text \<open>Lines 675--684: one \<open>FunctionError(sys_call, "System Call", line)\<close> per entry
  of \<open>sys_call_dict\<close>.\<close>

definition check_sys_calls :: "nat \<Rightarrow> lex_token list \<Rightarrow> report \<Rightarrow> path \<Rightarrow> report" where
  "check_sys_calls fs toks rep f =
     (if size_cap < fs then rep
      else foldl (\<lambda>r (sys_call, l). add_error r f (FunctionError sys_call ''System Call'' l))
             rep (sys_call_dict (get_tokens toks)))"

subsection \<open>Pragmas\<close>

text \<open>
  Lines 853--881: the ordering flag. Line 0 stands for "no include" and "no pragma";
  the include line is the least value of \<open>include_dict\<close>, which holds the line of the
  last occurrence of each include target.
\<close>

definition pragma_order_flag :: "(string, line) pydict \<Rightarrow> (string, line) pydict \<Rightarrow> bool" where
  "pragma_order_flag incs prags =
     (let first_include_line = (if incs \<noteq> [] then Min (snd ` set incs) else 0);
          last_pragma_line = (if prags \<noteq> [] then Max (snd ` set prags) else 0)
      in if first_include_line \<noteq> 0 \<and> last_pragma_line \<noteq> 0 then first_include_line < last_pragma_line
         else first_include_line \<noteq> 0 \<and> last_pragma_line = 0)"

text \<open>Line 888: \<open>int(pragma.split(",")[1])\<close>, which raises IndexError when the pragma
  has no comma and ValueError when the argument is not a decimal integer.\<close>

definition runlim_cycles :: "string \<Rightarrow> py_exc + int" where
  "runlim_cycles pragma =
     (case py_index (py_split (CHR '','') pragma) 1 of Inl e \<Rightarrow> Inl e | Inr a \<Rightarrow> py_int a)"

text \<open>Lines 885--891: the body of the loop over \<open>pragma_dict\<close>.\<close>

definition pragma_arg_step :: "path \<Rightarrow> report \<Rightarrow> string \<times> line \<Rightarrow> py_exc + report" where
  "pragma_arg_step f rep x =
     (case x of (pragma, l) \<Rightarrow>
       if py_contains pragma ''xflags''
       then Inr (add_error rep f (PragmaError pragma ''Pragma xflags forbidden'' l))
       else if py_contains pragma ''runLim''
       then (case runlim_cycles pragma of
               Inl e \<Rightarrow> Inl e
             | Inr exec_cyc \<Rightarrow>
                 Inr (if exec_cyc \<noteq> 0
                      then add_error rep f (PragmaError pragma ''Execution cycle not 0'' l) else rep))
       else Inr rep)"

text \<open>The loop itself: an exception leaves it at once.\<close>

fun pragma_arg_loop :: "path \<Rightarrow> report \<Rightarrow> (string \<times> line) list \<Rightarrow> py_exc + report" where
  "pragma_arg_loop f rep [] = Inr rep"
| "pragma_arg_loop f rep (x # xs) =
     (case pragma_arg_step f rep x of Inl e \<Rightarrow> Inl e | Inr r \<Rightarrow> pragma_arg_loop f r xs)"

text \<open>Lines 833--891. The result is the report and \<open>__is_error_pragma\<close>, or the
  exception, which nothing in the program catches below the top-level handler.\<close>

definition check_pragmas :: "nat \<Rightarrow> lex_token list \<Rightarrow> report \<Rightarrow> path \<Rightarrow> py_exc + report \<times> bool" where
  "check_pragmas fs toks rep f =
     (if size_cap < fs then Inr (rep, False)
      else let g = get_tokens toks;
               is_error_pragma = pragma_order_flag (include_dict g) (pragma_dict g)
           in case pragma_arg_loop f rep (pragma_dict g) of
                Inl e \<Rightarrow> Inl e
              | Inr r \<Rightarrow> Inr (r, is_error_pragma))"

subsection \<open>Files with the same name\<close>

text \<open>Lines 894--924, with \<open>os.path.basename\<close> from the interface.\<close>

definition check_duplicates :: "os_iface \<Rightarrow> path \<Rightarrow> path list \<Rightarrow> report \<Rightarrow> report" where
  "check_duplicates os dxl_file_checking dxl_files_list rep =
     (let dxl_basename_list = map (os_basename os) dxl_files_list;
          dup_file_list = counter_dups dxl_basename_list
      in foldl (\<lambda>r dup_file.
           let dup_file_path_list = [p \<leftarrow> dxl_files_list. dup_file = os_basename os p]
           in if dxl_file_checking \<in> set dup_file_path_list
              then foldl (\<lambda>r dup_path. if dup_path \<noteq> dxl_file_checking
                            then add_error r dxl_file_checking (DuplicateFileError ''Same filename'' dup_path)
                            else r) r dup_file_path_list
              else r) rep dup_file_list)"

subsection \<open>Specification vocabulary\<close>

text \<open>A pragma whose argument check raises: no \<open>xflags\<close>, a \<open>runLim\<close>, and no
  integer after the first comma.\<close>

definition bad_runlim :: "string \<Rightarrow> bool" where
  "bad_runlim p \<longleftrightarrow> \<not> py_contains p ''xflags'' \<and> py_contains p ''runLim'' \<and> isl (runlim_cycles p)"

text \<open>The diagnostics the spec's argument rule asks for, for one pragma text at a line.\<close>

definition pragma_diags :: "string \<times> line \<Rightarrow> diag list" where
  "pragma_diags x = (case x of (p, l) \<Rightarrow>
     if py_contains p ''xflags'' then [PragmaError p ''Pragma xflags forbidden'' l]
     else if py_contains p ''runLim'' \<and> runlim_cycles p \<noteq> Inr 0
     then [PragmaError p ''Execution cycle not 0'' l] else [])"

subsection \<open>Lemmas\<close>

lemma report_of_foldl_add_error_if:
  "report_of (foldl (\<lambda>r x. if P x then add_error r f (E x) else r) rep xs) g =
   report_of rep g @ (if g = f then map E (filter P xs) else [])"
  by (induction xs arbitrary: rep) auto

lemma report_of_foldl_add_error_map:
  "report_of (foldl (\<lambda>r x. add_error r f (E x)) rep xs) g =
   report_of rep g @ (if g = f then map E xs else [])"
  by (induction xs arbitrary: rep) auto

lemma pragma_arg_loop_ok:
  "\<forall>x\<in>set d. \<not> bad_runlim (fst x) \<Longrightarrow>
   pragma_arg_loop f rep d = Inr (add_errors rep f (concat (map pragma_diags d)))"
proof (induction d arbitrary: rep)
  case (Cons x d)
  obtain p l where x: "x = (p, l)" by fastforce
  have ok: "\<not> bad_runlim p" using Cons.prems x by simp
  show ?case
  proof (cases "py_contains p ''xflags'' \<or> \<not> py_contains p ''runLim''")
    case True
    then show ?thesis using Cons x
      by (auto simp: pragma_arg_step_def pragma_diags_def add_errors_def)
  next
    case False
    with ok obtain n where "runlim_cycles p = Inr n"
      by (cases "runlim_cycles p") (auto simp: bad_runlim_def)
    then show ?thesis using Cons x False
      by (auto simp: pragma_arg_step_def pragma_diags_def add_errors_def)
  qed
qed simp

lemma pragma_arg_loop_raises:
  "\<exists>x\<in>set d. bad_runlim (fst x) \<Longrightarrow> isl (pragma_arg_loop f rep d)"
proof (induction d arbitrary: rep)
  case (Cons x d)
  obtain p l where x: "x = (p, l)" by fastforce
  show ?case
  proof (cases "bad_runlim p")
    case True
    then obtain e where "runlim_cycles p = Inl e"
      by (cases "runlim_cycles p") (auto simp: bad_runlim_def)
    with True x show ?thesis by (simp add: pragma_arg_step_def bad_runlim_def)
  next
    case False
    then have "pragma_arg_step f rep x = Inr (add_errors rep f (pragma_diags x))"
      using pragma_arg_loop_ok [of "[x]" f rep] x by (simp split: sum.splits)
    with False Cons x show ?thesis by simp
  qed
qed simp

lemma distinct_pragma_diags:
  "distinct (map fst d) \<Longrightarrow> distinct (concat (map pragma_diags d))"
  by (rule distinct_concat_map_keys) (auto simp: pragma_diags_def split: prod.splits if_splits)

lemma check_pragmas_ok:
  "fs \<le> size_cap \<Longrightarrow> \<forall>p\<in>fst ` set (pragma_entries toks). \<not> bad_runlim p \<Longrightarrow>
   check_pragmas fs toks rep f =
     Inr (add_errors rep f (concat (map pragma_diags (dict_of (pragma_entries toks)))),
          pragma_order_flag (dict_of (include_directives toks)) (dict_of (pragma_entries toks)))"
proof -
  assume "fs \<le> size_cap" and ok: "\<forall>p\<in>fst ` set (pragma_entries toks). \<not> bad_runlim p"
  moreover from ok have "\<forall>x\<in>set (dict_of (pragma_entries toks)). \<not> bad_runlim (fst x)"
    using keys_dict_of [of "pragma_entries toks"] by force
  ultimately show ?thesis
    by (simp add: check_pragmas_def get_tokens_dicts Let_def pragma_arg_loop_ok)
qed

text \<open>With positive lines, the least and the greatest value of a dict are positive.\<close>

lemma values_dict_of_pos:
  "kvs \<noteq> [] \<Longrightarrow> \<forall>x\<in>set kvs. 0 < snd x \<Longrightarrow>
   0 < Min (snd ` set (dict_of kvs)) \<and> 0 < Max (snd ` set (dict_of kvs))"
proof -
  assume ne: "kvs \<noteq> []" and pos: "\<forall>x\<in>set kvs. 0 < snd x"
  have "snd ` set (dict_of kvs) \<subseteq> snd ` set kvs"
  proof
    fix v assume "v \<in> snd ` set (dict_of kvs)"
    then obtain k where k: "k \<in> fst ` set kvs" "v = last_value kvs k" by (auto simp: values_dict_of)
    then show "v \<in> snd ` set kvs" using last_value_in [OF k(1)] by force
  qed
  then have allpos: "\<forall>v\<in>snd ` set (dict_of kvs). 0 < v" using pos by fastforce
  moreover have ne': "snd ` set (dict_of kvs) \<noteq> {}" using ne by simp
  ultimately have "0 < Min (snd ` set (dict_of kvs))" by (simp add: Min_gr_iff)
  moreover have "Max (snd ` set (dict_of kvs)) \<in> snd ` set (dict_of kvs)"
    using ne' by (intro Max_in) simp_all
  with allpos have "0 < Max (snd ` set (dict_of kvs))" by blast
  ultimately show ?thesis by simp
qed

lemma foldl_dup_groups:
  "distinct ds \<Longrightarrow>
   foldl (\<lambda>r d. if x \<in> set (filter (\<lambda>p. d = g p) xs) then X d r else r) rep ds =
   (if g x \<in> set ds \<and> x \<in> set xs then X (g x) rep else rep)"
  by (induction ds arbitrary: rep) auto

lemma singleton_if_short: "length ys \<le> 1 \<Longrightarrow> y \<in> set ys \<Longrightarrow> ys = [y]"
  by (cases ys) (auto simp: le_Suc_eq)

lemma check_duplicates_eq:
  "check_duplicates os f files rep =
   (if os_basename os f \<in> set (counter_dups (map (os_basename os) files)) \<and> f \<in> set files
    then foldl (\<lambda>r p. if p \<noteq> f then add_error r f (DuplicateFileError ''Same filename'' p) else r) rep
           (filter (\<lambda>p. os_basename os f = os_basename os p) files)
    else rep)"
  unfolding check_duplicates_def Let_def by (subst foldl_dup_groups) simp_all

lemma check_pragmas_bad:
  "fs \<le> size_cap \<Longrightarrow> \<exists>p\<in>fst ` set (pragma_entries toks). bad_runlim p \<Longrightarrow>
   isl (check_pragmas fs toks rep f)"
proof -
  assume cap: "fs \<le> size_cap" and "\<exists>p\<in>fst ` set (pragma_entries toks). bad_runlim p"
  then have "\<exists>x\<in>set (dict_of (pragma_entries toks)). bad_runlim (fst x)"
    using keys_dict_of [of "pragma_entries toks"] by force
  then have "isl (pragma_arg_loop f rep (dict_of (pragma_entries toks)))"
    by (rule pragma_arg_loop_raises)
  with cap show ?thesis
    by (auto simp: check_pragmas_def get_tokens_dicts Let_def split: sum.splits)
qed

lemma check_pragmas_good:
  "\<forall>p\<in>fst ` set (pragma_entries toks). \<not> bad_runlim p \<Longrightarrow>
   check_pragmas fs toks rep f \<noteq> Inl e"
proof (cases "fs \<le> size_cap")
  case True
  assume "\<forall>p\<in>fst ` set (pragma_entries toks). \<not> bad_runlim p"
  from check_pragmas_ok [OF True this] show ?thesis by simp
qed (simp add: check_pragmas_def)

text \<open>Every check only appends to the report.\<close>

lemma check_string_init_grows: "report_grows rep (check_string_init fs toks rep f)"
  unfolding check_string_init_def by (auto intro: report_grows_foldl)

lemma check_sys_calls_grows: "report_grows rep (check_sys_calls fs toks rep f)"
  unfolding check_sys_calls_def by (auto intro: report_grows_foldl)

lemma check_duplicates_grows: "report_grows rep (check_duplicates os f files rep)"
  unfolding check_duplicates_def Let_def by (auto intro!: report_grows_foldl)

lemma pragma_arg_loop_grows: "pragma_arg_loop f rep d = Inr r \<Longrightarrow> report_grows rep r"
proof (induction d arbitrary: rep)
  case (Cons x d)
  then obtain r1 where r1: "pragma_arg_step f rep x = Inr r1" and rest: "pragma_arg_loop f r1 d = Inr r"
    by (auto split: sum.splits)
  from rest have "report_grows r1 r" by (rule Cons.IH)
  moreover have "report_grows rep r1"
    using r1 by (auto simp: pragma_arg_step_def split: prod.splits if_splits sum.splits)
  ultimately show ?case by (rule report_grows_trans [rotated])
qed simp

lemma check_pragmas_grows: "check_pragmas fs toks rep f = Inr (r, flag) \<Longrightarrow> report_grows rep r"
  by (auto simp: check_pragmas_def Let_def split: if_splits sum.splits dest: pragma_arg_loop_grows)

text \<open>The string-initialisation check, exactly.\<close>

lemma check_string_init_eq:
  "check_string_init fs toks rep f =
   (if fs \<le> size_cap \<and> ''null'' \<in> fst ` set (string_inits toks)
    then add_error rep f (null_init_error (last_value (string_inits toks) ''null''))
    else rep)"
  by (simp add: check_string_init_def get_tokens_dicts foldl_dict_key distinct_dict_of
      map_of_dict_of_last_value)

subsection \<open>Theorems\<close>

text \<open>
  Claim C14. A file's null string initialisations give one diagnostic in all: the
  string-initialisation table is keyed by the initialising token, so however many
  variables are initialised to \<open>null\<close>, the file gets a single "Bad string
  initialization" diagnostic, at the line of the last of them (and none when the file is
  over the size cap).
\<close>

theorem check_string_init_single_null:
  "check_string_init fs toks rep f =
   (if fs \<le> size_cap \<and> ''null'' \<in> fst ` set (string_inits toks)
    then add_error rep f (null_init_error (last_value (string_inits toks) ''null''))
    else rep)"
  by (rule check_string_init_eq)

text \<open>
  Claim C15. A file under the size cap gets exactly one "System Call" diagnostic per
  distinct system-call text, at the line of its last occurrence, and nothing else.
\<close>

theorem check_sys_calls_spec:
  "fs \<le> size_cap \<Longrightarrow>
   \<exists>es. check_sys_calls fs toks rep f = add_errors rep f es \<and> distinct es \<and>
        set es = (\<lambda>c. FunctionError c ''System Call'' (last_value (sys_call_entries toks) c))
                   ` fst ` set (sys_call_entries toks)"
proof -
  assume cap: "fs \<le> size_cap"
  let ?d = "dict_of (sys_call_entries toks)"
  let ?es = "map (\<lambda>(c, l). FunctionError c ''System Call'' l) ?d"
  have "check_sys_calls fs toks rep f = add_errors rep f ?es"
    using cap by (simp add: check_sys_calls_def get_tokens_dicts foldl_add_error_pairs)
  moreover have "distinct ?es"
    using distinct_dict_of [of "sys_call_entries toks"]
    by (auto simp: distinct_map inj_on_def)
  moreover have "set ?es = (\<lambda>c. FunctionError c ''System Call'' (last_value (sys_call_entries toks) c))
                   ` fst ` set (sys_call_entries toks)"
    by (simp add: set_dict_of image_image)
  ultimately show ?thesis by blast
qed

theorem check_sys_calls_spec_witness:
  "\<exists>es. check_sys_calls 100 [mk_tok ''SYS_CALL'' ''system \"a\"'' 2, mk_tok ''SYS_CALL'' ''system \"a\"'' 7]
          [] ''f.dxl'' = add_errors [] ''f.dxl'' es \<and> distinct es \<and>
        set es = {FunctionError ''system \"a\"'' ''System Call'' 7}"
  using check_sys_calls_spec [of 100 "[mk_tok ''SYS_CALL'' ''system \"a\"'' 2, mk_tok ''SYS_CALL'' ''system \"a\"'' 7]"
      "[]" "''f.dxl''"]
  by (simp add: size_cap_def sys_call_entries_def is_sys_call_tok_def last_value_def)

text \<open>
  Claim C7. Pragma checking raises, and the whole run stops, exactly when the file is
  under the size cap and some \<open>runLim\<close> pragma without \<open>xflags\<close> has no
  integer after its first comma (\<open>pragma runLim\<close> alone, which the lexer accepts,
  raises IndexError).
\<close>

theorem check_pragmas_raises:
  "isl (check_pragmas fs toks rep f) \<longleftrightarrow>
   fs \<le> size_cap \<and> (\<exists>p\<in>fst ` set (pragma_entries toks). bad_runlim p)"
proof (cases "fs \<le> size_cap \<and> (\<exists>p\<in>fst ` set (pragma_entries toks). bad_runlim p)")
  case True
  then show ?thesis using check_pragmas_bad [of fs toks rep f] by simp
next
  case False
  show ?thesis
  proof (cases "fs \<le> size_cap")
    case True
    with False have "check_pragmas fs toks rep f \<noteq> Inl e" for e
      using check_pragmas_good [of toks fs rep f] by auto
    then show ?thesis using False by (cases "check_pragmas fs toks rep f") auto
  qed (simp add: check_pragmas_def)
qed

theorem check_pragmas_raises_witness:
  "isl (check_pragmas 100 [mk_tok ''PRAGMA'' ''pragma runLim'' 1] [] ''f.dxl'')"
  using check_pragmas_raises [of 100 "[mk_tok ''PRAGMA'' ''pragma runLim'' 1]" "[]" "''f.dxl''"]
  by (simp add: size_cap_def pragma_entries_def bad_runlim_def runlim_cycles_def py_split_def)

text \<open>
  Claim C9. When no pragma argument check raises, a file under the size cap gets, for
  each distinct pragma text, the diagnostics of the argument rule at the line of its last
  occurrence: "Pragma xflags forbidden" for an \<open>xflags\<close> pragma, "Execution cycle
  not 0" for a \<open>runLim\<close> pragma with a non-zero argument; nothing else, each once. In
  particular no diagnostic reports a missing or misplaced pragma.
\<close>

theorem check_pragmas_diagnostics:
  "fs \<le> size_cap \<Longrightarrow> \<forall>p\<in>fst ` set (pragma_entries toks). \<not> bad_runlim p \<Longrightarrow>
   \<exists>es flag. check_pragmas fs toks rep f = Inr (add_errors rep f es, flag) \<and> distinct es \<and>
     set es = (\<Union>p\<in>fst ` set (pragma_entries toks). set (pragma_diags (p, last_value (pragma_entries toks) p)))"
proof -
  assume cap: "fs \<le> size_cap" and ok: "\<forall>p\<in>fst ` set (pragma_entries toks). \<not> bad_runlim p"
  let ?es = "concat (map pragma_diags (dict_of (pragma_entries toks)))"
  have "distinct ?es" by (rule distinct_pragma_diags) (rule distinct_dict_of)
  moreover have "set ?es = (\<Union>p\<in>fst ` set (pragma_entries toks).
                   set (pragma_diags (p, last_value (pragma_entries toks) p)))"
    by (simp add: set_dict_of image_image)
  ultimately show ?thesis using check_pragmas_ok [OF cap ok, of rep f] by blast
qed

theorem check_pragmas_diagnostics_witness:
  "\<exists>es flag. check_pragmas 100 [mk_tok ''PRAGMA'' ''pragma xflags, 1'' 1, mk_tok ''PRAGMA'' ''pragma runLim, 5'' 2]
       [] ''f.dxl'' = Inr (add_errors [] ''f.dxl'' es, flag) \<and> distinct es \<and>
     set es = {PragmaError ''pragma xflags, 1'' ''Pragma xflags forbidden'' 1,
               PragmaError ''pragma runLim, 5'' ''Execution cycle not 0'' 2}"
  using check_pragmas_diagnostics [of 100 "[mk_tok ''PRAGMA'' ''pragma xflags, 1'' 1, mk_tok ''PRAGMA'' ''pragma runLim, 5'' 2]"
      "[]" "''f.dxl''"]
  by (simp add: size_cap_def pragma_entries_def bad_runlim_def runlim_cycles_def py_split_def
      pragma_diags_def last_value_def py_int_def py_int_unsigned_def py_whitespace_def
      py_is_digit_def digits_value_def insert_commute)

text \<open>
  Claim C21. When no pragma argument check raises, the \<open>__is_error_pragma\<close> flag of
  a file under the size cap (token lines start at 1) is set exactly when the file has an
  include and either no pragma or a pragma after the earliest include, where an include
  target's line is the line of its last occurrence, and a pragma text's line the line of
  its last occurrence.
\<close>

theorem check_pragmas_order_flag:
  "\<forall>t\<in>set toks. 0 < tok_lineno t \<Longrightarrow> fs \<le> size_cap \<Longrightarrow>
   \<forall>p\<in>fst ` set (pragma_entries toks). \<not> bad_runlim p \<Longrightarrow>
   \<exists>r. check_pragmas fs toks rep f =
     Inr (r, include_directives toks \<noteq> [] \<and>
             (pragma_entries toks = [] \<or>
              Min (last_value (include_directives toks) ` fst ` set (include_directives toks)) <
              Max (last_value (pragma_entries toks) ` fst ` set (pragma_entries toks))))"
proof -
  assume pos: "\<forall>t\<in>set toks. 0 < tok_lineno t" and cap: "fs \<le> size_cap"
    and ok: "\<forall>p\<in>fst ` set (pragma_entries toks). \<not> bad_runlim p"
  let ?I = "include_directives toks" and ?P = "pragma_entries toks"
  have posI: "\<forall>x\<in>set ?I. 0 < snd x" using pos by (auto simp: include_directives_from_def dest: with_prev_from_snd_in)
  have posP: "\<forall>x\<in>set ?P. 0 < snd x" using pos by (auto simp: pragma_entries_def)
  have "pragma_order_flag (dict_of ?I) (dict_of ?P) \<longleftrightarrow>
        ?I \<noteq> [] \<and> (?P = [] \<or> Min (last_value ?I ` fst ` set ?I) < Max (last_value ?P ` fst ` set ?P))"
  proof (cases "?I = []")
    case False
    have mI: "0 < Min (snd ` set (dict_of ?I))" using values_dict_of_pos [OF False posI] by simp
    show ?thesis
    proof (cases "?P = []")
      case False
      have "0 < Max (snd ` set (dict_of ?P))" using values_dict_of_pos [OF False posP] by simp
      with mI False \<open>?I \<noteq> []\<close> show ?thesis
        by (simp add: pragma_order_flag_def values_dict_of)
    qed (use mI False in \<open>simp add: pragma_order_flag_def\<close>)
  qed (simp add: pragma_order_flag_def)
  then show ?thesis using check_pragmas_ok [OF cap ok, of rep f] by simp
qed

theorem check_pragmas_order_flag_witness:
  "\<exists>r. check_pragmas 100
      [mk_tok ''INCLUDE'' ''#include'' 1, mk_tok ''SCONST'' ''\"a.inc\"'' 1,
       mk_tok ''PRAGMA'' ''pragma runLim, 0'' 5,
       mk_tok ''INCLUDE'' ''#include'' 10, mk_tok ''SCONST'' ''\"a.inc\"'' 10] [] ''f.dxl'' = Inr (r, False)"
  using check_pragmas_order_flag [of "[mk_tok ''INCLUDE'' ''#include'' 1, mk_tok ''SCONST'' ''\"a.inc\"'' 1,
       mk_tok ''PRAGMA'' ''pragma runLim, 0'' 5,
       mk_tok ''INCLUDE'' ''#include'' 10, mk_tok ''SCONST'' ''\"a.inc\"'' 10]" 100 "[]" "''f.dxl''"]
  by (simp add: size_cap_def pragma_entries_def bad_runlim_def include_directives_from_def
      last_value_def runlim_cycles_def py_split_def py_int_def py_int_unsigned_def py_whitespace_def
      py_is_digit_def digits_value_def)

text \<open>
  Claim C13. A listed file gets one "Same filename" diagnostic for every other listed
  path with the same basename, in list order, and a file that is not in the list gets
  none.
\<close>

theorem check_duplicates_spec:
  "report_of (check_duplicates os f files rep) g =
   report_of rep g @
   (if g = f \<and> f \<in> set files
    then map (DuplicateFileError ''Same filename'')
           (filter (\<lambda>p. os_basename os p = os_basename os f \<and> p \<noteq> f) files)
    else [])"
proof (cases "f \<in> set files")
  case True
  let ?same = "filter (\<lambda>p. os_basename os f = os_basename os p) files"
  have others: "filter (\<lambda>p. os_basename os p = os_basename os f \<and> p \<noteq> f) files =
      filter (\<lambda>p. p \<noteq> f) ?same"
    by (simp add: filter_filter eq_commute conj_commute)
  show ?thesis
  proof (cases "os_basename os f \<in> set (counter_dups (map (os_basename os) files))")
    case True
    with \<open>f \<in> set files\<close> show ?thesis
      by (simp add: check_duplicates_eq report_of_foldl_add_error_if others)
  next
    case False
    then have "length ?same \<le> 1"
      by (simp add: set_counter_dups count_list_map eq_commute)
    moreover have "f \<in> set ?same" using \<open>f \<in> set files\<close> by simp
    ultimately have "?same = [f]" by (rule singleton_if_short)
    with False show ?thesis by (simp add: check_duplicates_eq others)
  qed
qed (simp add: check_duplicates_eq)

end
