(* ===== verification/Functions.thy ===== *)
theory Functions
  imports Includes
begin

text \<open>
  Function declarations and calls across the batch.
  \<open>Lexer.get_func_declarations\<close> (\<open>src/dxl_lexer.py\<close>, lines 330--364) makes a
  second pass over a file's tokens. Each token whose text (for a \<open>FUNCTION\<close>
  token after a type keyword, its text before the first parenthesis) is one of the
  declared names gets its line recorded under that name. The declared names come
  from the regular expression \<open>func_re\<close> on the raw text; here they are the
  parameter \<open>func_names\<close>. The \<open>StartDoors\<close> methods
  \<open>__get_defined_functions\<close> (711--721) and \<open>__get_called_functions\<close> (724--736)
  accumulate, over the files of the batch, the files that declare each name and the
  names called anywhere. \<open>__get_not_called_functions\<close> (739--775) and
  \<open>__write_list_functions\<close> (996--1035) then select the entries they write out.
\<close>

subsection \<open>Declarations in one file\<close>

text \<open>Lines 351--352: the text a token is looked up under.\<close>

definition func_decl_value :: "bool \<Rightarrow> lex_token \<Rightarrow> string" where
  "func_decl_value previous_token_is_keyword tok =
     (if tok_type tok = ''FUNCTION'' \<and> previous_token_is_keyword then callee (tok_value tok)
      else tok_value tok)"

text \<open>Lines 345--362: one iteration of the token loop.\<close>

definition func_decl_step ::
  "string list \<Rightarrow> (string, line list) pydict \<times> bool \<Rightarrow> lex_token \<Rightarrow> (string, line list) pydict \<times> bool" where
  "func_decl_step func_names st tok =
     (let (func_name_dict, previous_token_is_keyword) = st;
          v = func_decl_value previous_token_is_keyword tok;
          d = (if v \<in> set func_names then dict_append func_name_dict v (tok_lineno tok) else func_name_dict)
      in (d, tok_type tok \<in> set decl_keywords))"

text \<open>Lines 330--364, for the names \<open>func_re\<close> found in the file.\<close>

definition get_func_declarations :: "string list \<Rightarrow> lex_token list \<Rightarrow> (string, line list) pydict" where
  "get_func_declarations func_names toks = fst (foldl (func_decl_step func_names) ([], False) toks)"

text \<open>\<open>StartDoors.__get_func_declarations\<close> (688--709): nothing for an oversize file.\<close>

definition get_func_declarations_file ::
  "nat \<Rightarrow> string list \<Rightarrow> lex_token list \<Rightarrow> (string, line list) pydict" where
  "get_func_declarations_file fs func_names toks =
     (if size_cap < fs then [] else get_func_declarations func_names toks)"

subsection \<open>Defined and called functions across files\<close>

record fn_state =
  fn_defined_functions_dict :: "(string, path list) pydict"   \<comment> \<open>\<open>__defined_functions_dict\<close>\<close>
  fn_called_functions :: "string list"                        \<comment> \<open>\<open>__called_functions\<close>\<close>
  fn_count_functions :: nat                                   \<comment> \<open>\<open>__count_functions\<close>\<close>

definition fn_init :: fn_state where
  "fn_init = \<lparr>fn_defined_functions_dict = [], fn_called_functions = [], fn_count_functions = 0\<rparr>"

text \<open>Lines 711--721: every declared name of the file gets the file appended.\<close>

definition get_defined_functions ::
  "fn_state \<Rightarrow> path \<Rightarrow> (string, line list) pydict \<Rightarrow> fn_state" where
  "get_defined_functions st dxl_file func_declarations_dict =
     (if func_declarations_dict \<noteq> []
      then foldl (\<lambda>st function_def.
                    st\<lparr>fn_count_functions := fn_count_functions st + 1,
                       fn_defined_functions_dict :=
                         dict_append (fn_defined_functions_dict st) function_def dxl_file\<rparr>)
             st (map fst func_declarations_dict)
      else st)"

text \<open>Lines 724--736: the classifier's called functions of the file are appended.\<close>

definition get_called_functions :: "fn_state \<Rightarrow> lex_token list \<Rightarrow> fn_state" where
  "get_called_functions st toks =
     st\<lparr>fn_called_functions := fn_called_functions st @ func_called (get_tokens toks)\<rparr>"

text \<open>Lines 753--764: the entries the not-called report writes.\<close>

definition not_called_entries :: "fn_state \<Rightarrow> (string \<times> path list) list" where
  "not_called_entries st =
     [(defined_func, dxl_file_list) \<leftarrow> fn_defined_functions_dict st.
        defined_func \<notin> set (fn_called_functions st)]"

text \<open>Lines 1015--1023: the entries of the redefinition report (\<open>report=True\<close>).\<close>

definition redefined_entries :: "fn_state \<Rightarrow> (string \<times> path list) list" where
  "redefined_entries st = [(k, v) \<leftarrow> fn_defined_functions_dict st. 1 < length v]"

text \<open>
  The function part of one iteration of \<open>__check_files\<close> (lines 1610--1613) for a
  file under the size cap: its declarations, then its defined and called functions.
\<close>

definition function_pass ::
  "fn_state \<Rightarrow> path \<times> string list \<times> lex_token list \<Rightarrow> fn_state" where
  "function_pass st file =
     (case file of (dxl_file, func_names, toks) \<Rightarrow>
        let func_declarations_dict = get_func_declarations func_names toks;
            st1 = get_defined_functions st dxl_file func_declarations_dict
        in get_called_functions st1 toks)"

subsection \<open>Specification vocabulary\<close>

text \<open>Each token with its lookup text, when that text is a declared name.\<close>

definition decl_occurrences_from ::
  "string list \<Rightarrow> lex_token option \<Rightarrow> lex_token list \<Rightarrow> (string \<times> line) list" where
  "decl_occurrences_from func_names q toks =
     [(func_decl_value (prev_type_in (set decl_keywords) p) t, tok_lineno t). (p, t) \<leftarrow> with_prev_from q toks,
        func_decl_value (prev_type_in (set decl_keywords) p) t \<in> set func_names]"

abbreviation decl_occurrences :: "string list \<Rightarrow> lex_token list \<Rightarrow> (string \<times> line) list" where
  "decl_occurrences func_names toks \<equiv> decl_occurrences_from func_names None toks"

text \<open>The files of a batch (path, declared names, tokens) that declare a name.\<close>

definition declaring_files :: "(path \<times> string list \<times> lex_token list) list \<Rightarrow> string \<Rightarrow> path list" where
  "declaring_files files n =
     [f. (f, func_names, toks) \<leftarrow> files, n \<in> fst ` set (decl_occurrences func_names toks)]"

subsection \<open>Lemmas\<close>

lemma decl_occurrences_from_simps [simp]:
  "decl_occurrences_from names q [] = []"
  "decl_occurrences_from names q (t # ts) =
     (if func_decl_value (prev_type_in (set decl_keywords) q) t \<in> set names
      then [(func_decl_value (prev_type_in (set decl_keywords) q) t, tok_lineno t)] else []) @
     decl_occurrences_from names (Some t) ts"
  by (simp_all add: decl_occurrences_from_def)

lemma func_decl_step_apply:
  "func_decl_step names (d, prev) tok =
     (if func_decl_value prev tok \<in> set names
      then dict_append d (func_decl_value prev tok) (tok_lineno tok) else d,
      tok_type tok \<in> set decl_keywords)"
  by (simp add: func_decl_step_def)

lemma foldl_func_decl_step:
  "prev \<longleftrightarrow> prev_type_in (set decl_keywords) q \<Longrightarrow>
   fst (foldl (func_decl_step names) (d, prev) toks) =
   foldl (\<lambda>d (k, x). dict_append d k x) d (decl_occurrences_from names q toks)"
proof (induction toks arbitrary: d prev q)
  case (Cons t ts)
  have "tok_type t \<in> set decl_keywords \<longleftrightarrow> prev_type_in (set decl_keywords) (Some t)" by simp
  from Cons.IH [OF this] Cons.prems show ?case
    by (simp add: func_decl_step_apply del: keyword_sets)
qed simp

lemma get_func_declarations_alt:
  "get_func_declarations names toks = foldl (\<lambda>d (k, x). dict_append d k x) [] (decl_occurrences names toks)"
  unfolding get_func_declarations_def by (rule foldl_func_decl_step) simp

lemma keys_foldl_dict_append:
  "fst ` set (foldl (\<lambda>d (k, x). dict_append d k x) d kxs) = fst ` set d \<union> fst ` set kxs"
proof (induction kxs arbitrary: d)
  case (Cons kx kxs)
  obtain k x where kx: "kx = (k, x)" by fastforce
  have "fst ` set (foldl (\<lambda>d (k, x). dict_append d k x) (dict_append d k x) kxs) =
        fst ` set (dict_append d k x) \<union> fst ` set kxs" by (rule Cons.IH)
  then show ?case by (simp add: kx)
qed simp

lemma distinct_foldl_dict_append:
  "distinct (map fst d) \<Longrightarrow> distinct (map fst (foldl (\<lambda>d (k, x). dict_append d k x) d kxs))"
  by (induction kxs arbitrary: d) auto

lemma get_defined_functions_simps:
  "distinct (map fst decls) \<Longrightarrow>
   dict_get (fn_defined_functions_dict (get_defined_functions st f decls)) n =
     dict_get (fn_defined_functions_dict st) n @ (if n \<in> fst ` set decls then [f] else [])"
  "fn_count_functions (get_defined_functions st f decls) = fn_count_functions st + length decls"
  "fn_called_functions (get_defined_functions st f decls) = fn_called_functions st"
proof -
  let ?body = "\<lambda>st function_def. st\<lparr>fn_count_functions := fn_count_functions st + 1,
     fn_defined_functions_dict := dict_append (fn_defined_functions_dict st) function_def f\<rparr>"
  have dict: "distinct ks \<Longrightarrow> dict_get (fn_defined_functions_dict (foldl ?body st ks)) n =
    dict_get (fn_defined_functions_dict st) n @ (if n \<in> set ks then [f] else [])" for ks st
    by (induction ks arbitrary: st) auto
  have other: "fn_count_functions (foldl ?body st ks) = fn_count_functions st + length ks \<and>
    fn_called_functions (foldl ?body st ks) = fn_called_functions st" for ks st
    by (induction ks arbitrary: st) auto
  show "distinct (map fst decls) \<Longrightarrow>
   dict_get (fn_defined_functions_dict (get_defined_functions st f decls)) n =
     dict_get (fn_defined_functions_dict st) n @ (if n \<in> fst ` set decls then [f] else [])"
    using dict [of "map fst decls" st] by (simp add: get_defined_functions_def)
  show "fn_count_functions (get_defined_functions st f decls) = fn_count_functions st + length decls"
    using other [of st "map fst decls"] by (simp add: get_defined_functions_def)
  show "fn_called_functions (get_defined_functions st f decls) = fn_called_functions st"
    using other [of st "map fst decls"] by (simp add: get_defined_functions_def)
qed

lemma get_func_declarations_keys:
  "fst ` set (get_func_declarations names toks) = fst ` set (decl_occurrences names toks)"
  "distinct (map fst (get_func_declarations names toks))"
  by (simp_all add: get_func_declarations_alt keys_foldl_dict_append distinct_foldl_dict_append)

lemma length_get_func_declarations:
  "length (get_func_declarations names toks) = card (fst ` set (decl_occurrences names toks))"
  using get_func_declarations_keys [of names toks]
  by (metis distinct_card length_map set_map)

text \<open>A dict of lists filled only by \<open>dict_append\<close> holds no empty list.\<close>

definition nonempty_values :: "('k, 'v list) pydict \<Rightarrow> bool" where
  "nonempty_values d \<longleftrightarrow> (\<forall>x\<in>set d. snd x \<noteq> [])"

lemma set_update_subset: "set (AList.update k v d) \<subseteq> insert (k, v) (set d)"
  by (induction d) auto

lemma nonempty_values_append [simp]:
  "nonempty_values d \<Longrightarrow> nonempty_values (dict_append d k x)"
  using set_update_subset [of k _ d]
  by (fastforce simp: nonempty_values_def dict_append_def split: option.splits)

lemma map_of_nonempty_values:
  "distinct (map fst d) \<Longrightarrow> nonempty_values d \<Longrightarrow>
   map_of d n = (if dict_get d n \<noteq> [] then Some (dict_get d n) else None)"
  by (auto simp: nonempty_values_def dict_get_def split: option.splits dest: map_of_SomeD)

lemma map_of_filter_key:
  "map_of (filter (\<lambda>(k, v). P k) d) n = (if P n then map_of d n else None)"
  by (induction d) auto

lemma map_of_filter_value:
  "distinct (map fst d) \<Longrightarrow>
   map_of (filter (\<lambda>(k, v). Q v) d) n = (case map_of d n of Some v \<Rightarrow> if Q v then Some v else None | None \<Rightarrow> None)"
  by (induction d) (auto split: option.splits simp: map_of_eq_None_iff)

lemma function_pass_fold:
  "distinct (map fst (fn_defined_functions_dict st)) \<and> nonempty_values (fn_defined_functions_dict st) \<Longrightarrow>
   let st' = foldl function_pass st files in
   (\<forall>n. dict_get (fn_defined_functions_dict st') n =
        dict_get (fn_defined_functions_dict st) n @ declaring_files files n) \<and>
   fn_called_functions st' = fn_called_functions st @ concat [called_functions toks. (f, names, toks) \<leftarrow> files] \<and>
   fn_count_functions st' = fn_count_functions st +
     sum_list [card (fst ` set (decl_occurrences names toks)). (f, names, toks) \<leftarrow> files] \<and>
   distinct (map fst (fn_defined_functions_dict st')) \<and> nonempty_values (fn_defined_functions_dict st')"
proof (induction files arbitrary: st)
  case Nil
  then show ?case by (simp add: declaring_files_def)
next
  case (Cons fl files)
  obtain f names toks where fl: "fl = (f, names, toks)" by (cases fl) auto
  let ?decls = "get_func_declarations names toks"
  let ?body = "\<lambda>st function_def. st\<lparr>fn_count_functions := fn_count_functions st + 1,
     fn_defined_functions_dict := dict_append (fn_defined_functions_dict st) function_def f\<rparr>"
  have inv: "distinct (map fst (fn_defined_functions_dict (foldl ?body st ks))) \<and>
             nonempty_values (fn_defined_functions_dict (foldl ?body st ks))" for ks
    using Cons.prems by (induction ks arbitrary: st) auto
  let ?st1 = "function_pass st (f, names, toks)"
  have st1: "fn_defined_functions_dict ?st1 = fn_defined_functions_dict (get_defined_functions st f ?decls)"
            "fn_called_functions ?st1 = fn_called_functions st @ called_functions toks"
            "fn_count_functions ?st1 = fn_count_functions st + length ?decls"
    by (simp_all add: function_pass_def get_called_functions_def get_tokens_dicts
        get_defined_functions_simps)
  have inv1: "distinct (map fst (fn_defined_functions_dict ?st1)) \<and> nonempty_values (fn_defined_functions_dict ?st1)"
    using inv [of "map fst ?decls"] Cons.prems by (simp add: st1 get_defined_functions_def)
  have get1: "dict_get (fn_defined_functions_dict ?st1) n =
      dict_get (fn_defined_functions_dict st) n @ (if n \<in> fst ` set (decl_occurrences names toks) then [f] else [])" for n
    by (simp add: st1 get_defined_functions_simps get_func_declarations_keys)
  show ?case
    using Cons.IH [OF inv1] by (simp add: fl Let_def get1 st1(2,3) declaring_files_def length_get_func_declarations)
qed

subsection \<open>Theorems\<close>

text \<open>
  Claim C16. The declaration table of a file records, under each declared name, the
  lines of the tokens whose lookup text is that name, in token order. The lookup text is
  the text before the first parenthesis for a \<open>FUNCTION\<close> token after a type keyword
  (so \<open>void foo (int x)\<close> is looked up as \<open>"foo "\<close>, with the space), and the token
  text otherwise. Its keys are distinct and are exactly the names that occur. The lines
  are those of every occurrence, uses included, not only the declaration lines that
  the docstring (\<open>dxl_lexer.py\<close>, 330--331) promises. \<open>void foo\<close> at line 1 and a
  bare \<open>foo\<close> at line 7 give \<open>[1, 7]\<close>, and \<open>__dxl2html\<close> (line 1411) then stops
  linking the calls of \<open>foo\<close> to its declaration.
\<close>

theorem get_func_declarations_spec:
  "(\<forall>n. dict_get (get_func_declarations names toks) n = [l. (v, l) \<leftarrow> decl_occurrences names toks, v = n]) \<and>
   distinct (map fst (get_func_declarations names toks)) \<and>
   fst ` set (get_func_declarations names toks) = fst ` set (decl_occurrences names toks)"
  by (simp add: get_func_declarations_keys) (simp add: get_func_declarations_alt dict_get_foldl_append)

theorem get_func_declarations_spec_witness:
  "dict_get (get_func_declarations [''foo'']
     [mk_tok ''VOID'' ''void'' 1, mk_tok ''FUNCTION'' ''foo()'' 1, mk_tok ''ID'' ''foo'' 7]) ''foo'' = [1, 7]"
  using get_func_declarations_spec [of "[''foo'']" "[mk_tok ''VOID'' ''void'' 1, mk_tok ''FUNCTION'' ''foo()'' 1, mk_tok ''ID'' ''foo'' 7]"]
  by (simp add: func_decl_value_def prev_type_in_def decl_keywords_def callee_def py_split_head_def)

text \<open>
  Claim C11. Over a batch of files (path, declared names, tokens), the defined-functions
  table lists under each name the files that declare it, in batch order; the called
  functions are the classifier's called functions of all files, in order; and the
  function count is the number of distinct declared names summed over the files.
\<close>

theorem function_pass_batch:
  "let st = foldl function_pass fn_init files in
   (\<forall>n. dict_get (fn_defined_functions_dict st) n = declaring_files files n) \<and>
   fn_called_functions st = concat [called_functions toks. (f, names, toks) \<leftarrow> files] \<and>
   fn_count_functions st = sum_list [card (fst ` set (decl_occurrences names toks)). (f, names, toks) \<leftarrow> files]"
  using function_pass_fold [of fn_init files] by (simp add: fn_init_def nonempty_values_def Let_def)

text \<open>
  Claim C10. The not-called report of a batch has an entry for a name exactly when
  some fl declares it and no fl calls it (as the classifier reads calls), and the
  entry lists the declaring files.
\<close>

theorem not_called_entries_batch:
  "map_of (not_called_entries (foldl function_pass fn_init files)) n =
   (if declaring_files files n \<noteq> [] \<and> n \<notin> set (concat [called_functions toks. (f, names, toks) \<leftarrow> files])
    then Some (declaring_files files n) else None)"
proof -
  let ?st = "foldl function_pass fn_init files"
  have fold: "(\<forall>n. dict_get (fn_defined_functions_dict ?st) n = declaring_files files n) \<and>
     fn_called_functions ?st = concat [called_functions toks. (f, names, toks) \<leftarrow> files] \<and>
     distinct (map fst (fn_defined_functions_dict ?st)) \<and> nonempty_values (fn_defined_functions_dict ?st)"
    using function_pass_fold [of fn_init files] by (simp add: fn_init_def nonempty_values_def Let_def)
  then show ?thesis
    by (simp add: not_called_entries_def map_of_filter_key map_of_nonempty_values)
qed

theorem not_called_entries_batch_witness:
  "map_of (not_called_entries (foldl function_pass fn_init
     [(''a.dxl'', [''foo''], [mk_tok ''VOID'' ''void'' 1, mk_tok ''FUNCTION'' ''foo(int x)'' 1]),
      (''b.dxl'', [], [mk_tok ''FUNCTION'' ''foo (1)'' 3])])) ''foo'' = Some [''a.dxl'']"
  using not_called_entries_batch [of "[(''a.dxl'', [''foo''], [mk_tok ''VOID'' ''void'' 1, mk_tok ''FUNCTION'' ''foo(int x)'' 1]),
      (''b.dxl'', [], [mk_tok ''FUNCTION'' ''foo (1)'' 3])]" "''foo''"]
  by (simp add: declaring_files_def func_decl_value_def callee_def called_functions_from_def py_split_head_def)

text \<open>
  Claim C17. The redefinition report of a batch has an entry for a name exactly when
  two or more of the batch's fl entries declare it, and the entry lists them.
\<close>

theorem redefined_entries_batch:
  "map_of (redefined_entries (foldl function_pass fn_init files)) n =
   (if 1 < length (declaring_files files n) then Some (declaring_files files n) else None)"
proof -
  let ?st = "foldl function_pass fn_init files"
  have fold: "(\<forall>n. dict_get (fn_defined_functions_dict ?st) n = declaring_files files n) \<and>
     distinct (map fst (fn_defined_functions_dict ?st)) \<and> nonempty_values (fn_defined_functions_dict ?st)"
    using function_pass_fold [of fn_init files] by (simp add: fn_init_def nonempty_values_def Let_def)
  then show ?thesis
    by (simp add: redefined_entries_def map_of_filter_value map_of_nonempty_values)
qed

end
