(* ===== verification/SameContent.thy ===== *)
theory SameContent
  imports Report
begin

text \<open>
  \<open>StartDoors.__check_same_include_content\<close> (\<open>src/dxl-analyzer/dxl_scan.py\<close>, lines
  927--964), run once after all files are scanned. It reads the dict from paths to
  content hashes, groups the paths whose hash occurs more than once
  (\<open>hash_duplicate_dict\<close>), and for every group walks the list with a \<open>for\<close> loop
  while removing the current element from that same list
  (\<open>other_includes_list = v_include_list; other_includes_list.remove(include)\<close>).
  Python's list iterator is an index into the list, so the walk is the index-based
  function \<open>same_content_loop\<close>, whose termination measure is the distance between
  the index and the shrinking length. The HTML link text for the other paths
  (\<open>__get_hash\<close>, \<open>basename\<close>, \<open>normpath\<close>, \<open>str(...).strip(...)\<close>) is the parameter
  \<open>fmt\<close>, so every theorem holds for any rendering of the list of other paths.
\<close>

text \<open>Lines 948--964: \<open>for include in v_include_list\<close> with the removal; each step
  yields the path that gets the diagnostic and the list of other paths it names.\<close>

function same_content_loop :: "nat \<Rightarrow> path list \<Rightarrow> (path \<times> path list) list" where
  "same_content_loop i v_include_list =
     (if i < length v_include_list
      then let include = v_include_list ! i;
               other_includes_list = remove1 include v_include_list
           in (include, other_includes_list) # same_content_loop (Suc i) other_includes_list
      else [])"
  by pat_completeness auto
termination
  by (relation "measure (\<lambda>(i, xs). length xs - i)") (auto simp: length_remove1)

declare same_content_loop.simps [simp del]

text \<open>Lines 933--946: the paths of each hash that occurs more than once, in dict order.\<close>

definition hash_duplicate_dict :: "(path, string) pydict \<Rightarrow> (string, path list) pydict" where
  "hash_duplicate_dict hash_content_dict =
     (let hash_content_list = map snd hash_content_dict;
          same_include_hash_list = counter_dups hash_content_list
      in foldl (\<lambda>d (k, v). foldl (\<lambda>d same_include_hash.
                  if v = same_include_hash then dict_append d v k else d) d same_include_hash_list)
           [] hash_content_dict)"

text \<open>Lines 927--964: a diagnostic for each step of the walk of each group.\<close>

definition check_same_include_content ::
  "(path list \<Rightarrow> string) \<Rightarrow> (path, string) pydict \<Rightarrow> report \<Rightarrow> report" where
  "check_same_include_content fmt hash_content_dict rep =
     foldl (\<lambda>r (h, v_include_list).
              foldl (\<lambda>r (include, other_includes_list).
                       add_error r include (DuplicateFileError ''Identical content'' (fmt other_includes_list)))
                r (same_content_loop 0 v_include_list))
       rep (hash_duplicate_dict hash_content_dict)"

subsection \<open>Specification vocabulary\<close>

text \<open>What the walk yields, stated by positions: the files at even positions, each with
  the files after it and the odd-position files before it.\<close>

definition same_content_spec :: "path list \<Rightarrow> (path \<times> path list) list" where
  "same_content_spec ks =
     [(ks ! i, [ks ! m. m \<leftarrow> [0..<length ks], i < m \<or> odd m]). i \<leftarrow> [0..<length ks], even i]"

subsection \<open>Lemmas\<close>

lemma same_content_loop_gen:
  "distinct (os @ zs) \<Longrightarrow>
   same_content_loop (length os) (os @ zs) =
   [(zs ! i, os @ [zs ! m. m \<leftarrow> [0..<length zs], i < m \<or> odd m]). i \<leftarrow> [0..<length zs], even i]"
proof (induction zs arbitrary: os rule: induct_list012)
  case 1
  then show ?case by (subst same_content_loop.simps) simp
next
  case (2 z)
  then have "remove1 z (os @ [z]) = os" by (simp add: remove1_append)
  then show ?case
    by (subst same_content_loop.simps) (simp add: same_content_loop.simps [of "Suc (length os)"])
next
  case (3 z w r)
  have rm: "remove1 z (os @ z # w # r) = (os @ [w]) @ r" using "3.prems" by (simp add: remove1_append)
  have IH: "same_content_loop (Suc (length os)) ((os @ [w]) @ r) =
     [(r ! i, (os @ [w]) @ [r ! m. m \<leftarrow> [0..<length r], i < m \<or> odd m]). i \<leftarrow> [0..<length r], even i]"
    using "3.IH"(1) [of "os @ [w]"] "3.prems" by simp
  have A: "[0..<length (z # w # r)] = 0 # 1 # map (\<lambda>i. i + 2) [0..<length r]"
    using upt_0_Suc_Suc [of "length r"] by simp
  have "same_content_loop (length os) (os @ z # w # r) =
        (z, os @ w # r) # same_content_loop (Suc (length os)) ((os @ [w]) @ r)"
    by (subst same_content_loop.simps) (simp add: rm nth_append Let_def)
  also have "\<dots> = (z, os @ w # r) #
     [(r ! i, (os @ [w]) @ [r ! m. m \<leftarrow> [0..<length r], i < m \<or> odd m]). i \<leftarrow> [0..<length r], even i]"
    by (simp only: IH)
  also have "\<dots> = [((z # w # r) ! i, os @ [(z # w # r) ! m. m \<leftarrow> [0..<length (z # w # r)], i < m \<or> odd m]).
                i \<leftarrow> [0..<length (z # w # r)], even i]"
    by (simp only: A) (simp add: map_nth comp_def del: upt_Suc cong: if_cong)
  finally show ?case .
qed

lemma dict_get_foldl_append_if:
  "dict_get (foldl (\<lambda>d (k, v). if v \<in> S then dict_append d v k else d) d xs) h =
   dict_get d h @ (if h \<in> S then [k. (k, v) \<leftarrow> xs, v = h] else [])"
  by (induction xs arbitrary: d) auto

lemma distinct_foldl_append_if:
  "distinct (map fst d) \<Longrightarrow>
   distinct (map fst (foldl (\<lambda>d (k, v). if v \<in> S then dict_append d v k else d) d xs))"
  by (induction xs arbitrary: d) auto

lemma hash_duplicate_dict_alt:
  "hash_duplicate_dict hc =
   foldl (\<lambda>d (k, v). if v \<in> set (counter_dups (map snd hc)) then dict_append d v k else d) [] hc"
  by (simp add: hash_duplicate_dict_def foldl_if_eq_distinct)

lemma hash_duplicate_dict_get:
  "dict_get (hash_duplicate_dict hc) h =
   (if 1 < count_list (map snd hc) h then [k. (k, v) \<leftarrow> hc, v = h] else [])"
  by (simp only: hash_duplicate_dict_alt dict_get_foldl_append_if dict_get_Nil append_Nil)
    (simp add: set_counter_dups)

lemma distinct_hash_duplicate_dict: "distinct (map fst (hash_duplicate_dict hc))"
  by (simp add: hash_duplicate_dict_alt distinct_foldl_append_if)

lemma report_of_foldl_pairs:
  "report_of (foldl (\<lambda>r (i, ot). add_error r i (E ot)) rep ps) g = report_of rep g @ [E ot. (i, ot) \<leftarrow> ps, i = g]"
  by (induction ps arbitrary: rep) auto

lemma report_of_check_same_include_content:
  "report_of (check_same_include_content fmt hc rep) g = report_of rep g @
   concat (map (\<lambda>(h, ks). [DuplicateFileError ''Identical content'' (fmt ot). (i, ot) \<leftarrow> same_content_loop 0 ks, i = g])
     (hash_duplicate_dict hc))"
proof -
  have "report_of (foldl (\<lambda>r (h, ks). foldl (\<lambda>r (i, ot). add_error r i (DuplicateFileError ''Identical content'' (fmt ot)))
          r (same_content_loop 0 ks)) rep G) g = report_of rep g @
        concat (map (\<lambda>(h, ks). [DuplicateFileError ''Identical content'' (fmt ot). (i, ot) \<leftarrow> same_content_loop 0 ks, i = g]) G)"
    for G by (induction G arbitrary: rep) (auto simp: report_of_foldl_pairs)
  then show ?thesis by (simp add: check_same_include_content_def)
qed

lemma same_content_loop_spec: "distinct ks \<Longrightarrow> same_content_loop 0 ks = same_content_spec ks"
  using same_content_loop_gen [of "[]" ks] by (simp add: same_content_spec_def cong: if_cong)

lemma same_content_loop_fst: "x \<in> set (same_content_loop i xs) \<Longrightarrow> fst x \<in> set xs"
proof (induction i xs rule: same_content_loop.induct)
  case (1 i xs)
  show ?case
  proof (cases "i < length xs")
    case True
    with "1.prems" have "x = (xs ! i, remove1 (xs ! i) xs) \<or>
                         x \<in> set (same_content_loop (Suc i) (remove1 (xs ! i) xs))"
      by (subst (asm) same_content_loop.simps) (simp add: Let_def)
    then show ?thesis
      using "1.IH" [OF True refl refl] True by (metis fst_conv in_set_remove1D nth_mem)
  next
    case False
    with "1.prems" show ?thesis by (subst (asm) same_content_loop.simps) simp
  qed
qed

lemma same_content_spec_at:
  "distinct ks \<Longrightarrow> i < length ks \<Longrightarrow>
   [E ot. (x, ot) \<leftarrow> same_content_spec ks, x = ks ! i] =
   (if even i then [E [ks ! m. m \<leftarrow> [0..<length ks], i < m \<or> odd m]] else [])"
proof -
  assume d: "distinct ks" and i: "i < length ks"
  let ?O = "\<lambda>j. [ks ! m. m \<leftarrow> [0..<length ks], j < m \<or> odd m]"
  have spec: "same_content_spec ks = map (\<lambda>j. (ks ! j, ?O j)) (filter even [0..<length ks])"
    by (simp add: same_content_spec_def concat_map_if_singleton)
  have "[E ot. (x, ot) \<leftarrow> map (\<lambda>j. (ks ! j, ?O j)) js, x = ks ! i] =
        map (\<lambda>j. E (?O j)) (filter (\<lambda>j. ks ! j = ks ! i) js)" for js
    by (induction js) auto
  moreover have "filter (\<lambda>j. ks ! j = ks ! i) (filter even [0..<length ks]) =
                 filter (\<lambda>j. even j \<and> j = i) [0..<length ks]"
    by (auto simp: filter_filter nth_eq_iff_index_eq [OF d] i intro!: filter_cong)
  ultimately show ?thesis using filter_upt_eq [OF i, of even] by (simp add: spec)
qed

lemma same_hash_alt: "[k. (k, v) \<leftarrow> hc, v = h] = map fst (filter (\<lambda>x. snd x = h) hc)"
  by (induction hc) auto

lemma concat_map_no_key:
  "\<forall>x\<in>set L. fst x \<noteq> f \<Longrightarrow> concat (map (\<lambda>(x, ot). if x = f then E ot else []) L) = []"
  by (induction L) auto

subsection \<open>Theorems\<close>

text \<open>
  Claim C22. The walk over a group of distinct paths visits exactly the paths at even
  positions (0, 2, 4, ...): removing the current element shifts the next one under the
  index, so every second path is skipped.
\<close>

theorem same_content_loop_even_positions:
  "distinct ks \<Longrightarrow> map fst (same_content_loop 0 ks) = [ks ! i. i \<leftarrow> [0..<length ks], even i]"
  by (simp add: same_content_loop_spec same_content_spec_def concat_map_if_singleton)

theorem same_content_loop_even_positions_witness:
  "distinct [''a'', ''b'', ''c'', ''d''] \<and>
   map fst (same_content_loop 0 [''a'', ''b'', ''c'', ''d'']) = [''a'', ''c'']"
  using same_content_loop_even_positions [of "[''a'', ''b'', ''c'', ''d'']"] by (simp add: upt_rec)

text \<open>
  Claim C6. For content hashes keyed by distinct paths, the path at position \<open>i\<close>
  of a group of two or more paths with the same hash gets one "Identical content"
  diagnostic when \<open>i\<close> is even, naming the paths after it and the odd-position paths
  before it, and none when \<open>i\<close> is odd; every other file's report is untouched by
  this group.
\<close>

theorem check_same_include_content_at:
  "distinct (map fst hc) \<Longrightarrow> ks = [k. (k, v) \<leftarrow> hc, v = h] \<Longrightarrow> 1 < length ks \<Longrightarrow> i < length ks \<Longrightarrow>
   report_of (check_same_include_content fmt hc rep) (ks ! i) =
   report_of rep (ks ! i) @
   (if even i then [DuplicateFileError ''Identical content'' (fmt [ks ! m. m \<leftarrow> [0..<length ks], i < m \<or> odd m])]
    else [])"
proof -
  assume dk: "distinct (map fst hc)" and ks: "ks = [k. (k, v) \<leftarrow> hc, v = h]"
    and two: "1 < length ks" and i: "i < length ks"
  let ?f = "ks ! i" and ?G = "hash_duplicate_dict hc"
  let ?C = "\<lambda>ks'. [DuplicateFileError ''Identical content'' (fmt ot). (x, ot) \<leftarrow> same_content_loop 0 ks', x = ?f]"
  have ks': "ks = map fst (filter (\<lambda>x. snd x = h) hc)" using ks by (simp add: same_hash_alt)
  have dks: "distinct ks" using dk by (simp add: ks' distinct_map_filter)
  have cnt: "count_list (map snd hc) h = length ks" by (simp add: ks' count_list_map)
  have fh: "(?f, h) \<in> set hc" using i nth_mem [OF i] by (auto simp: ks')
  have other: "?C ks' = []" if "(h', ks') \<in> set ?G" "h' \<noteq> h" for h' ks'
  proof -
    have "map_of ?G h' = Some ks'"
      using that(1) distinct_hash_duplicate_dict by (rule map_of_is_SomeI [rotated])
    then have "ks' = dict_get ?G h'" by (simp add: dict_get_def)
    then have sub: "x \<in> set ks' \<Longrightarrow> (x, h') \<in> set hc" for x
      by (auto simp: hash_duplicate_dict_get same_hash_alt split: if_splits)
    have notf: "(?f, h') \<notin> set hc"
    proof
      assume "(?f, h') \<in> set hc"
      from eq_key_imp_eq_value [OF dk fh this] that(2) show False by simp
    qed
    have "\<forall>x\<in>set (same_content_loop 0 ks'). fst x \<noteq> ?f"
    proof
      fix x assume "x \<in> set (same_content_loop 0 ks')"
      then have "fst x \<in> set ks'" by (rule same_content_loop_fst)
      then show "fst x \<noteq> ?f" using sub notf by auto
    qed
    then show ?thesis by (rule concat_map_no_key)
  qed
  have nil: "?C [] = []" by (subst same_content_loop.simps) simp
  have "report_of (check_same_include_content fmt hc rep) ?f = report_of rep ?f @ ?C (dict_get ?G h)"
    using concat_map_dict_get [OF distinct_hash_duplicate_dict, where c = h and F = "\<lambda>h' ks'. ?C ks'"] other nil
    by (simp add: report_of_check_same_include_content)
  also have "dict_get ?G h = ks" using two cnt by (simp add: hash_duplicate_dict_get ks)
  also have "?C ks = [DuplicateFileError ''Identical content'' (fmt ot). (x, ot) \<leftarrow> same_content_spec ks, x = ?f]"
    by (simp add: same_content_loop_spec [OF dks])
  finally show ?thesis by (simp add: same_content_spec_at [OF dks i])
qed

theorem check_same_include_content_at_witness:
  "report_of (check_same_include_content (\<lambda>ps. concat ps)
     [(''a.inc'', ''h1''), (''b.inc'', ''h1''), (''c.inc'', ''h1'')] []) ''b.inc'' = []"
proof -
  have "report_of (check_same_include_content (\<lambda>ps. concat ps)
     [(''a.inc'', ''h1''), (''b.inc'', ''h1''), (''c.inc'', ''h1'')] []) ([''a.inc'', ''b.inc'', ''c.inc''] ! 1) =
     report_of [] ([''a.inc'', ''b.inc'', ''c.inc''] ! 1) @
     (if even (1::nat) then [DuplicateFileError ''Identical content'' ((\<lambda>ps. concat ps)
        [[''a.inc'', ''b.inc'', ''c.inc''] ! m. m \<leftarrow> [0..<length [''a.inc'', ''b.inc'', ''c.inc'']], 1 < m \<or> odd m])]
      else [])"
    by (rule check_same_include_content_at) simp_all
  then show ?thesis by simp
qed

end
