(* ===== verification/Batch.thy ===== *)
theory Batch
  imports Issues Functions SameContent
begin

text \<open>
  The batch driver \<open>StartDoors.__check_files\<close> (\<open>src/dxl-analyzer/dxl_scan.py\<close>,
  lines 1543--1668) with the state \<open>__new_vars\<close> sets up (1515--1542). For each listed
  file it counts the file. An oversize file only gets an \<open>OversizeFileError\<close>.
  Otherwise the file's report is reset and the per-file checks run in the code's order:
  includes, string initialisations, system calls, pragmas, duplicate names,
  declarations and calls. Then every valid include not checked before gets the
  string, system-call and pragma checks, with diagnostics filed under the include.
  After the loop the identical-content check runs on the content hashes. The
  environment \<open>batch_env\<close> holds what the code reads from disk: the file system and
  \<open>os.path\<close>, the search roots, each file's tokens and declared names, the content
  hashes, and the rendering of link lists. An exception of the pragma check ends the
  whole run, so the driver's result is \<open>py_exc + batch_state\<close>. After the loop,
  reading \<open>hash_content.txt\<close> (line 932) raises \<open>IOError\<close> when no include was ever
  hashed, and \<open>dxl_menu\<close> (1659--1666) is only bound for the three list files, so a
  scan-file run (line 1927) ends in \<open>UnboundLocalError\<close>. The run starts from the
  state it is given: \<open>__doit\<close> calls \<open>__new_vars\<close> before the projects run, not
  before the addins run (1960--1973). The HTML passes
  (\<open>__make_log_file\<close>, \<open>__dxl2html\<close>, \<open>__includes_dxl2html\<close>) write files and,
  except for the content hashes, change no state the checks read.
\<close>

record batch_env =
  be_os :: os_iface
  be_roots :: "path list"                      \<comment> \<open>\<open>__addin_dirs + __project_dirs\<close>\<close>
  be_tokens :: "path \<Rightarrow> lex_token list"       \<comment> \<open>the lexed content of a file\<close>
  be_func_names :: "path \<Rightarrow> string list"      \<comment> \<open>the names \<open>func_re\<close> finds in it\<close>
  be_hash_content :: "(path, string) pydict option"   \<comment> \<open>\<open>hash_content.txt\<close> after the loop, if written\<close>
  be_fmt :: "path list \<Rightarrow> string"             \<comment> \<open>link text of a list of paths\<close>

text \<open>The \<open>txt_filename\<close> argument: one of the three pickled file lists, or the list of
  files given with \<open>-s\<close> (line 1927).\<close>

datatype menu_list = ProjectsList | AddinsList | ExtraList | ScanFiles

record batch_state =
  bs_report :: report                                     \<comment> \<open>\<open>__report\<close>\<close>
  bs_valid_includes_dict :: "(path, path list) pydict"    \<comment> \<open>\<open>__valid_includes_dict\<close>\<close>
  bs_func_declarations_dict :: "(string, line list) pydict"  \<comment> \<open>\<open>__func_declarations_dict\<close>\<close>
  bs_fn :: fn_state            \<comment> \<open>\<open>__defined_functions_dict\<close>, \<open>__called_functions\<close>, \<open>__count_functions\<close>\<close>
  bs_checked_includes :: "path list"                      \<comment> \<open>\<open>__checked_includes\<close>\<close>
  bs_count_files :: nat                                   \<comment> \<open>\<open>__count_files\<close>\<close>
  bs_count_issues :: nat                                  \<comment> \<open>\<open>__count_issues\<close>\<close>
  bs_is_error_pragma :: bool                              \<comment> \<open>\<open>__is_error_pragma\<close>\<close>

text \<open>\<open>__new_vars\<close> (lines 1520--1534).\<close>

definition batch_init :: batch_state where
  "batch_init =
     \<lparr>bs_report = [], bs_valid_includes_dict = [], bs_func_declarations_dict = [], bs_fn = fn_init,
      bs_checked_includes = [], bs_count_files = 0, bs_count_issues = 0, bs_is_error_pragma = False\<rparr>"

text \<open>Lines 1617--1624: one include of the file, checked once per batch.\<close>

definition check_include :: "batch_env \<Rightarrow> batch_state \<Rightarrow> path \<Rightarrow> py_exc + batch_state" where
  "check_include env st include =
     (if include \<in> set (bs_checked_includes st) then Inr st
      else
        let st1 = st\<lparr>bs_checked_includes := bs_checked_includes st @ [include]\<rparr>;
            fs = os_getsize (be_os env) include;
            include_content = be_tokens env include;
            r1 = check_string_init fs include_content (bs_report st1) include;
            r2 = check_sys_calls fs include_content r1 include
        in case check_pragmas fs include_content r2 include of
             Inl e \<Rightarrow> Inl e
           | Inr (r3, is_error_pragma) \<Rightarrow> Inr (st1\<lparr>bs_report := r3, bs_is_error_pragma := is_error_pragma\<rparr>))"

text \<open>Lines 1576--1624: a file under the size cap, from the reset of its report to the
  end of its include loop.\<close>

definition main_file_checks :: "batch_env \<Rightarrow> path list \<Rightarrow> batch_state \<Rightarrow> path \<Rightarrow> py_exc + batch_state" where
  "main_file_checks env dxl_files_list st dxl_file =
     (let os = be_os env; fs = os_getsize os dxl_file; dxl_content = be_tokens env dxl_file;
          r0 = AList.update dxl_file [] (bs_report st);
          (r1, vid) = (case get_valid_includes os (be_roots env) fs dxl_content True of
                         None \<Rightarrow> (r0, bs_valid_includes_dict st)
                       | Some (errs, valid) \<Rightarrow>
                           (add_errors r0 dxl_file errs, AList.update dxl_file valid (bs_valid_includes_dict st)));
          r2 = check_string_init fs dxl_content r1 dxl_file;
          r3 = check_sys_calls fs dxl_content r2 dxl_file
      in case check_pragmas fs dxl_content r3 dxl_file of
           Inl e \<Rightarrow> Inl e
         | Inr (r4, is_error_pragma) \<Rightarrow>
             let r5 = check_duplicates os dxl_file dxl_files_list r4;
                 func_declarations_dict = get_func_declarations_file fs (be_func_names env dxl_file) dxl_content;
                 fn1 = get_defined_functions (bs_fn st) dxl_file func_declarations_dict;
                 fn2 = get_called_functions fn1 dxl_content;
                 st1 = st\<lparr>bs_report := r5, bs_valid_includes_dict := vid,
                          bs_func_declarations_dict := func_declarations_dict, bs_fn := fn2,
                          bs_count_issues := bs_count_issues st + length (report_of r5 dxl_file),
                          bs_is_error_pragma := is_error_pragma\<rparr>
             in foldl_exc (check_include env) st1 (dict_get vid dxl_file))"

text \<open>Lines 1562--1571: one iteration of the loop over the listed files.\<close>

definition check_main_file :: "batch_env \<Rightarrow> path list \<Rightarrow> batch_state \<Rightarrow> path \<Rightarrow> py_exc + batch_state" where
  "check_main_file env dxl_files_list st dxl_file =
     (let st0 = st\<lparr>bs_count_files := bs_count_files st + 1\<rparr>;
          fs = os_getsize (be_os env) dxl_file
      in if size_cap < fs
         then Inr (st0\<lparr>bs_report := add_error (bs_report st0) dxl_file (OversizeFileError fs)\<rparr>)
         else main_file_checks env dxl_files_list st0 dxl_file)"

text \<open>Lines 1543--1668: the loop from the given state, then the identical-content check
  (1652, reading the file at 932) and the choice of \<open>dxl_menu\<close> (1659--1666). The
  other global passes write HTML only.\<close>

definition check_files :: "batch_env \<Rightarrow> menu_list \<Rightarrow> batch_state \<Rightarrow> path list \<Rightarrow> py_exc + batch_state" where
  "check_files env txt_filename st0 dxl_files_list =
     (case foldl_exc (check_main_file env dxl_files_list) st0 dxl_files_list of
        Inl e \<Rightarrow> Inl e
      | Inr st \<Rightarrow>
          (case be_hash_content env of
             None \<Rightarrow> Inl IOError
           | Some hash_content_dict \<Rightarrow>
               let st1 = st\<lparr>bs_report := check_same_include_content (be_fmt env) hash_content_dict (bs_report st)\<rparr>
               in if txt_filename = ScanFiles then Inl UnboundLocalError else Inr st1))"

subsection \<open>Lemmas\<close>

lemma check_include_Inr:
  "check_include env st include = Inr st' \<Longrightarrow>
   bs_fn st' = bs_fn st \<and> bs_count_files st' = bs_count_files st"
  by (auto simp: check_include_def Let_def split: if_splits sum.splits)

lemma include_loop_Inr:
  "foldl_exc (check_include env) st incs = Inr st' \<Longrightarrow>
   bs_fn st' = bs_fn st \<and> bs_count_files st' = bs_count_files st"
  by (rule foldl_exc_invariant [where P = "\<lambda>s. bs_fn s = bs_fn st \<and> bs_count_files s = bs_count_files st"])
    (auto dest: check_include_Inr)

lemma main_file_checks_Inr:
  "main_file_checks env files st f = Inr st' \<Longrightarrow> os_getsize (be_os env) f \<le> size_cap \<Longrightarrow>
   bs_fn st' = function_pass (bs_fn st) (f, be_func_names env f, be_tokens env f) \<and>
   bs_count_files st' = bs_count_files st"
  by (auto simp: main_file_checks_def Let_def function_pass_def get_func_declarations_file_def
      split: option.splits prod.splits sum.splits dest!: include_loop_Inr)

lemma check_main_file_Inr:
  "check_main_file env files st f = Inr st' \<Longrightarrow>
   bs_fn st' = (if os_getsize (be_os env) f \<le> size_cap
                then function_pass (bs_fn st) (f, be_func_names env f, be_tokens env f) else bs_fn st) \<and>
   bs_count_files st' = bs_count_files st + 1"
  by (auto simp: check_main_file_def Let_def split: if_splits dest!: main_file_checks_Inr)

lemma main_loop_Inr:
  "foldl_exc (check_main_file env files) st xs = Inr st' \<Longrightarrow>
   bs_fn st' = foldl function_pass (bs_fn st)
     [(f, be_func_names env f, be_tokens env f). f \<leftarrow> xs, os_getsize (be_os env) f \<le> size_cap] \<and>
   bs_count_files st' = bs_count_files st + length xs"
proof (induction xs arbitrary: st)
  case (Cons x xs)
  then obtain s1 where s1: "check_main_file env files st x = Inr s1"
    and rest: "foldl_exc (check_main_file env files) s1 xs = Inr st'"
    by (auto split: sum.splits)
  show ?case using check_main_file_Inr [OF s1] Cons.IH [OF rest] by simp
qed simp

lemma check_include_total:
  "\<forall>g. \<forall>p\<in>fst ` set (pragma_entries (be_tokens env g)). \<not> bad_runlim p \<Longrightarrow>
   \<not> isl (check_include env st include)"
proof -
  assume "\<forall>g. \<forall>p\<in>fst ` set (pragma_entries (be_tokens env g)). \<not> bad_runlim p"
  then have "\<forall>p\<in>fst ` set (pragma_entries (be_tokens env include)). \<not> bad_runlim p" by blast
  then have "check_pragmas fs (be_tokens env include) rep f' \<noteq> Inl e" for fs rep f' e
    by (rule check_pragmas_good)
  then show ?thesis by (auto simp: check_include_def Let_def split: sum.splits)
qed

lemma check_main_file_total:
  "\<forall>g. \<forall>p\<in>fst ` set (pragma_entries (be_tokens env g)). \<not> bad_runlim p \<Longrightarrow>
   \<not> isl (check_main_file env files st f)"
proof -
  assume ok: "\<forall>g. \<forall>p\<in>fst ` set (pragma_entries (be_tokens env g)). \<not> bad_runlim p"
  have loop: "\<not> isl (foldl_exc (check_include env) s incs)" for s incs
    using foldl_exc_total [of "check_include env" s incs] check_include_total [OF ok] by auto
  from ok have "\<forall>p\<in>fst ` set (pragma_entries (be_tokens env f)). \<not> bad_runlim p" by blast
  then have "check_pragmas fs (be_tokens env f) rep f' \<noteq> Inl e" for fs rep f' e
    by (rule check_pragmas_good)
  with loop show ?thesis
    by (auto simp: check_main_file_def main_file_checks_def Let_def
        split: option.splits prod.splits sum.splits)
qed

lemma check_include_fresh:
  "include \<notin> set (bs_checked_includes st) \<Longrightarrow> check_include env st include = Inr st' \<Longrightarrow>
   report_grows (check_string_init (os_getsize (be_os env) include) (be_tokens env include) (bs_report st) include)
     (bs_report st')"
proof -
  assume fresh: "include \<notin> set (bs_checked_includes st)" and ok: "check_include env st include = Inr st'"
  let ?fs = "os_getsize (be_os env) include" and ?t = "be_tokens env include"
  let ?r1 = "check_string_init ?fs ?t (bs_report st) include"
  let ?r2 = "check_sys_calls ?fs ?t ?r1 include"
  from fresh ok obtain r3 flag where p: "check_pragmas ?fs ?t ?r2 include = Inr (r3, flag)"
    and st': "bs_report st' = r3"
    by (auto simp: check_include_def Let_def split: sum.splits)
  have "report_grows ?r1 ?r2" by (rule check_sys_calls_grows)
  also have "report_grows ?r2 r3" using p by (rule check_pragmas_grows)
  finally show ?thesis using st' by simp
qed

lemma check_include_grows:
  "check_include env st include = Inr st' \<Longrightarrow> report_grows (bs_report st) (bs_report st')"
proof (cases "include \<in> set (bs_checked_includes st)")
  case False
  assume "check_include env st include = Inr st'"
  from check_include_fresh [OF False this] show ?thesis
    by (rule report_grows_trans [OF check_string_init_grows])
qed (simp add: check_include_def)

lemma include_loop_grows:
  "foldl_exc (check_include env) st incs = Inr st' \<Longrightarrow> report_grows (bs_report st) (bs_report st')"
  by (rule foldl_exc_invariant [where P = "\<lambda>s. report_grows (bs_report st) (bs_report s)"])
    (auto intro: report_grows_trans dest: check_include_grows)

lemma main_file_checks_grows:
  "main_file_checks env files st f = Inr st' \<Longrightarrow>
   \<exists>r1. report_grows (check_string_init (os_getsize (be_os env) f) (be_tokens env f) r1 f) (bs_report st')"
proof -
  assume ok: "main_file_checks env files st f = Inr st'"
  let ?fs = "os_getsize (be_os env) f" and ?t = "be_tokens env f"
  obtain r1 vid where rv: "(case get_valid_includes (be_os env) (be_roots env) ?fs ?t True of
        None \<Rightarrow> (AList.update f [] (bs_report st), bs_valid_includes_dict st)
      | Some (errs, valid) \<Rightarrow> (add_errors (AList.update f [] (bs_report st)) f errs,
                                AList.update f valid (bs_valid_includes_dict st))) = (r1, vid)"
    by (metis surj_pair)
  let ?r2 = "check_string_init ?fs ?t r1 f"
  let ?r3 = "check_sys_calls ?fs ?t ?r2 f"
  from ok rv obtain r4 flag where p: "check_pragmas ?fs ?t ?r3 f = Inr (r4, flag)"
    by (auto simp: main_file_checks_def Let_def split: sum.splits)
  have "\<exists>s1 incs. bs_report s1 = check_duplicates (be_os env) f files r4 \<and>
          foldl_exc (check_include env) s1 incs = Inr st'"
    using ok unfolding main_file_checks_def Let_def rv prod.case p sum.case
    apply (intro exI conjI)
     prefer 2 apply assumption
    apply simp
    done
  then obtain s1 incs where s1: "bs_report s1 = check_duplicates (be_os env) f files r4"
    and loop: "foldl_exc (check_include env) s1 incs = Inr st'" by blast
  have "report_grows ?r2 ?r3" by (rule check_sys_calls_grows)
  also have "report_grows ?r3 r4" using p by (rule check_pragmas_grows)
  also have "report_grows r4 (bs_report s1)" unfolding s1 by (rule check_duplicates_grows)
  also have "report_grows (bs_report s1) (bs_report st')" using loop by (rule include_loop_grows)
  finally show ?thesis by blast
qed

lemma isl_case_Inl: "isl x \<Longrightarrow> isl (case x of Inl e \<Rightarrow> Inl e | Inr y \<Rightarrow> g y)"
  by (cases x) auto

subsection \<open>Theorems\<close>

text \<open>
  Claim C5. The outcome of a batch run. When no file has a \<open>runLim\<close> pragma whose
  argument check raises, the loop over the listed files completes from any starting
  state: it counts every file, and its function tables are those of the function pass
  over the files under the size cap, in list order. What follows is exact. The run
  raises \<open>IOError\<close> when \<open>hash_content.txt\<close> was never written. It raises
  \<open>UnboundLocalError\<close> in scan-file mode, where \<open>dxl_menu\<close> is never bound. Otherwise
  it returns the loop's state with the identical-content diagnostics added.
\<close>

theorem check_files_outcome:
  "\<forall>g. \<forall>p\<in>fst ` set (pragma_entries (be_tokens env g)). \<not> bad_runlim p \<Longrightarrow>
   \<exists>st. bs_count_files st = bs_count_files st0 + length files \<and>
     bs_fn st = foldl function_pass (bs_fn st0)
       [(f, be_func_names env f, be_tokens env f). f \<leftarrow> files, os_getsize (be_os env) f \<le> size_cap] \<and>
     check_files env txt st0 files =
       (case be_hash_content env of
          None \<Rightarrow> Inl IOError
        | Some hc \<Rightarrow> if txt = ScanFiles then Inl UnboundLocalError
                    else Inr (st\<lparr>bs_report := check_same_include_content (be_fmt env) hc (bs_report st)\<rparr>))"
proof -
  assume ok: "\<forall>g. \<forall>p\<in>fst ` set (pragma_entries (be_tokens env g)). \<not> bad_runlim p"
  obtain st where st: "foldl_exc (check_main_file env files) st0 files = Inr st"
    using foldl_exc_total [of "check_main_file env files" st0 files] check_main_file_total [OF ok]
    by blast
  from main_loop_Inr [OF st] st show ?thesis
    by (auto simp: check_files_def Let_def split: option.split)
qed

theorem check_files_outcome_witness:
  "(\<exists>st. check_files \<lparr>be_os = toy_os [], be_roots = [], be_tokens = \<lambda>f. [], be_func_names = \<lambda>f. [],
           be_hash_content = Some [], be_fmt = \<lambda>ps. concat ps\<rparr> ProjectsList batch_init [''a.dxl''] = Inr st \<and>
     bs_count_files st = 1)
   \<and> check_files \<lparr>be_os = toy_os [], be_roots = [], be_tokens = \<lambda>f. [], be_func_names = \<lambda>f. [],
           be_hash_content = Some [], be_fmt = \<lambda>ps. concat ps\<rparr> ScanFiles batch_init [''a.dxl''] = Inl UnboundLocalError"
proof -
  let ?E = "\<lparr>be_os = toy_os [], be_roots = [], be_tokens = \<lambda>f. [], be_func_names = \<lambda>f. [],
           be_hash_content = Some [], be_fmt = \<lambda>ps. concat ps\<rparr>"
  have ok: "\<forall>g. \<forall>p\<in>fst ` set (pragma_entries (be_tokens ?E g)). \<not> bad_runlim p"
    by (simp add: pragma_entries_def)
  from check_files_outcome [OF ok, of batch_init "[''a.dxl'']" ProjectsList]
  have a: "\<exists>st. check_files ?E ProjectsList batch_init [''a.dxl''] = Inr st \<and> bs_count_files st = 1"
    by (auto simp: batch_init_def)
  from check_files_outcome [OF ok, of batch_init "[''a.dxl'']" ScanFiles]
  have b: "check_files ?E ScanFiles batch_init [''a.dxl''] = Inl UnboundLocalError"
    by auto
  from a b show ?thesis by blast
qed

text \<open>
  Claim C8. A malformed \<open>runLim\<close> pragma in the first listed file (under the size
  cap) aborts the whole batch run with an exception, instead of being recorded as a
  per-file failure.
\<close>

theorem check_files_aborts:
  "os_getsize (be_os env) f \<le> size_cap \<Longrightarrow> \<exists>p\<in>fst ` set (pragma_entries (be_tokens env f)). bad_runlim p \<Longrightarrow>
   isl (check_files env txt st0 (f # rest))"
proof -
  assume cap: "os_getsize (be_os env) f \<le> size_cap"
    and bad: "\<exists>p\<in>fst ` set (pragma_entries (be_tokens env f)). bad_runlim p"
  have "isl (check_pragmas (os_getsize (be_os env) f) (be_tokens env f) r f)" for r
    using check_pragmas_bad [OF cap bad] .
  then have "isl (check_main_file env (f # rest) st0 f)"
    using cap unfolding check_main_file_def main_file_checks_def Let_def
    by (auto split: prod.split intro!: isl_case_Inl)
  then show ?thesis by (auto simp: check_files_def isl_def split: sum.splits)
qed

theorem check_files_aborts_witness:
  "isl (check_files \<lparr>be_os = toy_os [], be_roots = [], be_tokens = \<lambda>f. [mk_tok ''PRAGMA'' ''pragma runLim'' 1],
           be_func_names = \<lambda>f. [], be_hash_content = Some [], be_fmt = \<lambda>ps. concat ps\<rparr>
         ProjectsList batch_init [''a.dxl'', ''b.dxl''])"
  using check_files_aborts [of "\<lparr>be_os = toy_os [], be_roots = [], be_tokens = \<lambda>f. [mk_tok ''PRAGMA'' ''pragma runLim'' 1],
           be_func_names = \<lambda>f. [], be_hash_content = Some [], be_fmt = \<lambda>ps. concat ps\<rparr>" "''a.dxl''" ProjectsList batch_init "[''b.dxl'']"]
  by (simp add: toy_os_def size_cap_def pragma_entries_def bad_runlim_def runlim_cycles_def py_split_def)

text \<open>
  Claim C12. A file that was checked as a main file and is then reached as an include
  of a later file, not yet in \<open>__checked_includes\<close> (main files are never added
  to it), is checked again: its report, which the include pass does not reset, then
  holds its null-initialisation diagnostic at least twice.
\<close>

theorem include_recheck_duplicates:
  "check_main_file env files st f = Inr st1 \<Longrightarrow> os_getsize (be_os env) f \<le> size_cap \<Longrightarrow>
   ''null'' \<in> fst ` set (string_inits (be_tokens env f)) \<Longrightarrow> f \<notin> set (bs_checked_includes st1) \<Longrightarrow>
   check_include env st1 f = Inr st2 \<Longrightarrow>
   2 \<le> count_list (report_of (bs_report st2) f) (null_init_error (last_value (string_inits (be_tokens env f)) ''null''))"
proof -
  assume main: "check_main_file env files st f = Inr st1" and cap: "os_getsize (be_os env) f \<le> size_cap"
    and null: "''null'' \<in> fst ` set (string_inits (be_tokens env f))"
    and fresh: "f \<notin> set (bs_checked_includes st1)" and inc: "check_include env st1 f = Inr st2"
  let ?e = "null_init_error (last_value (string_inits (be_tokens env f)) ''null'')"
  have str: "report_of (check_string_init (os_getsize (be_os env) f) (be_tokens env f) r f) f = report_of r f @ [?e]" for r
    using cap null by (simp add: check_string_init_eq)
  from main cap have "main_file_checks env files (st\<lparr>bs_count_files := bs_count_files st + 1\<rparr>) f = Inr st1"
    by (simp add: check_main_file_def Let_def)
  then obtain r1 where "report_grows (check_string_init (os_getsize (be_os env) f) (be_tokens env f) r1 f) (bs_report st1)"
    using main_file_checks_grows by blast
  then have in1: "?e \<in> set (report_of (bs_report st1) f)"
    by (rule report_grows_in) (simp add: str)
  from check_include_fresh [OF fresh inc] obtain zs where
    "report_of (bs_report st2) f =
     report_of (check_string_init (os_getsize (be_os env) f) (be_tokens env f) (bs_report st1) f) f @ zs"
    unfolding report_grows_def by blast
  then have "report_of (bs_report st2) f = report_of (bs_report st1) f @ [?e] @ zs" by (simp add: str)
  moreover have "Suc 0 \<le> count_list (report_of (bs_report st1) f) ?e"
    using in1 by (metis Suc_leI count_list_pos_iff)
  ultimately show ?thesis by simp
qed

theorem include_recheck_duplicates_witness:
  "\<exists>st1 st2. check_main_file \<lparr>be_os = toy_os [], be_roots = [],
      be_tokens = \<lambda>f. [mk_tok ''STRING_INIT'' ''string s = '' 1, mk_tok ''ID'' ''null'' 1],
      be_func_names = \<lambda>f. [], be_hash_content = Some [], be_fmt = \<lambda>ps. concat ps\<rparr> [''a.dxl''] batch_init ''a.dxl'' = Inr st1 \<and>
     check_include \<lparr>be_os = toy_os [], be_roots = [],
      be_tokens = \<lambda>f. [mk_tok ''STRING_INIT'' ''string s = '' 1, mk_tok ''ID'' ''null'' 1],
      be_func_names = \<lambda>f. [], be_hash_content = Some [], be_fmt = \<lambda>ps. concat ps\<rparr> st1 ''a.dxl'' = Inr st2 \<and>
     2 \<le> count_list (report_of (bs_report st2) ''a.dxl'') (null_init_error 1)"
proof -
  let ?E = "\<lparr>be_os = toy_os [], be_roots = [],
      be_tokens = \<lambda>f. [mk_tok ''STRING_INIT'' ''string s = '' 1, mk_tok ''ID'' ''null'' 1],
      be_func_names = \<lambda>f. [], be_hash_content = Some [], be_fmt = \<lambda>ps. concat ps\<rparr>"
  have ok: "\<forall>g. \<forall>p\<in>fst ` set (pragma_entries (be_tokens ?E g)). \<not> bad_runlim p"
    by (simp add: pragma_entries_def)
  obtain st1 where st1: "check_main_file ?E [''a.dxl''] batch_init ''a.dxl'' = Inr st1"
    using check_main_file_total [OF ok, of "[''a.dxl'']" batch_init "''a.dxl''"] by (cases "check_main_file ?E [''a.dxl''] batch_init ''a.dxl''") auto
  have "map_sum id bs_checked_includes (check_main_file ?E [''a.dxl''] batch_init ''a.dxl'') = Inr []"
    by (simp add: check_main_file_def main_file_checks_def Let_def toy_os_def size_cap_def batch_init_def
     get_valid_includes_def get_tokens_dicts include_directives_from_def check_string_init_eq
     string_inits_from_def check_sys_calls_def sys_call_entries_def is_sys_call_tok_def
     check_pragmas_def pragma_entries_def dict_of_def check_duplicates_def counter_dups_def
     get_func_declarations_file_def get_defined_functions_def get_called_functions_def
     called_functions_from_def pragma_order_flag_def get_func_declarations_def)
  with st1 have fresh: "''a.dxl'' \<notin> set (bs_checked_includes st1)" by simp
  obtain st2 where st2: "check_include ?E st1 ''a.dxl'' = Inr st2"
    using check_include_total [OF ok, of st1 "''a.dxl''"] by (cases "check_include ?E st1 ''a.dxl''") auto
  have "2 \<le> count_list (report_of (bs_report st2) ''a.dxl'')
          (null_init_error (last_value (string_inits (be_tokens ?E ''a.dxl'')) ''null''))"
    by (rule include_recheck_duplicates [OF st1 _ _ fresh st2])
      (simp_all add: toy_os_def size_cap_def string_inits_from_def)
  then have "2 \<le> count_list (report_of (bs_report st2) ''a.dxl'') (null_init_error 1)"
    by (simp add: string_inits_from_def last_value_def)
  with st1 st2 show ?thesis by blast
qed

end
