(* ===== verification/Html.thy ===== *)
theory Html
  imports Functions
begin

text \<open>
  The HTML view of a DXL file, \<open>StartDoors.__dxl2html\<close> (\<open>src/dxl-analyzer/dxl_scan.py\<close>,
  lines 1199--1506), and its colouring \<open>__syntax_color\<close> (1054--1107). The page
  shows a gutter of line numbers and the code, token by token, as \<open>span\<close>
  elements. Include targets become links to the included file's page, calls become
  links to the declaration, and the flagged constructs are highlighted. The model
  keeps every string the code writes, so a page is the list of \<open>f.write\<close>
  arguments. What the method reads besides the tokens is the record \<open>html_ctx\<close>:
  \<^item> the keyword files \<open>kw2.txt\<close>, \<open>kw3.txt\<close> and \<open>kw4.txt\<close>;
  \<^item> \<open>os.path\<close>, the SHA-1 naming of pages (\<open>__get_hash\<close>) and the search roots;
  \<^item> the file's valid includes, declarations and the builtin manual pages;
  \<^item> the pragma flag, and the tokens of each include, whose declarations
    \<open>Functions.get_func_declarations_file\<close> finds.
\<close>

abbreviation sq :: string where
  "sq \<equiv> [CHR 0x27]"

subsection \<open>Colours\<close>

definition res_base_ids :: "string list" where
  "res_base_ids = [''AND'', ''BOOL'', ''BREAK'', ''BY'', ''CASE'', ''CHAR'', ''CONST'', ''CONTINUE'',
     ''DEFAULT'', ''DO'', ''ELSE'', ''ELSEIF'', ''ENUM'', ''FOR'', ''IF'', ''IN'', ''INT'',
     ''OR'', ''PRAGMA'', ''REAL'', ''RETURN'', ''SIZEOF'', ''STATIC'', ''STRUCT'', ''SWITCH'',
     ''THEN'', ''UNION'', ''VOID'', ''WHILE'', ''INCLUDE'']"

definition operators :: "string list" where
  "operators = [''PLUS'', ''MINUS'', ''TIMES'', ''DIVIDE'', ''MOD'', ''NOT'', ''XOR'', ''LSHIFT'', ''RSHIFT'',
     ''LOR'', ''LAND'', ''LNOT'', ''TMPC'', ''LT'', ''LE'', ''GT'', ''GE'', ''EQ'', ''NE'', ''EQUALS'',
     ''TIMESEQUAL'', ''DIVEQUAL'', ''MODEQUAL'', ''PLUSEQUAL'', ''MINUSEQUAL'', ''LSHIFTEQUAL'',
     ''RSHIFTEQUAL'', ''ANDEQUAL'', ''XOREQUAL'', ''OREQUAL'', ''INLINK'', ''OVRLOAD'', ''DEF'',
     ''LPAREN'', ''RPAREN'', ''LBRACKET'', ''RBRACKET'', ''COMMA'', ''PERIOD'', ''SEMICOLON'',
     ''COLON'', ''SQUOTE'', ''DQUOTE'']"

text \<open>Lines 1084--1107; the keyword files are the parameters \<open>kw2\<close>, \<open>kw3\<close>, \<open>kw4\<close>.\<close>

definition syntax_color :: "string list \<Rightarrow> string list \<Rightarrow> string list \<Rightarrow> tok_type \<Rightarrow> string \<Rightarrow> string" where
  \<open>syntax_color kw2 kw3 kw4 token_type token_value0 =
     (let token_value = (if token_type = ''FUNCTION'' then callee token_value0 else token_value0);
          braces = [''{'', ''}''];
          comments = [''C_COMMENT'', ''CPP_COMMENT''];
          literals = [''ICONST'', ''FCONST'', ''CCONST'', ''SCONST'']
      in if token_type \<in> set res_base_ids \<or> token_value \<in> set res_base_ids then ''"color:#0404B5;"''
         else if token_type \<in> set operators then ''"color:#000080;"''
         else if token_type \<in> set braces \<or> token_value \<in> set braces then ''"color:#000080;"''
         else if token_type \<in> set kw2 \<or> token_value \<in> set kw2 then ''"color:#0080FF;"''
         else if token_type \<in> set kw3 \<or> token_value \<in> set kw3 then ''"color:#8080FF;"''
         else if token_type \<in> set kw4 \<or> token_value \<in> set kw4 then ''"color:#0000FF;"''
         else if token_type \<in> set comments then ''"color:#008000;"''
         else if token_type \<in> set literals then ''"color:#FF0000;"''
         else ''"color:#000000;"'')\<close>

subsection \<open>The context and the tokens of the page\<close>

text \<open>\<open>Lexer.Token\<close> (\<open>src/dxl_lexer.py\<close>, lines 8--13): value, type, line, column.\<close>

record html_tok =
  ht_value :: string
  ht_type :: tok_type
  ht_line :: line
  ht_column :: nat

record html_ctx =
  hc_kw2 :: "string list"
  hc_kw3 :: "string list"
  hc_kw4 :: "string list"
  hc_os :: os_iface
  hc_hash :: "string \<Rightarrow> string"                    \<comment> \<open>\<open>__get_hash\<close>\<close>
  hc_roots :: "path list"                          \<comment> \<open>\<open>__addin_dirs + __project_dirs\<close>\<close>
  hc_valid :: "path list option"                   \<comment> \<open>\<open>__valid_includes_dict[dxl_file]\<close>, if set\<close>
  hc_func_decls :: "(string, line list) pydict"    \<comment> \<open>\<open>__func_declarations_dict\<close>\<close>
  hc_builtins :: "(string, nat) pydict"            \<comment> \<open>\<open>__builtin_fcts_dict\<close>\<close>
  hc_is_error_pragma :: bool                       \<comment> \<open>\<open>__is_error_pragma\<close>\<close>
  hc_func_names :: "path \<Rightarrow> string list"          \<comment> \<open>the names \<open>func_re\<close> finds in a file\<close>
  hc_tokens :: "path \<Rightarrow> lex_token list"         \<comment> \<open>the lexed content of a file\<close>
  hc_output_dir :: path                            \<comment> \<open>\<open>__output_dir\<close>\<close>
  hc_abspath :: "path \<Rightarrow> path"                 \<comment> \<open>\<open>os.path.abspath\<close>\<close>
  hc_fix_subst_path :: "path \<Rightarrow> path"          \<comment> \<open>\<open>drives.fix_subst_path\<close>\<close>

text \<open>\<open>"<span id=%d style=%s>%s</span>"\<close>, the span most tokens get.\<close>

definition span_style :: "line \<Rightarrow> string \<Rightarrow> string \<Rightarrow> string" where
  "span_style l style text = ''<span id='' @ py_str_nat l @ '' style='' @ style @ ''>'' @ text @ ''</span>''"

subsection \<open>Include targets\<close>

text \<open>Lines 1364--1378: a target that no root resolves.\<close>

definition doors_include_span :: "html_ctx \<Rightarrow> line \<Rightarrow> path \<Rightarrow> string" where
  "doors_include_span ctx line include_link =
     (let os = hc_os ctx; l = py_str_nat line in
      if py_startswith include_link ''utils''
      then ''<span id='' @ l @ ''><font color='' @ sq @ ''green'>&lt'' @ include_link @ ''&gt</font></span>''
      else if py_startswith_any include_link [''%%Path%%'', ''%%templatePath%%'']
      then ''<span id='' @ l @ ''><span style='' @ sq @ ''background-color:orange;'>&lt'' @ include_link @
           ''&gt</span> <span style='' @ sq @ ''color:#008000; font-family:helvetica'> // DXL Scanner Exception : '' @
           ''&#37;&#37;Path&#37;&#37; not interpreted, include should be valid</span></span>''
      else
        let c_path = os_normpath os (os_join os doors_includes_path include_link)
        in if os_exists os c_path
           then let html_include_link = hc_hash ctx (os_normpath os c_path) @ ''_'' @ os_basename os include_link
                in ''<span id='' @ l @ ''><span style='' @ sq @ ''background-color:red;'><a href='' @ sq @
                   html_include_link @ ''.html'>&lt'' @ include_link @ ''&gt</a></span> <span style='' @ sq @
                   ''color:#008000; font-family:helvetica'> // DXL Scanner : path found but not valid</span></span>''
           else ''<span id='' @ l @ ''><span style='' @ sq @ ''background-color:red;'>&lt'' @ include_link @
                ''&gt</span></span>'')"

text \<open>Lines 1356--1378: the loop over the roots; a hit ends it, a miss sets \<open>v\<close> to
  the span above and goes on, and with no roots \<open>v\<close> keeps its old value.\<close>

fun include_roots_loop :: "html_ctx \<Rightarrow> path list \<Rightarrow> line \<Rightarrow> path \<Rightarrow> path list \<Rightarrow> string \<Rightarrow> string" where
  "include_roots_loop ctx valid line include_link [] v = v"
| "include_roots_loop ctx valid line include_link (start_path # rest) v =
     (let os = hc_os ctx; abs_include_link = os_join os start_path include_link
      in if os_normpath os abs_include_link \<in> set valid
         then let html_include_link = hc_hash ctx (os_normpath os abs_include_link) @ ''_'' @ os_basename os include_link
              in ''<span id='' @ py_str_nat line @ ''><a href='' @ sq @ html_include_link @ ''.html'>&lt'' @
                 include_link @ ''&gt</a></span>''
         else include_roots_loop ctx valid line include_link rest (doors_include_span ctx line include_link))"

text \<open>Lines 1342--1380: the token after \<open>#include\<close>; a missing entry of the valid
  includes (\<open>KeyError\<close>) is passed over and \<open>v\<close> keeps its old value.\<close>

definition include_span :: "html_ctx \<Rightarrow> html_tok \<Rightarrow> string \<Rightarrow> string" where
  "include_span ctx token v =
     (let include_link = py_strip_delims (ht_value token); os = hc_os ctx; l = py_str_nat (ht_line token)
      in case hc_valid ctx of
           None \<Rightarrow> v
         | Some valid \<Rightarrow>
             if include_link \<in> set valid
             then let html_include_link = hc_hash ctx include_link @ ''_'' @ os_basename os include_link
                  in if os_drive os include_link = ''R:''
                     then ''<span id='' @ l @ ''><a href='' @ sq @ html_include_link @ ''.html'><span style='' @ sq @
                          ''background-color:red;'>&lt'' @ include_link @ ''&gt</span></a></span>''
                     else ''<span id='' @ l @ ''><a href='' @ sq @ html_include_link @ ''.html'>&lt'' @ include_link @
                          ''&gt</a></span>''
             else include_roots_loop ctx valid (ht_line token) include_link (hc_roots ctx) v)"

subsection \<open>Calls\<close>

text \<open>The DOORS reference manual that builtin calls link to (line 1417).\<close>

definition doors_help_pdf :: string where
  "doors_help_pdf = ''R:'' @ [backslash] @ ''AMS_afr_A400M'' @ [backslash] @ ''ESPACE_TRAVAIL_COMMON'' @ [backslash] @
     ''WP5_SupportMultiLoad'' @ [backslash] @ ''DOC'' @ [backslash] @ ''DOORS'' @ [backslash] @
     ''dxl_reference_manual_96.pdf''"

text \<open>\<open>"<span id=%d><span style=%s>%s</span>(%s</span>"\<close>: a call without a link.\<close>

definition call_span :: "line \<Rightarrow> string \<Rightarrow> string \<Rightarrow> string \<Rightarrow> string" where
  "call_span l style head args = ''<span id='' @ py_str_nat l @ ''><span style='' @ style @ ''>'' @ head @
     ''</span>('' @ args @ ''</span>''"

text \<open>Lines 1425--1442: the search of the valid includes for the declaration. Each
  include is lexed and its declarations looked up; the first that declares the
  callee gives the link, and a miss leaves the unlinked span.\<close>

fun include_decl_loop :: "html_ctx \<Rightarrow> html_tok \<Rightarrow> string \<Rightarrow> string \<Rightarrow> path list \<Rightarrow> string \<Rightarrow> py_exc + string" where
  "include_decl_loop ctx token style fname [] v = Inr v"
| "include_decl_loop ctx token style fname (include # rest) v =
     (let os = hc_os ctx;
          func_def_dict = get_func_declarations_file (os_getsize os include) (hc_func_names ctx include) (hc_tokens ctx include);
          value = ht_value token
      in case map_of func_def_dict fname of
           Some lines \<Rightarrow>
             (case py_index lines 0 of
                Inl e \<Rightarrow> Inl e
              | Inr line \<Rightarrow>
                  let html_include_link = hc_hash ctx include @ ''_'' @ py_replace_char backslash ''/'' (os_basename os include)
                  in Inr (''<span id='' @ py_str_nat (ht_line token) @ ''><span style='' @ style @ ''><a href='' @ sq @
                          html_include_link @ ''.html#'' @ py_str_nat line @ sq @ ''>'' @ py_split_head CHR ''('' value @
                          ''</a></span>('' @ py_split1_last CHR ''('' value @ ''</span>''))
         | None \<Rightarrow> include_decl_loop ctx token style fname rest
                    (call_span (ht_line token) style (py_split_head CHR ''('' value) (py_split1_last CHR ''('' value)))"

text \<open>Lines 1404--1442: a call not preceded by a type keyword. A callee declared once
  in the file links to its line, a builtin to its page of the manual, any other
  callee is looked up in the valid includes: \<open>valid_includes_dict[dxl_file]\<close> raises
  KeyError when the file has no entry, and \<open>split("(",1)[1]\<close> IndexError when the
  value has no parenthesis.\<close>

definition function_span :: "html_ctx \<Rightarrow> html_tok \<Rightarrow> string \<Rightarrow> py_exc + string" where
  "function_span ctx token style =
     (let value = ht_value token; l = py_str_nat (ht_line token);
          fname = py_rstrip CHR '' '' (py_split_head CHR ''('' value);
          head = py_split_head CHR ''('' value; args = py_split1_last CHR ''('' value
      in case map_of (hc_func_decls ctx) fname of
           Some lines \<Rightarrow>
             if length lines = 1
             then Inr (''<span id='' @ l @ ''><span style='' @ style @ ''><a href=#'' @ py_str_nat (hd lines) @ ''>'' @
                       head @ ''</a></span>('' @ args @ ''</span>'')
             else Inr (''<span id='' @ l @ ''><span style='' @ style @ ''>'' @ value @ ''</span></span>'')
         | None \<Rightarrow>
             (case map_of (hc_builtins ctx) fname of
                Some func_def_line \<Rightarrow>
                  Inr (''<span id='' @ l @ ''><span style='' @ style @ ''><a href=file:///'' @ doors_help_pdf @
                       ''#page='' @ py_str_nat func_def_line @ ''>'' @ head @ ''</a></span>('' @ args @ ''</span>'')
              | None \<Rightarrow>
                  (case py_split1_second CHR ''('' value of
                     Inl e \<Rightarrow> Inl e
                   | Inr args1 \<Rightarrow>
                       (case hc_valid ctx of
                          None \<Rightarrow> Inl KeyError
                        | Some valid \<Rightarrow>
                            include_decl_loop ctx token style fname valid
                              (call_span (ht_line token) style head args1)))))"

subsection \<open>One token\<close>

text \<open>The variables of the rendering loop that live across tokens and lines:
  the flags about the previous token, the last \<open>v\<close> and \<open>style\<close> (Python keeps
  them from one token to the next), the column reached on the line, the
  comment bookkeeping of lines 1456--1500, the last token, and what was written.\<close>

record render_state =
  rs_prev_include :: bool
  rs_prev_comment :: bool
  rs_prev_keyword :: bool
  rs_prev_string_init :: bool
  rs_v :: string
  rs_style :: string
  rs_column :: nat
  rs_nb_br_after :: int
  rs_actual_line :: "line option"
  rs_token :: html_tok
  rs_out :: "string list"

definition render_init :: render_state where
  "render_init =
     \<lparr>rs_prev_include = False, rs_prev_comment = False, rs_prev_keyword = False,
      rs_prev_string_init = False, rs_v = [], rs_style = [], rs_column = 0, rs_nb_br_after = 0,
      rs_actual_line = None, rs_token = \<lparr>ht_value = [], ht_type = [], ht_line = 0, ht_column = 0\<rparr>,
      rs_out = []\<rparr>"

text \<open>Lines 1297--1303: the indentation before a token; the first token of a line
  is indented with two em spaces per column.\<close>

definition render_spaces :: "render_state \<Rightarrow> html_tok \<Rightarrow> render_state" where
  "render_spaces st token =
     (let nb_space = ht_column token - rs_column st
      in if 0 < nb_space
         then st\<lparr>rs_out := rs_out st @ [if rs_column st = 0 then py_str_mul ''&emsp;'' (nb_space * 2)
                                         else py_str_mul ''&nbsp;'' nb_space],
                 rs_column := rs_column st + nb_space\<rparr>
         else st)"

text \<open>Lines 1305--1308: after a C comment, any token but a call is recoloured.\<close>

definition render_after_comment :: "html_ctx \<Rightarrow> render_state \<Rightarrow> html_tok \<Rightarrow> render_state" where
  "render_after_comment ctx st token =
     (if rs_prev_comment st \<and> ht_type token \<noteq> ''FUNCTION''
      then let style = syntax_color (hc_kw2 ctx) (hc_kw3 ctx) (hc_kw4 ctx) (ht_type token) (ht_value token)
           in st\<lparr>rs_style := style, rs_v := span_style (ht_line token) style (ht_value token)\<rparr>
      else st)"

text \<open>Lines 1340--1446: the chain of cases that gives the token's \<open>style\<close> and \<open>v\<close>.\<close>

definition token_span :: "html_ctx \<Rightarrow> render_state \<Rightarrow> html_tok \<Rightarrow> py_exc + string \<times> string" where
  \<open>token_span ctx st token =
     (let value = ht_value token; l = py_str_nat (ht_line token); style = rs_style st;
          color = syntax_color (hc_kw2 ctx) (hc_kw3 ctx) (hc_kw4 ctx) (ht_type token) value
      in if rs_prev_include st then Inr (style, include_span ctx token (rs_v st))
         else if ht_type token = ''SYS_CALL''
         then Inr (style, ''<span id='' @ l @ ''><span style="background-color:orange;">'' @ value @ ''</span></span>'')
         else if rs_prev_string_init st
         then Inr (style,
                if value = ''null''
                then ''<span id='' @ l @ '' style='' @ style @ ''><span style='' @ sq @ ''border-bottom: 1px dotted red;'>'' @
                     value @ ''</span> <span style='' @ sq @ ''color:#008000; font-family:helvetica'> // DXL Scanner : '' @
                     ''Bad initialization, use "" instead of null</span></span>''
                else span_style (ht_line token) style value)
         else if ht_type token = ''PRAGMA''
         then (if hc_is_error_pragma ctx
               then Inr (style,
                      if py_contains value ''runLim, 0'' \<or> py_contains value ''encoding'' \<or> py_contains value ''stack''
                      then ''<span id='' @ l @ ''><span style='' @ sq @ ''background-color:orange;'>'' @ value @
                           ''</span> <span style='' @ sq @ ''color:#008000; font-family:helvetica'> // DXL Scanner Exception : '' @
                           ''Pragma is OK</span></span>''
                      else ''<span id='' @ l @ ''><span style='' @ sq @ ''background-color:red;'>'' @ value @ ''</span></span>'')
               else Inr (color, span_style (ht_line token) color value))
         else if ht_type token = ''FUNCTION'' \<and> \<not> rs_prev_keyword st
         then (case function_span ctx token color of Inl e \<Rightarrow> Inl e | Inr v \<Rightarrow> Inr (color, v))
         else Inr (color, span_style (ht_line token) color value))\<close>

text \<open>Lines 1294--1454: one token. An exception leaves the loop with what was
  written so far (\<open>Inl\<close> carries it); otherwise the flags are set from the token,
  \<open>v\<close> is written, and the column moves past the token.\<close>

definition render_token :: "html_ctx \<Rightarrow> render_state \<Rightarrow> html_tok \<Rightarrow> (py_exc \<times> render_state) + render_state" where
  "render_token ctx st token =
     (let st1 = render_after_comment ctx (render_spaces st token) token
      in case token_span ctx st1 token of
           Inl e \<Rightarrow> Inl (e, st1)
         | Inr (style, v) \<Rightarrow>
             Inr (st1\<lparr>rs_style := style, rs_v := v,
                      rs_prev_include := (ht_type token = ''INCLUDE''),
                      rs_prev_comment := (ht_type token = ''C_COMMENT''),
                      rs_prev_keyword := (ht_type token \<in> set decl_keywords),
                      rs_prev_string_init := (ht_type token = ''STRING_INIT''),
                      rs_out := rs_out st1 @ [v],
                      rs_column := rs_column st1 + length (ht_value token),
                      rs_token := token\<rparr>))"

subsection \<open>Lines\<close>

text \<open>\<open>"<br>\n"\<close>\<close>

definition br_nl :: string where
  "br_nl = ''<br>'' @ [CHR 0x0A]"

text \<open>Lines 1456--1500: the end of a source line. After a C comment the code
  counts the lines since the comment began (\<open>nb_br_after_comment\<close>), takes off
  those the comment's own \<open><br>\<close> already show, and writes one break when
  the rest is positive or zero (\<open>"<br>\n"*(n/n)\<close> is one break); otherwise one break.
  \<open>actual_line\<close> is unbound until the first comment (the \<open>UnboundLocalError\<close>).\<close>

definition comment_breaks :: "render_state \<Rightarrow> render_state" where
  "comment_breaks st =
     (if rs_prev_comment st
      then let token = rs_token st;
               nb0 = (case rs_actual_line st of
                        None \<Rightarrow> rs_nb_br_after st
                      | Some actual_line \<Rightarrow> if ht_line token \<noteq> actual_line then 0 else rs_nb_br_after st);
               nb = nb0 + 1;
               nb_br_in_comment = int (py_count (ht_value token) ''<br>'');
               real = nb - nb_br_in_comment - 1
           in st\<lparr>rs_nb_br_after := nb, rs_actual_line := Some (ht_line token),
                 rs_out := rs_out st @ (if 0 < real then [py_str_mul br_nl (nat (real div real))]
                                        else if real = 0 then [br_nl] else [])\<rparr>
      else st\<lparr>rs_out := rs_out st @ [br_nl]\<rparr>)"

definition blank_tok :: html_tok where
  "blank_tok = \<lparr>ht_value = [], ht_type = [], ht_line = 0, ht_column = 0\<rparr>"

text \<open>Lines 1289--1500: one line number \<open>l\<close>: its tokens, if \<open>tok_dict\<close> has the line,
  from column 0, then the break.\<close>

definition render_line ::
  "html_ctx \<Rightarrow> (line, html_tok list) pydict \<Rightarrow> render_state \<Rightarrow> line \<Rightarrow> (py_exc \<times> render_state) + render_state" where
  "render_line ctx tok_dict st l =
     (case map_of tok_dict l of
        None \<Rightarrow> Inr (comment_breaks st)
      | Some line_toks \<Rightarrow>
          (case foldl_exc (render_token ctx) (st\<lparr>rs_token := blank_tok, rs_column := 0\<rparr>) line_toks of
             Inl err \<Rightarrow> Inl err
           | Inr st' \<Rightarrow> Inr (comment_breaks st')))"

text \<open>Lines 1286--1504: the code column. The lines run from 1 to the last line
  that has a token; \<open>lines[-1]\<close> of a file without tokens raises IndexError.
  IndexError is caught (\<open>except IndexError: pass\<close>) and ends the page where it
  was, without its closing tags; any other exception escapes (\<open>fst\<close> of the result).\<close>

definition dxl2html_code :: "html_ctx \<Rightarrow> (line, html_tok list) pydict \<Rightarrow> py_exc option \<times> string list" where
  "dxl2html_code ctx tok_dict =
     (let lines = sort (map fst tok_dict)
      in if lines = [] then (None, [])
         else case foldl_exc (render_line ctx tok_dict) render_init [1..<last lines + 1] of
                Inl (IndexError, st) \<Rightarrow> (None, rs_out st)
              | Inl (e, st) \<Rightarrow> (Some e, rs_out st)
              | Inr st \<Rightarrow> (None, rs_out st @ [''</div></body></font></html>'']))"

subsection \<open>The page\<close>

text \<open>Lines 1246--1259: the widths of the gutter and of the code column.\<close>

definition gutter_widths :: "nat \<Rightarrow> string \<times> string" where
  "gutter_widths total_lines =
     (if total_lines < 100 then (''30'', ''90'')
      else if total_lines \<ge> 100 \<and> total_lines < 1000 then (''35'', ''90'')
      else if total_lines \<ge> 1000 \<and> total_lines < 10000 then (''40'', ''89'')
      else (''45'', ''88''))"

text \<open>Lines 1263--1264: the gutter, one number per line of the content.\<close>

definition gutter :: "nat \<Rightarrow> string list" where
  "gutter total_lines = map (\<lambda>i. py_str_nat i @ br_nl) [1..<total_lines + 1]"

text \<open>What \<open>__dxl2html\<close> writes: the two batch files and the page, and the exception
  that escapes it.\<close>

record html_out =
  ho_edit_bat :: string
  ho_scan_bat :: string
  ho_page :: "string list"
  ho_exc :: "py_exc option"
  ho_nb_lines :: nat

text \<open>Lines 1199--1267 and the code column: \<open>dxl_content\<close> is the file's text and
  \<open>tok_dict\<close> what \<open>Lexer.init\<close> made of it.\<close>

definition dxl2html :: "html_ctx \<Rightarrow> path \<Rightarrow> string \<Rightarrow> (line, html_tok list) pydict \<Rightarrow> html_out" where
  \<open>dxl2html ctx dxl_file dxl_content tok_dict =
     (let os = hc_os ctx;
          dxl_file_basename = hc_hash ctx dxl_file @ ''_'' @ os_basename os dxl_file;
          edit_bat = hc_output_dir ctx @ ''/edit_bat/'' @ dxl_file_basename @ ''.bat'';
          scan_bat = hc_output_dir ctx @ ''/scan_bat/'' @ dxl_file_basename @ ''.bat'';
          total_lines = py_count dxl_content [CHR 0x0A] + 1;
          (width_left, width_right) = gutter_widths total_lines;
          head =
            [''<!DOCTYPE html>'',
             ''<html><font face='consolas' size='2'><head><title>'' @ os_basename os dxl_file @ ''</title>'',
             ''<meta http-equiv="X-UA-Compatible" content="IE=8"/>'',
             ''</head><body style='margin:0;'>'',
             ''<div style="border:1.5px solid #4B9FD5; padding-left:20px; font-family:helvetica;">'',
             ''<p>File: '' @ os_basename os dxl_file @ '' - Size: '' @ py_str_nat (os_getsize os dxl_file) @ '' bytes'',
             '' - <a href='' @ hc_abspath ctx scan_bat @ ''>Scan this file</a></p>'',
             ''<p>Open original DXL file: <a href="file:///'' @ hc_fix_subst_path ctx dxl_file @ ''">'' @ dxl_file @ ''</a> - '',
             ''<a href='' @ hc_abspath ctx edit_bat @ ''>Edit file</a></p></div>'',
             br_nl,
             ''<div style="width:'' @ width_left @ ''px; float:left; text-align: right; color:#666666; '' @
               ''background-color:#E1E1E3; padding-right:5px; margin-right:10px;">'']
            @ gutter total_lines @
            [''</div>'',
             ''<div style='width:'' @ width_right @ ''%; float:left; white-space: nowrap;'>''];
          (exc, code) = dxl2html_code ctx tok_dict
      in \<lparr>ho_edit_bat = ''cleartool checkout -nc '' @ dxl_file @ [CHR 0x0A] @ ''start /min notepad++ '' @ dxl_file,
          ho_scan_bat = ''dxl_scan.py -i start_doors.ini -d FBL-SSDD -s '' @ dxl_file,
          ho_page = head @ code, ho_exc = exc, ho_nb_lines = length tok_dict\<rparr>)\<close>


subsection \<open>Vocabulary of the line-alignment proof\<close>

text \<open>\<open>render_inv\<close>: the last \<open>v\<close> is not a line break, the count of lines after a
  comment is not negative, and a comment that ends the previous line has no
  \<open><br>\<close> of its own. \<open>good_tok\<close>: what the lexer guarantees of a token and the claim
  assumes (a call token has its parenthesis, \<open>t_FUNCTION\<close> of the lexer), and a C
  comment on a single line.\<close>

definition render_inv :: "render_state \<Rightarrow> bool" where
  "render_inv st \<longleftrightarrow> rs_v st \<noteq> br_nl \<and> 0 \<le> rs_nb_br_after st \<and>
     (rs_prev_comment st \<longrightarrow> py_count (ht_value (rs_token st)) ''<br>'' = 0)"

definition good_tok :: "html_tok \<Rightarrow> bool" where
  "good_tok t \<longleftrightarrow> (ht_type t = ''FUNCTION'' \<longrightarrow> CHR ''('' \<in> set (ht_value t)) \<and>
     (ht_type t = ''C_COMMENT'' \<longrightarrow> py_count (ht_value t) ''<br>'' = 0)"

text \<open>A small page: a file with a declared function \<open>foo\<close> at line 3, a call to it on
  line 1 and a comment on line 3.\<close>

definition sample_ctx :: html_ctx where
  "sample_ctx =
     \<lparr>hc_kw2 = [], hc_kw3 = [], hc_kw4 = [], hc_os = toy_os [], hc_hash = (\<lambda>x. ''h''), hc_roots = [],
      hc_valid = Some [], hc_func_decls = [(''foo'', [3])], hc_builtins = [], hc_is_error_pragma = False,
      hc_func_names = (\<lambda>x. []), hc_tokens = (\<lambda>x. []), hc_output_dir = ''out'', hc_abspath = id,
      hc_fix_subst_path = id\<rparr>"

definition sample_tok_dict :: "(line, html_tok list) pydict" where
  "sample_tok_dict =
     [(1, [\<lparr>ht_value = ''x'', ht_type = ''ID'', ht_line = 1, ht_column = 2\<rparr>,
           \<lparr>ht_value = ''foo(1)'', ht_type = ''FUNCTION'', ht_line = 1, ht_column = 4\<rparr>]),
      (3, [\<lparr>ht_value = ''/* c */'', ht_type = ''C_COMMENT'', ht_line = 3, ht_column = 0\<rparr>])]"

subsection \<open>No token is written as a line break\<close>

lemma doors_include_span_not_br: "doors_include_span ctx l x \<noteq> br_nl"
  unfolding doors_include_span_def br_nl_def Let_def by simp

lemma include_roots_loop_not_br:
  "v \<noteq> br_nl \<Longrightarrow> include_roots_loop ctx valid l x roots v \<noteq> br_nl"
proof (induction roots arbitrary: v)
  case (Cons r roots)
  then show ?case
    unfolding include_roots_loop.simps Let_def
    by (simp add: doors_include_span_not_br) (simp add: br_nl_def)
qed simp

lemma include_span_not_br: "v \<noteq> br_nl \<Longrightarrow> include_span ctx t v \<noteq> br_nl"
  unfolding include_span_def Let_def
  by (simp add: include_roots_loop_not_br split: option.split) (simp add: br_nl_def)

lemma call_span_not_br: "call_span l style h a \<noteq> br_nl"
  by (simp add: call_span_def br_nl_def)

lemma span_style_not_br: "span_style l style x \<noteq> br_nl"
  by (simp add: span_style_def br_nl_def)

lemma include_decl_loop_not_br:
  "v \<noteq> br_nl \<Longrightarrow> include_decl_loop ctx t style f incs v \<noteq> Inr br_nl"
proof (induction incs arbitrary: v)
  case (Cons i incs)
  then show ?case
    by (simp add: Let_def call_span_not_br split: option.split sum.split) (simp add: br_nl_def)
qed simp

lemma function_span_not_br: "function_span ctx t style \<noteq> Inr br_nl"
  unfolding function_span_def Let_def
  by (simp split: option.split sum.split add: call_span_not_br include_decl_loop_not_br)
     (simp add: br_nl_def)

lemma case_sum_pair_not:
  "r \<noteq> Inr w \<Longrightarrow> (case r of Inl e \<Rightarrow> Inl e | Inr v \<Rightarrow> Inr (c, v)) \<noteq> Inr (s, w)"
  by (cases r) auto

lemma token_span_not_br: "rs_v st \<noteq> br_nl \<Longrightarrow> token_span ctx st t \<noteq> Inr (style, br_nl)"
  unfolding token_span_def Let_def
  by (simp add: span_style_not_br include_span_not_br function_span_not_br case_sum_pair_not)
     (simp add: br_nl_def)


subsection \<open>The rendering of a token never raises on lexer output\<close>

lemma nonempty_values_foldl_dict_append:
  "nonempty_values d \<Longrightarrow> nonempty_values (foldl (\<lambda>d (k, x). dict_append d k x) d kvs)"
  by (induction kvs arbitrary: d) auto

lemma get_func_declarations_file_nonempty:
  "map_of (get_func_declarations_file fs names toks) n = Some ls \<Longrightarrow> ls \<noteq> []"
  using nonempty_values_foldl_dict_append [of "[]" "decl_occurrences names toks"]
  by (auto simp: get_func_declarations_file_def get_func_declarations_alt nonempty_values_def
           dest!: map_of_SomeD split: if_splits)

lemma include_decl_loop_total: "\<exists>w. include_decl_loop ctx t style f incs v = Inr w"
proof (induction incs arbitrary: v)
  case (Cons i incs)
  then show ?case
    by (auto simp: Let_def py_index_def dest: get_func_declarations_file_nonempty split: option.split)
qed simp

lemma function_span_total:
  "hc_valid ctx \<noteq> None \<Longrightarrow> CHR ''('' \<in> set (ht_value t) \<Longrightarrow> \<exists>w. function_span ctx t style = Inr w"
  unfolding function_span_def Let_def
  by (auto simp: py_split1_second_def include_decl_loop_total split: option.split)

lemma token_span_total:
  "hc_valid ctx \<noteq> None \<Longrightarrow> good_tok t \<Longrightarrow> \<exists>r. token_span ctx st t = Inr r"
  unfolding token_span_def Let_def good_tok_def
  using function_span_total [of ctx t "syntax_color (hc_kw2 ctx) (hc_kw3 ctx) (hc_kw4 ctx) (ht_type t) (ht_value t)"]
  by (auto split: sum.split)

subsection \<open>One break per line\<close>

lemma render_spaces_inv:
  "render_inv (render_spaces st t) = render_inv st"
  "rs_prev_comment (render_spaces st t) = rs_prev_comment st"
  "count_list (rs_out (render_spaces st t)) br_nl = count_list (rs_out st) br_nl"
  by (auto simp: render_spaces_def render_inv_def Let_def br_nl_def gr0_conv_Suc)

lemma render_after_comment_inv:
  "render_inv st \<Longrightarrow> render_inv (render_after_comment ctx st t)"
  "rs_out (render_after_comment ctx st t) = rs_out st"
  by (auto simp: render_after_comment_def render_inv_def Let_def span_style_not_br)

lemma render_token_step:
  assumes "hc_valid ctx \<noteq> None" "good_tok t" "render_inv st"
  shows "\<exists>st'. render_token ctx st t = Inr st' \<and> render_inv st' \<and>
           count_list (rs_out st') br_nl = count_list (rs_out st) br_nl"
proof -
  let ?st1 = "render_after_comment ctx (render_spaces st t) t"
  have inv1: "render_inv ?st1"
    using assms(3) by (simp add: render_spaces_inv render_after_comment_inv)
  obtain style v where span: "token_span ctx ?st1 t = Inr (style, v)"
    using token_span_total [OF assms(1,2), of ?st1] by auto
  have "v \<noteq> br_nl"
    using token_span_not_br [of ?st1 ctx t style] inv1 span by (auto simp: render_inv_def)
  with inv1 assms(2) show ?thesis
    by (simp add: render_token_def span render_inv_def good_tok_def Let_def render_after_comment_inv(2)
                  render_spaces_inv(3))
qed

lemma comment_breaks_step:
  "render_inv st \<Longrightarrow> render_inv (comment_breaks st) \<and>
     count_list (rs_out (comment_breaks st)) br_nl = Suc (count_list (rs_out st) br_nl)"
  by (auto simp: comment_breaks_def render_inv_def Let_def split: option.split)


lemma render_line_step:
  assumes "hc_valid ctx \<noteq> None" "\<forall>(l, ts) \<in> set tok_dict. \<forall>t \<in> set ts. good_tok t" "render_inv st"
  shows "\<exists>st'. render_line ctx tok_dict st l = Inr st' \<and> render_inv st' \<and>
           count_list (rs_out st') br_nl = Suc (count_list (rs_out st) br_nl)"
proof (cases "map_of tok_dict l")
  case None
  with comment_breaks_step [OF assms(3)] show ?thesis by (simp add: render_line_def)
next
  case (Some ts)
  then have "(l, ts) \<in> set tok_dict" by (rule map_of_SomeD)
  then have good: "\<forall>t \<in> set ts. good_tok t" using assms(2) by auto
  have step: "\<And>s x. x \<in> set ts \<Longrightarrow> render_inv s \<Longrightarrow> \<exists>s'. render_token ctx s x = Inr s' \<and>
                render_inv s' \<and> count_list (rs_out s') br_nl = count_list (rs_out s) br_nl + 0"
    using good render_token_step [OF assms(1)] by simp
  have init: "render_inv (st\<lparr>rs_token := blank_tok, rs_column := 0\<rparr>)"
    using assms(3) by (simp add: render_inv_def blank_tok_def)
  obtain s' where "foldl_exc (render_token ctx) (st\<lparr>rs_token := blank_tok, rs_column := 0\<rparr>) ts = Inr s'"
    "render_inv s'" "count_list (rs_out s') br_nl = count_list (rs_out st) br_nl"
    using foldl_exc_measure [where f = "render_token ctx" and xs = ts, OF step init] by auto
  then show ?thesis
    using Some comment_breaks_step [of s'] by (simp add: render_line_def)
qed

text \<open>
  Claim C23. The code column is aligned with the gutter. Take a file whose
  tokens are what the lexer produces (calls carry their parenthesis) and whose C
  comments each sit on one line, with an entry in the valid includes. Its code
  column is written without exception and ends with the closing tags. Before
  them there is exactly one \<open><br>\n\<close> for each line from 1 to the last line that
  has a token, so line \<open>n\<close> of the code faces number \<open>n\<close> of the gutter.
\<close>

theorem dxl2html_code_lines:
  assumes "tok_dict \<noteq> []" "hc_valid ctx \<noteq> None" "\<forall>(l, ts) \<in> set tok_dict. \<forall>t \<in> set ts. good_tok t"
  shows "\<exists>out. dxl2html_code ctx tok_dict = (None, out @ [''</div></body></font></html>'']) \<and>
           count_list out br_nl = Max (fst ` set tok_dict)"
proof -
  let ?ls = "[1..<last (sort (map fst tok_dict)) + 1]"
  have inv0: "render_inv render_init" by (simp add: render_inv_def render_init_def br_nl_def)
  have step: "\<And>s x. x \<in> set ?ls \<Longrightarrow> render_inv s \<Longrightarrow> \<exists>s'. render_line ctx tok_dict s x = Inr s' \<and>
                render_inv s' \<and> count_list (rs_out s') br_nl = count_list (rs_out s) br_nl + 1"
    using render_line_step [OF assms(2,3)] by simp
  obtain st where "foldl_exc (render_line ctx tok_dict) render_init ?ls = Inr st"
    and "count_list (rs_out st) br_nl = last (sort (map fst tok_dict))"
    using foldl_exc_measure [where f = "render_line ctx tok_dict" and xs = ?ls and k = "\<lambda>_. 1", OF step inv0]
    by (auto simp: render_init_def sum_list_triv)
  moreover have "sort (map fst tok_dict) \<noteq> []"
    using assms(1) by (metis length_0_conv length_map length_sort)
  ultimately show ?thesis
    by (simp add: dxl2html_code_def Let_def del: upt_Suc) (simp add: last_sort_Max assms(1))
qed


theorem dxl2html_code_lines_witness:
  "\<exists>out. dxl2html_code sample_ctx sample_tok_dict = (None, out @ [''</div></body></font></html>'']) \<and>
     count_list out br_nl = 3"
proof -
  have "\<exists>out. dxl2html_code sample_ctx sample_tok_dict = (None, out @ [''</div></body></font></html>'']) \<and>
          count_list out br_nl = Max (fst ` set sample_tok_dict)"
    by (rule dxl2html_code_lines) (simp_all add: sample_tok_dict_def sample_ctx_def good_tok_def py_startswith_def)
  then show ?thesis by (simp add: sample_tok_dict_def)
qed

subsection \<open>The gutter\<close>

text \<open>
  Claim C27. The widths of the gutter follow the number of digits of the last line
  number. Up to two digits the gutter is 30px wide, with three 35px, with four
  40px, and with five digits or more 45px: from 100000 lines on, the width no
  longer grows.
\<close>

theorem gutter_widths_digits:
  "gutter_widths n =
     (if length (py_str_nat n) \<le> 2 then (''30'', ''90'')
      else if length (py_str_nat n) = 3 then (''35'', ''90'')
      else if length (py_str_nat n) = 4 then (''40'', ''89'')
      else (''45'', ''88''))"
proof -
  have "length (py_str_nat n) \<le> 2 \<longleftrightarrow> n < 100" "length (py_str_nat n) \<le> 3 \<longleftrightarrow> n < 1000"
    "length (py_str_nat n) \<le> 4 \<longleftrightarrow> n < 10000"
    using length_py_str_nat_le [of 2 n] length_py_str_nat_le [of 3 n] length_py_str_nat_le [of 4 n] by simp_all
  then show ?thesis
    by (cases "n < 100"; cases "n < 1000"; cases "n < 10000") (auto simp: gutter_widths_def)
qed

end
