(* ===== verification/IncludePages.thy ===== *)
theory IncludePages
  imports Html
begin

text \<open>
  The HTML pages of the includes (\<open>src/dxl-analyzer/dxl_scan.py\<close>):
  \<^item> \<open>__dxl2html\<close> (1199--1228) as a state operation;
  \<^item> the content hashes (\<open>__hash_file_content\<close>, 1122--1135, and
    \<open>__compare_hash_content\<close>, 1138--1149);
  \<^item> the recursion \<open>__includes_dxl2html\<close> with its local \<open>analyse_inc\<close>
    (1152--1196).

  The state \<open>inc_state\<close> holds what these methods change: the valid includes, the
  include-to-parents map, the counters, the hash dict in memory and the pickled
  file \<open>hash_content.txt\<close>, and the files written, keyed by normalised path. A page
  from an earlier run is a file that \<open>os.path.exists\<close> sees.

  Python bounds the depth of the recursion: past the interpreter's recursion limit
  a call raises \<open>RuntimeError\<close>. The model counts that depth down in its \<open>nat\<close>
  argument, and depth 0 raises \<open>RuntimeError\<close>. Every other exception inside the
  loop is swallowed by its bare \<open>except: pass\<close>, which ends the loop over the
  file's includes.
\<close>

record page_env =
  pe_ctx :: html_ctx                                  \<comment> \<open>what \<open>__dxl2html\<close> reads; \<open>hc_valid\<close> comes from the state\<close>
  pe_content :: "path \<Rightarrow> string"                     \<comment> \<open>\<open>__get_dxl_content\<close>\<close>
  pe_tok_dict :: "path \<Rightarrow> (line, html_tok list) pydict"  \<comment> \<open>\<open>Lexer.init\<close> of the content\<close>
  pe_complete :: bool                                 \<comment> \<open>\<open>__complete\<close>, the \<open>complete\<close> option\<close>

record inc_state =
  is_valid :: "(path, path list) pydict"              \<comment> \<open>\<open>__valid_includes_dict\<close>\<close>
  is_include_dict :: "(path, path list) pydict"       \<comment> \<open>\<open>__include_dict\<close>\<close>
  is_count_includes :: nat                            \<comment> \<open>\<open>__count_includes\<close>\<close>
  is_nb_inc_per_file :: nat                           \<comment> \<open>\<open>__nb_inc_per_file\<close>\<close>
  is_count_lines :: nat                               \<comment> \<open>\<open>__count_lines\<close>\<close>
  is_loc_dict :: "(string, nat) pydict"               \<comment> \<open>\<open>__loc_dict\<close>\<close>
  is_hash_mem :: "(path, string) pydict"              \<comment> \<open>\<open>__hash_content_dict\<close>\<close>
  is_hash_disk :: "(path, string) pydict option"      \<comment> \<open>\<open>hash_content.txt\<close>, if it exists\<close>
  is_files :: "(path, string list) pydict"            \<comment> \<open>the files written, by normalised path\<close>

definition write_file :: "os_iface \<Rightarrow> path \<Rightarrow> string list \<Rightarrow> inc_state \<Rightarrow> inc_state" where
  "write_file os p content st = st\<lparr>is_files := AList.update (os_normpath os p) content (is_files st)\<rparr>"

definition file_exists :: "os_iface \<Rightarrow> inc_state \<Rightarrow> path \<Rightarrow> bool" where
  "file_exists os st p \<longleftrightarrow> os_normpath os p \<in> set (map fst (is_files st)) \<or> os_exists os p"

text \<open>\<open>self.__get_valid_includes(f, content, log_error=False)\<close>: only the stored list
  changes; an oversize file leaves the dict as it was.\<close>

definition valid_includes_update :: "page_env \<Rightarrow> inc_state \<Rightarrow> path \<Rightarrow> inc_state" where
  "valid_includes_update env st f =
     (let ctx = pe_ctx env; os = hc_os ctx
      in case get_valid_includes os (hc_roots ctx) (os_getsize os f) (hc_tokens ctx f) False of
           None \<Rightarrow> st
         | Some (_, valid) \<Rightarrow> st\<lparr>is_valid := AList.update f valid (is_valid st)\<rparr>)"

text \<open>The page of a file (line 1229).\<close>

definition html_page_path :: "html_ctx \<Rightarrow> path \<Rightarrow> path" where
  "html_page_path ctx dxl_file =
     hc_output_dir ctx @ ''/dxl_files/'' @ hc_hash ctx dxl_file @ ''_'' @ os_basename (hc_os ctx) dxl_file @ ''.html''"

text \<open>Lines 1199--1228: the two batch files, the valid includes of the file, the line
  counters, then the page; an exception of the page escapes.\<close>

definition dxl2html_file :: "page_env \<Rightarrow> inc_state \<Rightarrow> path \<Rightarrow> py_exc option \<times> inc_state" where
  "dxl2html_file env st dxl_file =
     (let ctx = pe_ctx env; os = hc_os ctx;
          dxl_file_basename = hc_hash ctx dxl_file @ ''_'' @ os_basename os dxl_file;
          st1 = valid_includes_update env st dxl_file;
          out = dxl2html (ctx\<lparr>hc_valid := map_of (is_valid st1) dxl_file\<rparr>) dxl_file (pe_content env dxl_file)
                  (pe_tok_dict env dxl_file);
          st2 = write_file os (hc_output_dir ctx @ ''/edit_bat/'' @ dxl_file_basename @ ''.bat'') [ho_edit_bat out] st1;
          st3 = write_file os (hc_output_dir ctx @ ''/scan_bat/'' @ dxl_file_basename @ ''.bat'') [ho_scan_bat out] st2;
          st4 = st3\<lparr>is_count_lines := is_count_lines st3 + ho_nb_lines out,
                    is_loc_dict := AList.update dxl_file_basename (ho_nb_lines out) (is_loc_dict st3)\<rparr>
      in (ho_exc out, write_file os (html_page_path ctx dxl_file) (ho_page out) st4))"

text \<open>Lines 1122--1135: the hash of the content goes into the dict, and the whole
  dict is pickled over \<open>hash_content.txt\<close>.\<close>

definition hash_file_content :: "page_env \<Rightarrow> inc_state \<Rightarrow> path \<Rightarrow> inc_state" where
  "hash_file_content env st dxl_file =
     (let hash_content = hc_hash (pe_ctx env) (pe_content env dxl_file);
          mem = AList.update dxl_file hash_content (is_hash_mem st)
      in st\<lparr>is_hash_mem := mem, is_hash_disk := Some mem\<rparr>)"

text \<open>Lines 1138--1149: the hash is compared with the pickled dict; a missing file
  raises IOError, a missing entry KeyError.\<close>

definition compare_hash_content :: "inc_state \<Rightarrow> path \<Rightarrow> string \<Rightarrow> py_exc + bool" where
  "compare_hash_content st dxl_file current_hash =
     (case is_hash_disk st of
        None \<Rightarrow> Inl IOError
      | Some hash_content_dict \<Rightarrow>
          (case map_of hash_content_dict dxl_file of
             None \<Rightarrow> Inl KeyError
           | Some h \<Rightarrow> Inr (current_hash = h)))"

text \<open>The path whose existence says that an include's page was made (line 1180).\<close>

definition include_page_path :: "html_ctx \<Rightarrow> path \<Rightarrow> path" where
  "include_page_path ctx include =
     hc_output_dir ctx @ [backslash] @ ''dxl_files'' @ [backslash] @ hc_hash ctx include @ ''_'' @
     os_basename (hc_os ctx) include @ ''.html''"

text \<open>Lines 1152--1196. \<open>includes_dxl2html\<close> is the method, \<open>include_pages_loop\<close> its
  loop over the file's valid includes (the list as it was when the loop started), and
  \<open>analyse_inc\<close> the nested function (1157--1163). The first argument after the
  environment is the depth left before the recursion limit.\<close>

fun includes_dxl2html :: "page_env \<Rightarrow> nat \<Rightarrow> inc_state \<Rightarrow> path \<Rightarrow> py_exc option \<times> inc_state"
and include_pages_loop :: "page_env \<Rightarrow> nat \<Rightarrow> path \<Rightarrow> inc_state \<Rightarrow> path list \<Rightarrow> inc_state"
and analyse_inc :: "page_env \<Rightarrow> nat \<Rightarrow> inc_state \<Rightarrow> path \<Rightarrow> py_exc option \<times> inc_state" where
  "includes_dxl2html env 0 st dxl_file = (Some RuntimeError, st)"
| "includes_dxl2html env (Suc n) st dxl_file =
     (None, case map_of (is_valid st) dxl_file of
              None \<Rightarrow> st
            | Some includes \<Rightarrow> include_pages_loop env n dxl_file st includes)"
| "include_pages_loop env n dxl_file st [] = st"
| "include_pages_loop env n dxl_file st (include # rest) =
     (let ctx = pe_ctx env;
          st1 = st\<lparr>is_include_dict := dict_append (is_include_dict st) include dxl_file,
                   is_count_includes := Suc (is_count_includes st),
                   is_nb_inc_per_file := Suc (is_nb_inc_per_file st)\<rparr>;
          include_content = pe_content env include;
          include_scanned = file_exists (hc_os ctx) st1 (include_page_path ctx include)
      in if pe_complete env \<or> \<not> include_scanned
         then (case analyse_inc env n st1 include of
                 (Some e, st2) \<Rightarrow> st2
               | (None, st2) \<Rightarrow> include_pages_loop env n dxl_file st2 rest)
         else (case compare_hash_content st1 include (hc_hash ctx include_content) of
                 Inl e \<Rightarrow> st1
               | Inr True \<Rightarrow> include_pages_loop env n dxl_file st1 rest
               | Inr False \<Rightarrow>
                   (case analyse_inc env n st1 include of
                      (Some e, st2) \<Rightarrow> st2
                    | (None, st2) \<Rightarrow> include_pages_loop env n dxl_file st2 rest)))"
| "analyse_inc env n st include =
     (case dxl2html_file env (hash_file_content env st include) include of
        (Some e, st1) \<Rightarrow> (Some e, st1)
      | (None, st1) \<Rightarrow> includes_dxl2html env n (valid_includes_update env st1 include) include)"

declare analyse_inc.simps [simp del]

subsection \<open>Vocabulary of the theorems\<close>

text \<open>What \<open>__get_valid_includes\<close> stores for a file, and whether its page is
  written without exception when that is its list of valid includes.\<close>

definition include_valid_list :: "page_env \<Rightarrow> path \<Rightarrow> path list option" where
  "include_valid_list env g =
     map_option snd (get_valid_includes (hc_os (pe_ctx env)) (hc_roots (pe_ctx env))
       (os_getsize (hc_os (pe_ctx env)) g) (hc_tokens (pe_ctx env) g) False)"

definition page_ok :: "page_env \<Rightarrow> path \<Rightarrow> path list \<Rightarrow> bool" where
  "page_ok env g v \<longleftrightarrow>
     ho_exc (dxl2html ((pe_ctx env)\<lparr>hc_valid := Some v\<rparr>) g (pe_content env g) (pe_tok_dict env g)) = None"

text \<open>The includes hashed in this run, and the invariant of the incremental mode:
  the stored valid includes lie in the set \<open>S\<close> of files the run can reach; each
  hashed include carries the hash of its content and has its page; once something
  is hashed, the pickled file holds the dict.\<close>

definition analysed :: "inc_state \<Rightarrow> path set" where
  "analysed st = set (map fst (is_hash_mem st))"

definition valid_within :: "path list \<Rightarrow> inc_state \<Rightarrow> bool" where
  "valid_within S st \<longleftrightarrow> (\<forall>(k, v) \<in> set (is_valid st). set v \<subseteq> set S)"

definition hashes_ok :: "page_env \<Rightarrow> inc_state \<Rightarrow> bool" where
  "hashes_ok env st \<longleftrightarrow>
     (\<forall>(i, h) \<in> set (is_hash_mem st). h = hc_hash (pe_ctx env) (pe_content env i) \<and>
        file_exists (hc_os (pe_ctx env)) st (include_page_path (pe_ctx env) i))"

definition disk_ok :: "inc_state \<Rightarrow> bool" where
  "disk_ok st \<longleftrightarrow> (is_hash_mem st \<noteq> [] \<longrightarrow> is_hash_disk st = Some (is_hash_mem st))"

definition inc_inv :: "page_env \<Rightarrow> path list \<Rightarrow> inc_state \<Rightarrow> bool" where
  "inc_inv env S st \<longleftrightarrow> valid_within S st \<and> hashes_ok env st \<and> disk_ok st"

text \<open>The incremental mode: the \<open>complete\<close> option is off, every list of valid
  includes lies in \<open>S\<close>, and the page \<open>__dxl2html\<close> writes is the one the loop
  looks for (\<open>"/dxl_files/"\<close> and \<open>"\dxl_files" + os.sep\<close> name the same file).\<close>

definition incremental_env :: "page_env \<Rightarrow> path list \<Rightarrow> bool" where
  "incremental_env env S \<longleftrightarrow> \<not> pe_complete env \<and>
     (\<forall>g v. include_valid_list env g = Some v \<longrightarrow> set v \<subseteq> set S) \<and>
     (\<forall>i. os_normpath (hc_os (pe_ctx env)) (html_page_path (pe_ctx env) i) =
          os_normpath (hc_os (pe_ctx env)) (include_page_path (pe_ctx env) i))"

text \<open>Examples: a Windows-like \<open>os.path\<close> whose \<open>normpath\<close> turns slashes into
  backslashes; a file \<open>K:\a.inc\<close> that includes itself (\<open>#include "K:\a.inc"\<close>);
  and a state after a first hash dump in which the file's first include,
  \<open>K:\b.inc\<close>, has a page from an earlier run but no hash yet.\<close>

definition win_os :: "path list \<Rightarrow> os_iface" where
  "win_os files = (toy_os files)\<lparr>os_normpath := py_replace_char CHR ''/'' [backslash]\<rparr>"

definition cyc_file :: path where
  "cyc_file = ''K:'' @ [backslash] @ ''a.inc''"

definition cycle_env :: "bool \<Rightarrow> page_env" where
  "cycle_env c =
     \<lparr>pe_ctx = sample_ctx\<lparr>hc_os := win_os [cyc_file],
        hc_tokens := (\<lambda>_. [mk_tok ''INCLUDE'' ''#include'' 1, mk_tok ''SCONST'' (''\"'' @ cyc_file @ ''\"'') 1])\<rparr>,
      pe_content = (\<lambda>_. []), pe_tok_dict = (\<lambda>_. []), pe_complete = c\<rparr>"

definition cycle_state :: inc_state where
  "cycle_state =
     \<lparr>is_valid = [(cyc_file, [cyc_file])], is_include_dict = [], is_count_includes = 0, is_nb_inc_per_file = 0,
      is_count_lines = 0, is_loc_dict = [], is_hash_mem = [], is_hash_disk = None, is_files = []\<rparr>"

definition stale_inc :: path where
  "stale_inc = ''K:'' @ [backslash] @ ''b.inc''"

definition stale_env :: page_env where
  "stale_env = (cycle_env False)\<lparr>pe_ctx := sample_ctx\<lparr>hc_os := win_os [''out'' @ [backslash] @ ''dxl_files'' @ [backslash] @ ''h_b.inc.html'']\<rparr>\<rparr>"

definition stale_state :: inc_state where
  "stale_state = cycle_state\<lparr>is_valid := [(cyc_file, [stale_inc, cyc_file])],
     is_hash_mem := [(cyc_file, ''h'')], is_hash_disk := Some [(cyc_file, ''h'')]\<rparr>"

subsection \<open>Examples\<close>

lemma cycle_valid: "include_valid_list (cycle_env c) g = Some [cyc_file]"
  by (simp add: include_valid_list_def cycle_env_def win_os_def cyc_file_def get_valid_includes_def get_tokens_def
      gt_init_def size_cap_def toy_os_def backslash_def py_strip_delims_def resolve_include_def strip_include_path_def
      include_step_def valid_step_def set_add_def unreported_prefixes_def Let_def)

lemma cycle_env_complete: "pe_complete (cycle_env c) = c"
  by (simp add: cycle_env_def)

lemma cycle_page_ok: "page_ok (cycle_env c) g v"
  by (simp add: page_ok_def cycle_env_def dxl2html_def dxl2html_code_def Let_def split: prod.split)

lemma cycle_paths:
  "\<forall>i. os_normpath (hc_os (pe_ctx (cycle_env c))) (html_page_path (pe_ctx (cycle_env c)) i) =
       os_normpath (hc_os (pe_ctx (cycle_env c))) (include_page_path (pe_ctx (cycle_env c)) i)"
  by (simp add: cycle_env_def win_os_def py_replace_char_def html_page_path_def include_page_path_def
      sample_ctx_def backslash_def)

subsection \<open>What each step changes\<close>

lemma dxl2html_file_frame:
  "is_count_includes (snd (dxl2html_file env st g)) = is_count_includes st"
  "is_hash_mem (snd (dxl2html_file env st g)) = is_hash_mem st"
  "is_hash_disk (snd (dxl2html_file env st g)) = is_hash_disk st"
  by (simp_all add: dxl2html_file_def valid_includes_update_def write_file_def Let_def
      split: option.split prod.split)

lemma valid_includes_update_frame:
  "is_count_includes (valid_includes_update env st g) = is_count_includes st"
  "is_hash_mem (valid_includes_update env st g) = is_hash_mem st"
  "is_hash_disk (valid_includes_update env st g) = is_hash_disk st"
  "is_files (valid_includes_update env st g) = is_files st"
  by (simp_all add: valid_includes_update_def Let_def split: option.split prod.split)

lemma valid_includes_update_Some:
  "get_valid_includes (hc_os (pe_ctx env)) (hc_roots (pe_ctx env)) (os_getsize (hc_os (pe_ctx env)) g)
     (hc_tokens (pe_ctx env) g) False = Some (errs, v) \<Longrightarrow>
   map_of (is_valid (valid_includes_update env st g)) g = Some v"
  by (simp add: valid_includes_update_def Let_def update_conv')

lemma dxl2html_file_Some:
  "get_valid_includes (hc_os (pe_ctx env)) (hc_roots (pe_ctx env)) (os_getsize (hc_os (pe_ctx env)) g)
     (hc_tokens (pe_ctx env) g) False = Some (errs, v) \<Longrightarrow>
   fst (dxl2html_file env st g) =
     ho_exc (dxl2html ((pe_ctx env)\<lparr>hc_valid := Some v\<rparr>) g (pe_content env g) (pe_tok_dict env g))"
  by (simp add: dxl2html_file_def Let_def valid_includes_update_Some [where errs = errs] write_file_def)

lemma dxl2html_file_valid:
  "is_valid (snd (dxl2html_file env st g)) = is_valid (valid_includes_update env st g)"
  by (simp add: dxl2html_file_def Let_def write_file_def)

lemma keys_update: "fst ` set (AList.update k v al) = insert k (fst ` set al)"
  by (simp add: dom_update)

lemma dxl2html_file_files:
  "fst ` set (is_files st) \<subseteq> fst ` set (is_files (snd (dxl2html_file env st g)))"
  "os_normpath (hc_os (pe_ctx env)) (html_page_path (pe_ctx env) g) \<in> fst ` set (is_files (snd (dxl2html_file env st g)))"
  by (auto simp: dxl2html_file_def Let_def write_file_def keys_update valid_includes_update_frame)

lemma analysed_hash_file_content: "analysed (hash_file_content env st g) = insert g (analysed st)"
  by (simp add: analysed_def hash_file_content_def Let_def keys_update)

subsection \<open>The include counter never decreases\<close>

lemma catch_le:
  assumes "c \<le> is_count_includes (snd r)" "\<And>s. r = (None, s) \<Longrightarrow> is_count_includes s \<le> is_count_includes (L s)"
  shows "c \<le> is_count_includes (case r of (Some e, s) \<Rightarrow> s | (None, s) \<Rightarrow> L s)"
  using assms by (cases r) (auto split: option.split intro: le_trans)

lemma count_includes_mono:
  "is_count_includes st \<le> is_count_includes (snd (includes_dxl2html env n st f))"
  "is_count_includes st \<le> is_count_includes (include_pages_loop env n f st incs)"
  "is_count_includes st \<le> is_count_includes (snd (analyse_inc env n st g))"
proof (induction env n st f and env n f st incs and env n st g rule: includes_dxl2html_include_pages_loop_analyse_inc.induct)
  case (4 env n dxl_file st inc rest)
  let ?st1 = "st\<lparr>is_include_dict := dict_append (is_include_dict st) inc dxl_file,
                 is_count_includes := Suc (is_count_includes st),
                 is_nb_inc_per_file := Suc (is_nb_inc_per_file st)\<rparr>"
  let ?c = "pe_complete env \<or> \<not> file_exists (hc_os (pe_ctx env)) ?st1 (include_page_path (pe_ctx env) inc)"
  have le1: "is_count_includes st \<le> is_count_includes ?st1" by simp
  show ?case
  proof (cases ?c)
    case True
    have "is_count_includes st \<le> is_count_includes (case analyse_inc env n ?st1 inc of
            (Some e, st2) \<Rightarrow> st2 | (None, st2) \<Rightarrow> include_pages_loop env n dxl_file st2 rest)"
      using True by (intro catch_le le_trans [OF le1 4(1) [OF refl refl refl refl]])
                    (auto intro: le_trans 4(2) [OF refl refl refl refl True])
    with True show ?thesis by (simp only: include_pages_loop.simps Let_def if_True)
  next
    case False
    have "is_count_includes st \<le> is_count_includes (case compare_hash_content ?st1 inc (hc_hash (pe_ctx env) (pe_content env inc)) of
            Inl e \<Rightarrow> ?st1
          | Inr True \<Rightarrow> include_pages_loop env n dxl_file ?st1 rest
          | Inr False \<Rightarrow> (case analyse_inc env n ?st1 inc of
               (Some e, st2) \<Rightarrow> st2 | (None, st2) \<Rightarrow> include_pages_loop env n dxl_file st2 rest))"
    proof (cases "compare_hash_content ?st1 inc (hc_hash (pe_ctx env) (pe_content env inc))")
      case (Inr b)
      show ?thesis
      proof (cases b)
        case True
        with Inr False show ?thesis using le_trans [OF le1 4(3) [OF refl refl refl refl False]] by simp
      next
        case b: False
        with Inr False show ?thesis
          by (simp, intro catch_le le_trans [OF le1 4(4) [OF refl refl refl refl False]])
             (auto intro: le_trans 4(5) [OF refl refl refl refl False])
      qed
    qed simp
    with False show ?thesis by (simp only: include_pages_loop.simps Let_def if_False)
  qed
next
  case (5 env n st inc)
  obtain e s1 where d: "dxl2html_file env (hash_file_content env st inc) inc = (e, s1)" by fastforce
  have "is_count_includes s1 = is_count_includes st"
    using dxl2html_file_frame(1) [of env "hash_file_content env st inc" inc] d
    by (simp add: hash_file_content_def Let_def)
  then show ?case
    using 5 d by (cases e) (auto simp: valid_includes_update_frame analyse_inc.simps)
qed (auto split: option.split)

subsection \<open>Complete mode\<close>

lemma analyse_inc_ok:
  assumes "include_valid_list env g = Some v" "page_ok env g v"
  shows "analyse_inc env n st g =
           includes_dxl2html env n (valid_includes_update env (snd (dxl2html_file env (hash_file_content env st g) g)) g) g \<and>
         map_of (is_valid (valid_includes_update env (snd (dxl2html_file env (hash_file_content env st g) g)) g)) g = Some v \<and>
         is_count_includes (valid_includes_update env (snd (dxl2html_file env (hash_file_content env st g) g)) g) =
           is_count_includes st"
proof -
  obtain errs where gv: "get_valid_includes (hc_os (pe_ctx env)) (hc_roots (pe_ctx env))
      (os_getsize (hc_os (pe_ctx env)) g) (hc_tokens (pe_ctx env) g) False = Some (errs, v)"
    using assms(1) by (auto simp: include_valid_list_def)
  obtain e s1 where d: "dxl2html_file env (hash_file_content env st g) g = (e, s1)" by fastforce
  have "e = None"
    using dxl2html_file_Some [OF gv, of "hash_file_content env st g"] assms(2) d by (simp add: page_ok_def)
  moreover have "is_count_includes s1 = is_count_includes st"
    using dxl2html_file_frame(1) [of env "hash_file_content env st g" g] d
    by (simp add: hash_file_content_def Let_def)
  ultimately show ?thesis
    by (simp add: d valid_includes_update_Some [OF gv] valid_includes_update_frame analyse_inc.simps)
qed

text \<open>
  Claim C25. In complete mode, an include cycle is never left by itself. Take a set
  \<open>C\<close> of files in which every file's first valid include lies again in \<open>C\<close>, and
  whose pages are written without exception. Then \<open>__includes_dxl2html\<close> on a file
  whose first valid include is in \<open>C\<close> counts at least one include per level, down to
  the recursion limit, whatever that limit is. The recursion ends only through
  \<open>RuntimeError\<close>, which the bare \<open>except\<close> swallows, after every page of the
  cycle has been rebuilt once per level.
\<close>

theorem complete_mode_cycle:
  assumes "pe_complete env"
    and "\<forall>g \<in> set C. \<exists>v. include_valid_list env g = Some v \<and> v \<noteq> [] \<and> hd v \<in> set C \<and> page_ok env g v"
    and "map_of (is_valid st) f = Some v" "v \<noteq> []" "hd v \<in> set C"
  shows "is_count_includes st + n \<le> is_count_includes (snd (includes_dxl2html env n st f))"
  using assms(3-5)
proof (induction n arbitrary: st f v)
  case (Suc n)
  obtain g rest where v: "v = g # rest" using Suc.prems(2) by (cases v) auto
  obtain vg where vg: "include_valid_list env g = Some vg" "vg \<noteq> []" "hd vg \<in> set C" "page_ok env g vg"
    using assms(2) Suc.prems(3) v by auto
  let ?st1 = "st\<lparr>is_include_dict := dict_append (is_include_dict st) g f,
                 is_count_includes := Suc (is_count_includes st),
                 is_nb_inc_per_file := Suc (is_nb_inc_per_file st)\<rparr>"
  let ?s = "valid_includes_update env (snd (dxl2html_file env (hash_file_content env ?st1 g) g)) g"
  have an: "analyse_inc env n ?st1 g = includes_dxl2html env n ?s g" "map_of (is_valid ?s) g = Some vg"
    "is_count_includes ?s = Suc (is_count_includes st)"
    using analyse_inc_ok [OF vg(1,4), of n ?st1] by simp_all
  have "is_count_includes ?s + n \<le> is_count_includes (snd (includes_dxl2html env n ?s g))"
    using Suc.IH [OF an(2) vg(2,3)] .
  then have "is_count_includes st + Suc n \<le> is_count_includes (case analyse_inc env n ?st1 g of
               (Some e, st2) \<Rightarrow> st2 | (None, st2) \<Rightarrow> include_pages_loop env n f st2 rest)"
    using an(1,3) by (intro catch_le) (auto intro: le_trans count_includes_mono(2))
  then show ?case
    using Suc.prems(1) v assms(1) by (simp)
qed simp

theorem complete_mode_cycle_witness:
  "is_count_includes cycle_state + 3 \<le> is_count_includes (snd (includes_dxl2html (cycle_env True) 3 cycle_state cyc_file))"
  by (rule complete_mode_cycle [where C = "[cyc_file]" and v = "[cyc_file]"])
     (simp_all add: cycle_valid cycle_page_ok cycle_state_def cycle_env_complete)


subsection \<open>Incremental mode\<close>

lemma inc_inv_counters:
  "inc_inv env S (st\<lparr>is_include_dict := d, is_count_includes := c, is_nb_inc_per_file := k\<rparr>) = inc_inv env S st"
  by (simp add: inc_inv_def valid_within_def hashes_ok_def disk_ok_def file_exists_def)

lemma valid_within_update:
  assumes "incremental_env env S" "valid_within S st"
  shows "valid_within S (valid_includes_update env st g)"
proof (cases "include_valid_list env g")
  case None
  then show ?thesis using assms(2)
    by (simp add: valid_includes_update_def include_valid_list_def Let_def split: option.split)
next
  case (Some v)
  then obtain errs where gv: "get_valid_includes (hc_os (pe_ctx env)) (hc_roots (pe_ctx env))
      (os_getsize (hc_os (pe_ctx env)) g) (hc_tokens (pe_ctx env) g) False = Some (errs, v)"
    by (auto simp: include_valid_list_def)
  have "set v \<subseteq> set S" using assms(1) Some by (simp add: incremental_env_def)
  then have vs: "set w \<subseteq> set S" if "(k, w) \<in> set (AList.update g v (is_valid st))" for k w
  proof -
    have "(k, w) = (g, v) \<or> (k, w) \<in> set (is_valid st)"
      using that set_update_subset [of g v "is_valid st"] by blast
    then show ?thesis
      using \<open>set v \<subseteq> set S\<close> assms(2) unfolding valid_within_def by blast
  qed
  have "valid_includes_update env st g = st\<lparr>is_valid := AList.update g v (is_valid st)\<rparr>"
    using gv by (simp add: valid_includes_update_def Let_def)
  with vs show ?thesis unfolding valid_within_def by auto
qed

lemma inc_inv_valid_update:
  "incremental_env env S \<Longrightarrow> inc_inv env S st \<Longrightarrow> inc_inv env S (valid_includes_update env st g)"
  by (simp add: inc_inv_def valid_within_update hashes_ok_def disk_ok_def file_exists_def valid_includes_update_frame)

lemma inc_inv_analyse:
  assumes "incremental_env env S" "inc_inv env S st"
  shows "inc_inv env S (snd (dxl2html_file env (hash_file_content env st g) g))"
    "analysed (snd (dxl2html_file env (hash_file_content env st g) g)) = insert g (analysed st)"
proof -
  let ?s1 = "hash_file_content env st g"
  let ?s2 = "snd (dxl2html_file env ?s1 g)"
  have mem: "is_hash_mem ?s2 = AList.update g (hc_hash (pe_ctx env) (pe_content env g)) (is_hash_mem st)"
    "is_hash_disk ?s2 = Some (is_hash_mem ?s2)"
    by (simp_all add: dxl2html_file_frame hash_file_content_def Let_def)
  have vw: "valid_within S ?s2"
    using valid_within_update [OF assms(1), of ?s1 g] assms(2)
    by (simp add: dxl2html_file_valid inc_inv_def valid_within_def hash_file_content_def Let_def)
  have fe: "file_exists (hc_os (pe_ctx env)) ?s2 (include_page_path (pe_ctx env) i)"
    if "i = g \<or> file_exists (hc_os (pe_ctx env)) st (include_page_path (pe_ctx env) i)" for i
  proof -
    have "fst ` set (is_files st) \<subseteq> fst ` set (is_files ?s2)"
      using dxl2html_file_files(1) [of ?s1 env g] by (simp add: hash_file_content_def Let_def)
    then show ?thesis
      using that dxl2html_file_files(2) [of env g ?s1] assms(1)
      by (auto simp: file_exists_def incremental_env_def)
  qed
  have "hashes_ok env ?s2"
    unfolding hashes_ok_def mem(1)
  proof (clarify)
    fix i h assume "(i, h) \<in> set (AList.update g (hc_hash (pe_ctx env) (pe_content env g)) (is_hash_mem st))"
    then have "(i, h) = (g, hc_hash (pe_ctx env) (pe_content env g)) \<or> (i, h) \<in> set (is_hash_mem st)"
      using set_update_subset by fastforce
    then show "h = hc_hash (pe_ctx env) (pe_content env i) \<and>
               file_exists (hc_os (pe_ctx env)) ?s2 (include_page_path (pe_ctx env) i)"
      using assms(2) fe unfolding inc_inv_def hashes_ok_def by blast
  qed
  with vw mem show "inc_inv env S ?s2" by (simp add: inc_inv_def disk_ok_def)
  show "analysed ?s2 = insert g (analysed st)"
    using mem(1) by (simp add: analysed_def keys_update)
qed

lemma card_diff_anti: "A \<subseteq> B \<Longrightarrow> card (set S - B) \<le> card (set S - A)"
  by (rule card_mono) auto

lemma card_diff_insert: "g \<in> set S \<Longrightarrow> g \<notin> A \<Longrightarrow> card (set S - insert g A) < card (set S - A)"
  by (metis Diff_insert card_Diff1_less finite_Diff finite_set DiffI)

lemma analysed_not_scanned:
  "inc_inv env S st \<Longrightarrow> i \<in> analysed st \<Longrightarrow> file_exists (hc_os (pe_ctx env)) st (include_page_path (pe_ctx env) i)"
  by (auto simp: inc_inv_def hashes_ok_def analysed_def)

lemma analysed_compare:
  "inc_inv env S st \<Longrightarrow> i \<in> analysed st \<Longrightarrow>
   compare_hash_content st i (hc_hash (pe_ctx env) (pe_content env i)) = Inr True"
proof -
  assume inv: "inc_inv env S st" and i: "i \<in> analysed st"
  then obtain h where h: "map_of (is_hash_mem st) i = Some h"
    by (auto simp: analysed_def dest: weak_map_of_SomeI)
  then have "h = hc_hash (pe_ctx env) (pe_content env i)"
    using inv by (auto simp: inc_inv_def hashes_ok_def dest: map_of_SomeD)
  moreover have "is_hash_disk st = Some (is_hash_mem st)"
    using inv i by (auto simp: inc_inv_def disk_ok_def analysed_def)
  ultimately show ?thesis using h by (simp add: compare_hash_content_def)
qed

lemma catch_step:
  assumes "a_m = a_n" "inc_inv env S (snd a_n)" "analysed st \<subseteq> analysed (snd a_n)"
    "\<And>s. a_n = (None, s) \<Longrightarrow> Lm s = Ln s \<and> inc_inv env S (Ln s) \<and> analysed s \<subseteq> analysed (Ln s)"
  shows "(case a_m of (Some e, s) \<Rightarrow> s | (None, s) \<Rightarrow> Lm s) = (case a_n of (Some e, s) \<Rightarrow> s | (None, s) \<Rightarrow> Ln s) \<and>
         inc_inv env S (case a_n of (Some e, s) \<Rightarrow> s | (None, s) \<Rightarrow> Ln s) \<and>
         analysed st \<subseteq> analysed (case a_n of (Some e, s) \<Rightarrow> s | (None, s) \<Rightarrow> Ln s)"
  using assms by (cases a_n) (auto split: option.split)

lemma incremental_fuel:
  "incremental_env env S \<Longrightarrow> inc_inv env S st \<Longrightarrow> card (set S - analysed st) < n \<Longrightarrow> n \<le> m \<Longrightarrow>
     includes_dxl2html env m st f = includes_dxl2html env n st f \<and>
     inc_inv env S (snd (includes_dxl2html env n st f)) \<and> analysed st \<subseteq> analysed (snd (includes_dxl2html env n st f))"
  "incremental_env env S \<Longrightarrow> inc_inv env S st \<Longrightarrow> set incs \<subseteq> set S \<Longrightarrow> card (set S - analysed st) \<le> n \<Longrightarrow> n \<le> m \<Longrightarrow>
     include_pages_loop env m f st incs = include_pages_loop env n f st incs \<and>
     inc_inv env S (include_pages_loop env n f st incs) \<and> analysed st \<subseteq> analysed (include_pages_loop env n f st incs)"
  "incremental_env env S \<Longrightarrow> inc_inv env S st \<Longrightarrow> g \<in> set S \<Longrightarrow> g \<notin> analysed st \<Longrightarrow>
     card (set S - analysed st) \<le> n \<Longrightarrow> n \<le> m \<Longrightarrow>
     analyse_inc env m st g = analyse_inc env n st g \<and>
     inc_inv env S (snd (analyse_inc env n st g)) \<and> analysed st \<subseteq> analysed (snd (analyse_inc env n st g))"
proof (induction env n st f and env n f st incs and env n st g arbitrary: m and m and m
       rule: includes_dxl2html_include_pages_loop_analyse_inc.induct)
  case (1 env st dxl_file)
  then show ?case by simp
next
  case (2 env n st dxl_file)
  then obtain m' where m: "m = Suc m'" by (cases m) auto
  show ?case
  proof (cases "map_of (is_valid st) dxl_file")
    case (Some incs)
    have "set incs \<subseteq> set S"
      using 2(3) Some by (auto simp: inc_inv_def valid_within_def dest!: map_of_SomeD)
    moreover have "card (set S - analysed st) \<le> n" "n \<le> m'" using 2(4,5) m by auto
    ultimately have "include_pages_loop env m' dxl_file st incs = include_pages_loop env n dxl_file st incs \<and>
        inc_inv env S (include_pages_loop env n dxl_file st incs) \<and>
        analysed st \<subseteq> analysed (include_pages_loop env n dxl_file st incs)"
      using 2(1) [OF Some 2(2,3)] by blast
    then show ?thesis by (simp add: Some m)
  qed (simp add: m 2(3))
next
  case (3 env n dxl_file st)
  then show ?case by simp
next
  case (4 env n dxl_file st inc rest)
  let ?st1 = "st\<lparr>is_include_dict := dict_append (is_include_dict st) inc dxl_file,
                 is_count_includes := Suc (is_count_includes st),
                 is_nb_inc_per_file := Suc (is_nb_inc_per_file st)\<rparr>"
  let ?c = "pe_complete env \<or> \<not> file_exists (hc_os (pe_ctx env)) ?st1 (include_page_path (pe_ctx env) inc)"
  let ?cmp = "compare_hash_content ?st1 inc (hc_hash (pe_ctx env) (pe_content env inc))"
  let ?L = "\<lambda>k s. include_pages_loop env k dxl_file s rest"
  have inv1: "inc_inv env S ?st1" using 4(7) by (simp add: inc_inv_counters)
  have an1: "analysed ?st1 = analysed st" by (simp add: analysed_def)
  have nc: "\<not> pe_complete env" using 4(6) by (simp add: incremental_env_def)
  have inS: "inc \<in> set S" "set rest \<subseteq> set S" using 4(8) by auto
  have rest: "?L m s = ?L n s \<and> inc_inv env S (?L n s) \<and> analysed s \<subseteq> analysed (?L n s)"
    if ih: "\<And>m. incremental_env env S \<Longrightarrow> inc_inv env S s \<Longrightarrow> set rest \<subseteq> set S \<Longrightarrow>
              card (set S - analysed s) \<le> n \<Longrightarrow> n \<le> m \<Longrightarrow>
              ?L m s = ?L n s \<and> inc_inv env S (?L n s) \<and> analysed s \<subseteq> analysed (?L n s)"
      and "inc_inv env S s" "analysed st \<subseteq> analysed s" for s
  proof -
    have "card (set S - analysed s) \<le> n" using le_trans [OF card_diff_anti [OF that(3)] 4(9)] .
    then show ?thesis using ih [OF 4(6) that(2) inS(2) _ 4(10)] by blast
  qed
  show ?case
  proof (cases ?c)
    case True
    have "inc \<notin> analysed st"
      using True nc analysed_not_scanned [OF 4(7)] by (auto simp: file_exists_def)
    then have "inc \<notin> analysed ?st1" "card (set S - analysed ?st1) \<le> n" using an1 4(9) by simp_all
    then have A: "analyse_inc env m ?st1 inc = analyse_inc env n ?st1 inc \<and>
        inc_inv env S (snd (analyse_inc env n ?st1 inc)) \<and> analysed ?st1 \<subseteq> analysed (snd (analyse_inc env n ?st1 inc))"
      by (rule 4(1) [OF refl refl refl refl True 4(6) inv1 inS(1) _ _ 4(10)])
    have "(case analyse_inc env m ?st1 inc of (Some e, s) \<Rightarrow> s | (None, s) \<Rightarrow> ?L m s) =
          (case analyse_inc env n ?st1 inc of (Some e, s) \<Rightarrow> s | (None, s) \<Rightarrow> ?L n s) \<and>
          inc_inv env S (case analyse_inc env n ?st1 inc of (Some e, s) \<Rightarrow> s | (None, s) \<Rightarrow> ?L n s) \<and>
          analysed st \<subseteq> analysed (case analyse_inc env n ?st1 inc of (Some e, s) \<Rightarrow> s | (None, s) \<Rightarrow> ?L n s)"
    proof (rule catch_step)
      fix s assume eq: "analyse_inc env n ?st1 inc = (None, s)"
      have "inc_inv env S s" "analysed st \<subseteq> analysed s" using A an1 eq by auto
      then show "?L m s = ?L n s \<and> inc_inv env S (?L n s) \<and> analysed s \<subseteq> analysed (?L n s)"
        using rest [OF 4(2) [OF refl refl refl refl True eq [symmetric] refl]] by blast
    qed (use A an1 in auto)
    with True show ?thesis by (simp only: include_pages_loop.simps Let_def if_True)
  next
    case False
    let ?R = "\<lambda>k. case ?cmp of Inl e \<Rightarrow> ?st1 | Inr True \<Rightarrow> ?L k ?st1
                 | Inr False \<Rightarrow> (case analyse_inc env k ?st1 inc of (Some e, s) \<Rightarrow> s | (None, s) \<Rightarrow> ?L k s)"
    have "?R m = ?R n \<and> inc_inv env S (?R n) \<and> analysed st \<subseteq> analysed (?R n)"
    proof (cases ?cmp)
      case (Inl e)
      with inv1 an1 show ?thesis by simp
    next
      case (Inr b)
      show ?thesis
      proof (cases b)
        case True
        with Inr rest [OF 4(3) [OF refl refl refl refl False] inv1] an1 show ?thesis by simp
      next
        case bF: False
        then have bf: "b = False" by simp
        have "inc \<notin> analysed st"
          using analysed_compare [OF inv1, of inc] Inr bF an1 by auto
        then have "inc \<notin> analysed ?st1" "card (set S - analysed ?st1) \<le> n" using an1 4(9) by simp_all
        then have A: "analyse_inc env m ?st1 inc = analyse_inc env n ?st1 inc \<and>
            inc_inv env S (snd (analyse_inc env n ?st1 inc)) \<and> analysed ?st1 \<subseteq> analysed (snd (analyse_inc env n ?st1 inc))"
          by (rule 4(4) [OF refl refl refl refl False Inr bf 4(6) inv1 inS(1) _ _ 4(10)])
        have "(case analyse_inc env m ?st1 inc of (Some e, s) \<Rightarrow> s | (None, s) \<Rightarrow> ?L m s) =
              (case analyse_inc env n ?st1 inc of (Some e, s) \<Rightarrow> s | (None, s) \<Rightarrow> ?L n s) \<and>
              inc_inv env S (case analyse_inc env n ?st1 inc of (Some e, s) \<Rightarrow> s | (None, s) \<Rightarrow> ?L n s) \<and>
              analysed st \<subseteq> analysed (case analyse_inc env n ?st1 inc of (Some e, s) \<Rightarrow> s | (None, s) \<Rightarrow> ?L n s)"
        proof (rule catch_step)
          fix s assume eq: "analyse_inc env n ?st1 inc = (None, s)"
          have "inc_inv env S s" "analysed st \<subseteq> analysed s" using A an1 eq by auto
          then show "?L m s = ?L n s \<and> inc_inv env S (?L n s) \<and> analysed s \<subseteq> analysed (?L n s)"
            using rest [OF 4(5) [OF refl refl refl refl False Inr bf eq [symmetric] refl]] by blast
        qed (use A an1 in auto)
        with Inr bF show ?thesis by (simp del: analyse_inc.simps)
      qed
    qed
    with False show ?thesis by (simp only: include_pages_loop.simps Let_def if_False)
  qed
next
  case (5 env n st inc)
  obtain e s2 where d: "dxl2html_file env (hash_file_content env st inc) inc = (e, s2)" by fastforce
  have inv2: "inc_inv env S s2" "analysed s2 = insert inc (analysed st)"
    using inc_inv_analyse [OF 5(2,3), of inc] d by simp_all
  show ?case
  proof (cases e)
    case None
    let ?s3 = "valid_includes_update env s2 inc"
    have inv3: "inc_inv env S ?s3" "analysed ?s3 = insert inc (analysed st)"
      using inc_inv_valid_update [OF 5(2) inv2(1)] inv2(2)
      by (simp_all add: analysed_def valid_includes_update_frame)
    have "card (set S - analysed ?s3) < n"
      using card_diff_insert [OF 5(4,5)] 5(6) inv3(2) by simp
    then have "includes_dxl2html env m ?s3 inc = includes_dxl2html env n ?s3 inc \<and>
       inc_inv env S (snd (includes_dxl2html env n ?s3 inc)) \<and> analysed ?s3 \<subseteq> analysed (snd (includes_dxl2html env n ?s3 inc))"
      using 5(1) [OF d [symmetric] None 5(2) inv3(1)] 5(7) by blast
    with None d inv3(2) show ?thesis by (auto simp: analyse_inc.simps)
  next
    case (Some x)
    with d inv2 show ?thesis by (auto simp: analyse_inc.simps)
  qed
qed


text \<open>
  Claim C24. In incremental mode the recursion stops by itself. Take the
  \<open>complete\<close> option off, let every list of valid includes lie in a finite set
  \<open>S\<close> of files, and let the page \<open>__dxl2html\<close> writes be the one the loop
  looks for. From a state satisfying \<open>inc_inv\<close> (at the start of a run: nothing
  hashed), give the recursion a depth budget above the number of files of \<open>S\<close> not
  yet hashed. Then every larger budget gives the same result: no include is
  analysed twice in a run, and the recursion limit is never reached.
\<close>

theorem incremental_mode_terminates:
  assumes "\<not> pe_complete env"
    and "\<forall>g v. include_valid_list env g = Some v \<longrightarrow> set v \<subseteq> set S"
    and "\<forall>i. os_normpath (hc_os (pe_ctx env)) (html_page_path (pe_ctx env) i) =
             os_normpath (hc_os (pe_ctx env)) (include_page_path (pe_ctx env) i)"
    and "inc_inv env S st" "card (set S - analysed st) < n" "n \<le> m"
  shows "includes_dxl2html env m st f = includes_dxl2html env n st f"
  using incremental_fuel(1) [of env S st n m f] assms by (simp add: incremental_env_def)

theorem incremental_mode_terminates_witness:
  "includes_dxl2html (cycle_env False) 7 cycle_state cyc_file = includes_dxl2html (cycle_env False) 2 cycle_state cyc_file"
  by (rule incremental_mode_terminates [where S = "[cyc_file]"])
     (simp_all add: cycle_env_complete cycle_valid cycle_paths cycle_state_def inc_inv_def valid_within_def
        hashes_ok_def disk_ok_def analysed_def)

text \<open>
  Claim C26. In incremental mode, a stale hash file ends a file's include loop.
  Once this run has hashed an include, \<open>hash_content.txt\<close> holds only this run's
  hashes, because the dict is pickled whole and starts empty. Take a file whose
  first include has a page from an earlier run but has not been hashed in this run.
  The hash lookup raises KeyError, the bare \<open>except\<close> swallows it, and the loop
  over the file's includes ends there. The file's other includes are neither
  counted nor visited.
\<close>

theorem incremental_unhashed_page_stops_loop:
  assumes "\<not> pe_complete env" "map_of (is_valid st) f = Some (inc # rest)"
    and "is_hash_disk st = Some (is_hash_mem st)" "map_of (is_hash_mem st) inc = None"
    and "os_exists (hc_os (pe_ctx env)) (include_page_path (pe_ctx env) inc)"
  shows "includes_dxl2html env (Suc n) st f =
           (None, st\<lparr>is_include_dict := dict_append (is_include_dict st) inc f,
                     is_count_includes := Suc (is_count_includes st),
                     is_nb_inc_per_file := Suc (is_nb_inc_per_file st)\<rparr>)"
  using assms by (simp add: file_exists_def compare_hash_content_def Let_def)


theorem incremental_unhashed_page_stops_loop_witness:
  "includes_dxl2html stale_env 5 stale_state cyc_file =
     (None, stale_state\<lparr>is_include_dict := [(stale_inc, [cyc_file])], is_count_includes := 1, is_nb_inc_per_file := 1\<rparr>)"
proof -
  have "includes_dxl2html stale_env (Suc 4) stale_state cyc_file =
     (None, stale_state\<lparr>is_include_dict := dict_append (is_include_dict stale_state) stale_inc cyc_file,
                     is_count_includes := Suc (is_count_includes stale_state),
                     is_nb_inc_per_file := Suc (is_nb_inc_per_file stale_state)\<rparr>)"
    by (rule incremental_unhashed_page_stops_loop [where rest = "[cyc_file]"])
       (simp_all add: stale_env_def stale_state_def cycle_state_def cycle_env_def stale_inc_def cyc_file_def
          include_page_path_def sample_ctx_def win_os_def toy_os_def backslash_def)
  then show ?thesis
    by (simp add: stale_state_def cycle_state_def dict_append_def numeral_eq_Suc)
qed

end
