(* ===== verification/Lexer.thy ===== *)
theory Lexer
  imports Html
begin

text \<open>
  The parts of \<open>src/dxl_lexer.py\<close> around the ply rules:
  \<^item> the reserved-word table \<open>reserved_map\<close> (lines 67--82) and \<open>t_ID\<close> (203--207);
  \<^item> the line and column bookkeeping of \<open>t_newline\<close> (209--212), \<open>t_C_COMMENT\<close> and
    \<open>t_CPP_COMMENT\<close> (193--201);
  \<^item> \<open>Lexer.init\<close> (366--401), which groups the tokens by line into \<open>tok_dict\<close>, the
    input of \<open>__dxl2html\<close>.

  The regular expressions themselves are not modelled. The input is the sequence
  of matches ply makes: for each, the rule that matched, the text and its start
  position \<open>lexpos\<close>. Spaces and tabs (\<open>t_ANY_ignore\<close>) and skipped characters
  produce no match.
\<close>

subsection \<open>Reserved words\<close>

text \<open>The ASCII letters, the case mapping of Python 2 byte strings.\<close>

definition ascii_upper :: string where
  "ascii_upper = ''ABCDEFGHIJKLMNOPQRSTUVWXYZ''"

definition ascii_lower :: string where
  "ascii_lower = ''abcdefghijklmnopqrstuvwxyz''"

definition py_lower_char :: "char \<Rightarrow> char" where
  "py_lower_char c = (case map_of (zip ascii_upper ascii_lower) c of Some d \<Rightarrow> d | None \<Rightarrow> c)"

definition py_upper_char :: "char \<Rightarrow> char" where
  "py_upper_char c = (case map_of (zip ascii_lower ascii_upper) c of Some d \<Rightarrow> d | None \<Rightarrow> c)"

text \<open>\<open>s.lower()\<close> and \<open>s.capitalize()\<close> on ASCII strings.\<close>

definition py_lower :: "string \<Rightarrow> string" where
  "py_lower s = map py_lower_char s"

fun py_capitalize :: "string \<Rightarrow> string" where
  "py_capitalize [] = []"
| "py_capitalize (c # cs) = py_upper_char c # py_lower cs"

text \<open>Lines 67--82: base words are lower-cased; \<open>DB\<close> and \<open>DBE\<close> stay as they are;
  \<open>TOK_TOK\<close> becomes \<open>TokTok\<close> (the first two pieces only); the others are
  capitalised.\<close>

definition reserved_other_key :: "tok_type \<Rightarrow> string" where
  "reserved_other_key other_type =
     (if other_type \<in> set [''DB'', ''DBE''] then other_type
      else if CHR ''_'' \<in> set other_type
      then let type_list = py_split CHR ''_'' other_type
           in py_capitalize (type_list ! 0) @ py_capitalize (type_list ! 1)
      else py_capitalize other_type)"

definition reserved_map :: "(string, tok_type) pydict" where
  "reserved_map =
     foldl (\<lambda>d other_type. AList.update (reserved_other_key other_type) other_type d)
       (foldl (\<lambda>d base_type. AList.update (py_lower base_type) base_type d) [] reserved_base)
       reserved_other"

text \<open>\<open>t_ID\<close> (203--207): an identifier that is a key of the table takes its kind.\<close>

definition t_ID :: "string \<Rightarrow> tok_type" where
  "t_ID v = (case map_of reserved_map v of Some t \<Rightarrow> t | None \<Rightarrow> ''ID'')"

subsection \<open>Lines and columns\<close>

text \<open>A match of one ply rule: the rule's token kind (\<open>''newline''\<close> for
  \<open>t_newline\<close>), the matched text, and its start position.\<close>

datatype raw_match = RawMatch tok_type string nat

text \<open>The lexer's counters: \<open>lexer.lineno\<close> (1 after \<open>build\<close>) and
  \<open>__last_newline_lexpos\<close> (0 after \<open>__init__\<close>, lines 5--6).\<close>

record lex_state =
  ls_lineno :: nat
  ls_last_newline_lexpos :: nat

definition lex_init :: lex_state where
  "lex_init = \<lparr>ls_lineno = 1, ls_last_newline_lexpos = 0\<rparr>"

abbreviation nl :: char where
  "nl \<equiv> CHR 0x0A"

text \<open>One match. ply gives the token the current \<open>lineno\<close> and its start position,
  then runs the rule's function: \<open>t_newline\<close> counts its newlines and records the
  end of the match; the two comment rules count the newlines they contain; \<open>t_ID\<close>
  looks the word up. A newline returns no token.\<close>

definition lex_match :: "lex_state \<Rightarrow> raw_match \<Rightarrow> lex_state \<times> lex_token option" where
  "lex_match st m =
     (case m of RawMatch ty v p \<Rightarrow>
        if ty = ''newline''
        then (st\<lparr>ls_lineno := ls_lineno st + count_list v nl, ls_last_newline_lexpos := p + length v\<rparr>, None)
        else
          (if ty \<in> set [''C_COMMENT'', ''CPP_COMMENT''] then st\<lparr>ls_lineno := ls_lineno st + count_list v nl\<rparr> else st,
           Some \<lparr>tok_value = v, tok_type = (if ty = ''ID'' then t_ID v else ty),
                 tok_lineno = ls_lineno st, tok_lexpos = p\<rparr>))"

text \<open>Lines 383--398: the rewriting of comment values for HTML, \<open>system\<close> calls
  taken for \<open>FUNCTION\<close>, and the column, measured from the end of the last newline
  match.\<close>

definition init_value :: "tok_type \<Rightarrow> string \<Rightarrow> string" where
  "init_value ty v =
     (if ty = ''CPP_COMMENT''
      then (if py_startswith v ''//#include'' \<or> py_startswith v ''// #include''
            then py_replace_char CHR ''>'' ''&gt'' (py_replace_char CHR ''<'' ''&lt'' v) else v)
      else if ty = ''C_COMMENT''
      then py_replace_char CHR '' '' ''&nbsp;'' (py_replace_char (CHR 0x09) (py_str_mul ''&nbsp;'' 8)
             (py_replace_char nl (''<br>'' @ [nl]) v))
      else if ty = ''NESTEDCODE'' then py_replace_char nl (''<br>'' @ [nl]) v
      else v)"

definition init_token :: "lex_state \<Rightarrow> lex_token \<Rightarrow> html_tok" where
  "init_token st tok =
     \<lparr>ht_value = init_value (tok_type tok) (tok_value tok),
      ht_type = (if tok_type tok = ''FUNCTION'' \<and> take 6 (tok_value tok) = ''system'' then ''SYS_CALL'' else tok_type tok),
      ht_line = tok_lineno tok,
      ht_column = tok_lexpos tok - ls_last_newline_lexpos st\<rparr>"

text \<open>Lines 374--401: the loop of \<open>init\<close> over \<open>lexer.token()\<close>.\<close>

definition init_step ::
  "lex_state \<times> (line, html_tok list) pydict \<Rightarrow> raw_match \<Rightarrow> lex_state \<times> (line, html_tok list) pydict" where
  "init_step s m =
     (let (st, tok_dict) = s; (st', tok) = lex_match st m
      in case tok of
           None \<Rightarrow> (st', tok_dict)
         | Some t \<Rightarrow> (st', dict_append tok_dict (tok_lineno t) (init_token st' t)))"

definition lexer_init :: "raw_match list \<Rightarrow> (line, html_tok list) pydict" where
  "lexer_init ms = snd (foldl init_step (lex_init, []) ms)"

text \<open>The token stream of a run, each token with the counters when it was made.\<close>

fun lex_run :: "lex_state \<Rightarrow> raw_match list \<Rightarrow> html_tok list" where
  "lex_run st [] = []"
| "lex_run st (m # ms) =
     (case lex_match st m of
        (st', None) \<Rightarrow> lex_run st' ms
      | (st', Some t) \<Rightarrow> init_token st' t # lex_run st' ms)"

subsection \<open>Grouping by line\<close>

lemma dict_append_max:
  "sorted (map fst d) \<Longrightarrow> distinct (map fst d) \<Longrightarrow> \<forall>k' \<in> set (map fst d). k' \<le> k \<Longrightarrow>
   concat (map snd (dict_append d k x)) = concat (map snd d) @ [x] \<and>
   map fst (dict_append d k x) = (if k \<in> set (map fst d) then map fst d else map fst d @ [k])"
proof (induction d)
  case Nil
  then show ?case by (simp add: dict_append_def)
next
  case (Cons p d)
  obtain a b where p: "p = (a, b)" by fastforce
  show ?case
  proof (cases "a = k")
    case True
    then have "d = []" using Cons.prems p by (cases d) auto
    with True p show ?thesis by (simp add: dict_append_def)
  next
    case False
    then have "dict_append ((a, b) # d) k x = (a, b) # dict_append d k x"
      by (simp add: dict_append_def)
    with Cons False p show ?thesis by auto
  qed
qed

lemma lex_match_lineno:
  "lex_match st m = (st', t) \<Longrightarrow> ls_lineno st \<le> ls_lineno st' \<and> (\<forall>tok. t = Some tok \<longrightarrow> tok_lineno tok = ls_lineno st)"
  by (cases m) (auto simp: lex_match_def split: if_splits)

lemma init_fold:
  "sorted (map fst d) \<Longrightarrow> distinct (map fst d) \<Longrightarrow> \<forall>k \<in> set (map fst d). k \<le> ls_lineno st \<Longrightarrow>
   foldl init_step (st, d) ms = (st', d') \<Longrightarrow>
   concat (map snd d') = concat (map snd d) @ lex_run st ms \<and> sorted (map fst d') \<and> distinct (map fst d')"
proof (induction ms arbitrary: st d)
  case (Cons m ms)
  obtain s1 t where lm: "lex_match st m = (s1, t)" by fastforce
  have mono: "ls_lineno st \<le> ls_lineno s1" and tl: "\<And>tok. t = Some tok \<Longrightarrow> tok_lineno tok = ls_lineno st"
    using lex_match_lineno [OF lm] by auto
  show ?case
  proof (cases t)
    case None
    have st: "init_step (st, d) m = (s1, d)" by (simp add: init_step_def lm None)
    have "foldl init_step (s1, d) ms = (st', d')" using Cons.prems(4) st by simp
    moreover have "\<forall>k \<in> set (map fst d). k \<le> ls_lineno s1" using Cons.prems(3) mono by auto
    ultimately show ?thesis
      using Cons.IH [of d s1] Cons.prems(1,2) lm None by simp
  next
    case (Some tok)
    let ?d1 = "dict_append d (ls_lineno st) (init_token s1 tok)"
    have st: "init_step (st, d) m = (s1, ?d1)" by (simp add: init_step_def lm Some tl)
    have da: "concat (map snd ?d1) = concat (map snd d) @ [init_token s1 tok]"
      "map fst ?d1 = (if ls_lineno st \<in> set (map fst d) then map fst d else map fst d @ [ls_lineno st])"
      using dict_append_max [OF Cons.prems(1,2,3)] by auto
    have "sorted (map fst ?d1) \<and> distinct (map fst ?d1) \<and> (\<forall>k \<in> set (map fst ?d1). k \<le> ls_lineno s1)"
      using da(2) Cons.prems(1,2,3) mono by (auto simp: sorted_append)
    moreover have "foldl init_step (s1, ?d1) ms = (st', d')" using Cons.prems(4) st by simp
    ultimately show ?thesis
      using Cons.IH [of ?d1 s1] lm Some da(1) by simp
  qed
qed simp

text \<open>
  Claim C28. \<open>Lexer.init\<close> loses no token and keeps their order. The lines of
  \<open>tok_dict\<close> come in increasing order, each once. Reading the dict line by line
  gives back the token stream of the run, because \<open>lineno\<close> never decreases.
\<close>

theorem lexer_init_roundtrip:
  "concat (map snd (lexer_init ms)) = lex_run lex_init ms \<and>
   sorted (map fst (lexer_init ms)) \<and> distinct (map fst (lexer_init ms))"
  using init_fold [of "[]" lex_init ms "fst (foldl init_step (lex_init, []) ms)" "lexer_init ms"]
  by (simp add: lexer_init_def)


subsection \<open>Columns after a block comment\<close>

lemma length_takeWhile_lt: "\<exists>x\<in>set xs. \<not> P x \<Longrightarrow> length (takeWhile P xs) < length xs"
  by (induction xs) auto

text \<open>
  Claim C29. Columns do not restart inside a block comment. The spec says columns
  restart at each newline. A token that follows a multi-line C comment on the
  comment's last line instead gets its offset from the end of the last newline
  match before the comment: \<open>t_C_COMMENT\<close> counts lines but does not move
  \<open>__last_newline_lexpos\<close>. That offset is larger than the column on its line.
\<close>

theorem init_column_after_block_comment:
  assumes "nl \<in> set v" "ty \<noteq> ''newline''" "ls_last_newline_lexpos st \<le> p" "p + length v \<le> q"
  shows "ht_column (lex_run st [RawMatch ''C_COMMENT'' v p, RawMatch ty w q] ! 1) = q - ls_last_newline_lexpos st \<and>
         ht_line (lex_run st [RawMatch ''C_COMMENT'' v p, RawMatch ty w q] ! 1) = ls_lineno st + count_list v nl \<and>
         q - (p + length v - length (takeWhile (\<lambda>c. c \<noteq> nl) (rev v))) < q - ls_last_newline_lexpos st"
proof -
  have "length (takeWhile (\<lambda>c. c \<noteq> nl) (rev v)) < length v"
    using length_takeWhile_lt [of "rev v" "\<lambda>c. c \<noteq> nl"] assms(1) by auto
  with assms(3,4) have lt: "q - (p + length v - length (takeWhile (\<lambda>c. c \<noteq> nl) (rev v))) < q - ls_last_newline_lexpos st"
    by linarith
  have "ht_column (lex_run st [RawMatch ''C_COMMENT'' v p, RawMatch ty w q] ! 1) = q - ls_last_newline_lexpos st \<and>
        ht_line (lex_run st [RawMatch ''C_COMMENT'' v p, RawMatch ty w q] ! 1) = ls_lineno st + count_list v nl"
    using assms(2) by (simp add: lex_match_def init_token_def)
  with lt show ?thesis by blast
qed

theorem init_column_after_block_comment_witness:
  "ht_column (lex_run lex_init [RawMatch ''C_COMMENT'' (''/* a'' @ [nl] @ ''b */'') 0, RawMatch ''ID'' ''x'' 10] ! 1) = 10 \<and>
   ht_line (lex_run lex_init [RawMatch ''C_COMMENT'' (''/* a'' @ [nl] @ ''b */'') 0, RawMatch ''ID'' ''x'' 10] ! 1) = 2 \<and>
   (5::nat) < 10"
  using init_column_after_block_comment [of "''/* a'' @ [nl] @ ''b */''" "''ID''" lex_init 0 10 "''x''"]
  by (simp add: lex_init_def)

end
