(* ===== verification/Tree.thy ===== *)
theory Tree
  imports Batch Html
begin

text \<open>
  The directory tree of the scanned menus and its HTML page, in
  \<open>src/dxl-analyzer/dxl_scan.py\<close>. \<open>__make_tree\<close> (295--322) turns an
  \<open>os.walk\<close> of a root into nested dicts: a directory is a dict, a file is its full
  path. \<open>__dict2list\<close> and \<open>__get_dxl_files\<close> (447--475) list the \<open>.dxl\<close> files of
  the trees; this is the list \<open>__check_files\<close> scans. \<open>__gen_html\<close> (390--414) writes
  the tree page, which links only the files \<open>__file_exec_by_doors\<close> (776--807) finds
  executable by DOORS. \<open>__list_html_files\<close> (554--558) maps each page of the
  output directory to the name the file list shows. The file system is the environment \<open>tree_env\<close>: the walk, the
  directory listings and the file contents are its functions.
\<close>

record tree_env =
  te_os :: os_iface
  te_sep :: char                                  \<comment> \<open>\<open>os.sep\<close>\<close>
  te_walk :: "path \<Rightarrow> (path \<times> string list \<times> string list) list"   \<comment> \<open>\<open>os.walk\<close>\<close>
  te_dirname :: "path \<Rightarrow> path"                   \<comment> \<open>\<open>os.path.dirname\<close>\<close>
  te_listdir :: "path \<Rightarrow> string list"            \<comment> \<open>\<open>os.listdir\<close>\<close>
  te_splitext :: "string \<Rightarrow> string \<times> string"     \<comment> \<open>\<open>os.path.splitext\<close>\<close>
  te_read :: "path \<Rightarrow> string"                    \<comment> \<open>\<open>open(p).read()\<close>\<close>
  te_tokens :: "path \<Rightarrow> lex_token list"          \<comment> \<open>the lexed content of a file\<close>
  te_hash :: "string \<Rightarrow> string"                  \<comment> \<open>\<open>__get_hash\<close>\<close>
  te_extra_directory :: "path list"               \<comment> \<open>\<open>__extra_directory\<close>\<close>

text \<open>A value of the nested dicts: a sub-dict for a directory, a path for a file.\<close>

datatype dir_tree = DirNode "(string \<times> dir_tree) list" | FileLeaf path

type_synonym tree_dict = "(string, dir_tree) pydict"

subsection \<open>Building the tree\<close>

text \<open>Lines 314--318: \<open>parent = dict.get(parent, folder)\<close> for each folder, then
  \<open>parent[folders[-1]] = subdir\<close>, which mutates the dict nested in \<open>dir_path\<close>.
  A folder that is missing gives \<open>None\<close>, and a file gives a string: the next
  \<open>dict.get\<close> or the assignment then raises \<open>TypeError\<close>.\<close>

fun tree_put :: "string list \<Rightarrow> string \<Rightarrow> tree_dict \<Rightarrow> tree_dict \<Rightarrow> py_exc + tree_dict" where
  "tree_put [] k subdir parent = Inr (AList.update k (DirNode subdir) parent)"
| "tree_put (folder # folders) k subdir parent =
     (case map_of parent folder of
        Some (DirNode d) \<Rightarrow>
          (case tree_put folders k subdir d of
             Inl e \<Rightarrow> Inl e
           | Inr d' \<Rightarrow> Inr (AList.update folder (DirNode d') parent))
      | _ \<Rightarrow> Inl TypeError)"

text \<open>Line 301: \<open>root_dir.rfind(os.sep) + 1\<close>, which is 0 when there is no separator.\<close>

definition rfind_start :: "char \<Rightarrow> string \<Rightarrow> nat" where
  "rfind_start sep s = length s - length (takeWhile (\<lambda>c. c \<noteq> sep) (rev s))"

text \<open>Lines 303--318: one directory of the walk.\<close>

definition make_tree_step ::
  "tree_env \<Rightarrow> path \<Rightarrow> nat \<Rightarrow> tree_dict \<Rightarrow> path \<times> string list \<times> string list \<Rightarrow> py_exc + tree_dict" where
  "make_tree_step env root_dir start dir_path w =
     (let (path, dirs, files) = w; sep = te_sep env
      in if py_startswith path ''K'' then
           let folders0 = py_split sep (drop start path);
               folders = (if hd folders0 = os_basename (te_os env) root_dir
                          then root_dir # tl folders0 else folders0);
               subdir = foldl (\<lambda>sd file. AList.update file (FileLeaf (path @ [sep] @ file)) sd) [] files
           in tree_put (butlast folders) (last folders) subdir dir_path
         else Inr dir_path)"

text \<open>\<open>__make_tree\<close> (295--320).\<close>

definition make_tree :: "tree_env \<Rightarrow> path \<Rightarrow> py_exc + tree_dict" where
  "make_tree env root_dir0 =
     (let root_dir = py_rstrip (te_sep env) root_dir0;
          start = rfind_start (te_sep env) root_dir
      in foldl_exc (make_tree_step env root_dir start) [] (te_walk env root_dir))"

text \<open>\<open>__save_tree\<close> (377--386) pickles one tree per menu directory.\<close>

definition save_tree :: "tree_env \<Rightarrow> path list \<Rightarrow> py_exc + tree_dict list" where
  "save_tree env dxl_menu =
     foldl_exc (\<lambda>acc m. case make_tree env m of Inl e \<Rightarrow> Inl e | Inr t \<Rightarrow> Inr (acc @ [t])) [] dxl_menu"

subsection \<open>The files of the tree\<close>

text \<open>\<open>__dict2list\<close> (447--459): appends the \<open>.dxl\<close> files to the list it is given.\<close>

fun dict2list :: "tree_dict \<Rightarrow> path list \<Rightarrow> path list" where
  "dict2list [] acc = acc"
| "dict2list ((k, DirNode d) # items) acc = dict2list items (dict2list d acc)"
| "dict2list ((k, FileLeaf v) # items) acc =
     dict2list items (if py_endswith k ''.dxl'' then acc @ [v] else acc)"

text \<open>\<open>__get_dxl_files\<close> (462--475), after the pickle is read back.\<close>

definition get_dxl_files :: "tree_dict list \<Rightarrow> path list" where
  "get_dxl_files dict_list = foldl (\<lambda>acc dict_obj. acc @ dict2list dict_obj []) [] dict_list"

subsection \<open>Executable files\<close>

text \<open>Lines 791--794: a file under one of the extra directories.\<close>

definition in_extra_dir :: "tree_env \<Rightarrow> path \<Rightarrow> bool \<Rightarrow> bool" where
  "in_extra_dir env dxl_file e =
     foldl (\<lambda>e extra_dir. if py_startswith (os_normpath (te_os env) dxl_file) (os_normpath (te_os env) extra_dir)
                         then True else e) e (te_extra_directory env)"

text \<open>Lines 797--804: a \<open>.idx\<close> file of the file's directory that mentions its stem.\<close>

definition in_idx_file :: "tree_env \<Rightarrow> path \<Rightarrow> bool \<Rightarrow> bool" where
  "in_idx_file env dxl_file e =
     (let file_dir = te_dirname env dxl_file;
          stem = fst (te_splitext env (os_basename (te_os env) dxl_file))
      in foldl (\<lambda>e filename.
                  if snd (te_splitext env filename) = ''.idx''
                     \<and> py_contains (te_read env (file_dir @ [te_sep env] @ filename)) stem
                  then True else e) e (te_listdir env file_dir))"

text \<open>\<open>__file_exec_by_doors\<close> (776--807).\<close>

definition file_exec_by_doors :: "tree_env \<Rightarrow> path \<Rightarrow> bool" where
  "file_exec_by_doors env dxl_file =
     (let fs = os_getsize (te_os env) dxl_file
      in if size_cap < fs then False
         else let is_exec_by_doors0 = is_exec_by_doors (get_tokens (te_tokens env dxl_file))
              in in_idx_file env dxl_file (in_extra_dir env dxl_file is_exec_by_doors0))"

subsection \<open>The tree page\<close>

record tree_page =
  tp_out :: "string list"        \<comment> \<open>the strings written to the page\<close>
  tp_count_dirs :: nat           \<comment> \<open>\<open>__count_dirs\<close>\<close>

definition tree_dir_open :: string where
  "tree_dir_open = ''<li style='' @ sq @ ''list-style-type: none;'' @ sq @ ''><b>&#9492;&#9472; ''"

definition tree_link_open :: string where
  "tree_link_open = ''<li style='' @ sq @ ''list-style-type: none;'' @ sq @ ''>&#9492;&#9472; <a href='' @ sq @ ''dxl_files/''"

text \<open>Lines 405--413: the anchor of an executable file.\<close>

definition tree_link :: "tree_env \<Rightarrow> path \<Rightarrow> string" where
  "tree_link env v =
     tree_link_open @ py_replace_char (CHR '' '') ''%20'' (te_hash env v @ ''_'' @ os_basename (te_os env) v)
     @ ''.html'' @ sq @ ''>''"

text \<open>The name shown for a file, \<open>k.rstrip(".dxl")\<close> (line 412).\<close>

definition tree_display_name :: "string \<Rightarrow> string" where
  "tree_display_name k = py_rstrip_chars ''.dxl'' k"

text \<open>\<open>__gen_html\<close> (390--414) and its loop over the items of a dict.\<close>

fun gen_html :: "tree_env \<Rightarrow> tree_dict \<Rightarrow> tree_page \<Rightarrow> tree_page"
and gen_html_items :: "tree_env \<Rightarrow> tree_dict \<Rightarrow> tree_page \<Rightarrow> tree_page" where
  "gen_html env d p =
     (let p1 = gen_html_items env d (p\<lparr>tp_out := tp_out p @ [''<ul>'']\<rparr>)
      in p1\<lparr>tp_out := tp_out p1 @ [''</ul>'']\<rparr>)"
| "gen_html_items env [] p = p"
| "gen_html_items env ((k, DirNode v) # items) p =
     gen_html_items env items
       (gen_html env v (p\<lparr>tp_out := tp_out p @ [tree_dir_open, k, ''</b></li>''],
                          tp_count_dirs := tp_count_dirs p + 1\<rparr>))"
| "gen_html_items env ((k, FileLeaf v) # items) p =
     gen_html_items env items
       (if py_endswith k ''.dxl'' \<and> file_exec_by_doors env v
        then p\<lparr>tp_out := tp_out p @ [tree_link env v, tree_display_name k, ''</a></li>'']\<rparr>
        else p)"

text \<open>\<open>__txt2html\<close> (417--444), lines 429--435: the last menu path names the page. On an
  empty menu list \<open>dxl_menu\<close> stays a list and the string concatenation of line 438
  raises \<open>TypeError\<close>.\<close>

definition txt2html_menu :: "os_iface \<Rightarrow> path list \<Rightarrow> py_exc + string" where
  "txt2html_menu os dxl_menu =
     (case foldl (\<lambda>_ path. Some (if os_basename os path = ''project'' then ''projects''
                                  else if os_basename os path = ''addins'' then ''addins'' else ''extra'')) None dxl_menu of
        None \<Rightarrow> Inl TypeError
      | Some m \<Rightarrow> Inr m)"

text \<open>Lines 437--444, from the trees read back and the count of directories so far. The
  style sheet and the banner come from \<open>template.py\<close>.\<close>

definition txt2html ::
  "tree_env \<Rightarrow> string \<Rightarrow> string \<Rightarrow> tree_dict list \<Rightarrow> path list \<Rightarrow> nat \<Rightarrow> py_exc + tree_page" where
  "txt2html env css header dict_list dxl_menu count_dirs =
     (case txt2html_menu (te_os env) dxl_menu of
        Inl e \<Rightarrow> Inl e
      | Inr m \<Rightarrow>
          let p0 = \<lparr>tp_out = [''<!DOCTYPE html><html><font face='' @ sq @ ''consolas'' @ sq @ '' size='' @ sq @ ''2''
                               @ sq @ ''><head><title>DXL files directory - '' @ m @ ''</title>'',
                             css, ''</head><body>'', header],
                    tp_count_dirs = count_dirs\<rparr>;
              p1 = foldl (\<lambda>p d. gen_html env d p) p0 dict_list
          in Inr (p1\<lparr>tp_out := tp_out p1 @ [''</body></font></html>'']\<rparr>))"

subsection \<open>The list of pages\<close>

text \<open>\<open>__list_html_files\<close> (549--557): each page name of \<open>dxl_files\<close> mapped to the name
  shown for it, \<open>dxl_file.lstrip(dxl_file[:41])\<close>, meant to drop the 40 hex digits of the
  hash and the underscore.\<close>

definition hash_file_dict :: "string list \<Rightarrow> (string, string) pydict" where
  "hash_file_dict files_list =
     foldl (\<lambda>d dxl_file. AList.update dxl_file (py_lstrip_chars (take 41 dxl_file) dxl_file) d) [] files_list"

subsection \<open>Vocabulary and examples\<close>

text \<open>All the keys of a tree, directories and files.\<close>

fun tree_names :: "tree_dict \<Rightarrow> string list" where
  "tree_names [] = []"
| "tree_names ((k, DirNode d) # items) = k # tree_names d @ tree_names items"
| "tree_names ((k, FileLeaf v) # items) = k # tree_names items"

text \<open>The number of directories of a tree.\<close>

fun tree_dirs :: "tree_dict \<Rightarrow> nat" where
  "tree_dirs [] = 0"
| "tree_dirs ((k, DirNode d) # items) = Suc (tree_dirs d + tree_dirs items)"
| "tree_dirs ((k, FileLeaf v) # items) = tree_dirs items"

text \<open>A file system with slash separators: the directory \<open>K:/m\<close> holds \<open>main.dxl\<close>,
  \<open>other.dxl\<close> and the index \<open>menu.idx\<close>, which reads \<open>main_menu\<close>.\<close>

definition slash_basename :: "path \<Rightarrow> string" where
  "slash_basename p = rev (takeWhile (\<lambda>c. c \<noteq> CHR ''/'') (rev p))"

definition sample_tree_env :: tree_env where
  "sample_tree_env =
     \<lparr>te_os = (toy_os [])\<lparr>os_basename := slash_basename\<rparr>, te_sep = CHR ''/'',
      te_walk = (\<lambda>_. []),
      te_dirname = (\<lambda>p. rev (drop 1 (dropWhile (\<lambda>c. c \<noteq> CHR ''/'') (rev p)))),
      te_listdir = (\<lambda>_. [''menu.idx'']),
      te_splitext = (\<lambda>f. if CHR ''.'' \<in> set f
                          then (rev (drop 1 (dropWhile (\<lambda>c. c \<noteq> CHR ''.'') (rev f))),
                                CHR ''.'' # rev (takeWhile (\<lambda>c. c \<noteq> CHR ''.'') (rev f)))
                          else (f, [])),
      te_read = (\<lambda>_. ''main_menu''), te_tokens = (\<lambda>_. []), te_hash = (\<lambda>_. ''h''),
      te_extra_directory = []\<rparr>"

definition sample_tree :: tree_dict where
  "sample_tree =
     [(''K:/m'', DirNode [(''main.dxl'', FileLeaf ''K:/m/main.dxl''), (''other.dxl'', FileLeaf ''K:/m/other.dxl''),
                          (''menu.idx'', FileLeaf ''K:/m/menu.idx'')])]"

subsection \<open>Lemmas\<close>

lemma dict2list_acc_all: "\<forall>acc'. dict2list d acc' = acc' @ dict2list d []"
proof (induction d "acc :: path list" rule: dict2list.induct)
  case (2 k d items acc)
  have a: "dict2list items x = x @ dict2list items []" for x using 2 by blast
  have b: "dict2list d x = x @ dict2list d []" for x using 2 by blast
  show ?case
  proof
    fix acc'
    show "dict2list ((k, DirNode d) # items) acc' = acc' @ dict2list ((k, DirNode d) # items) []"
      using a [of "dict2list d acc'"] a [of "dict2list d []"] b [of acc'] by simp
  qed
next
  case (3 k v items acc)
  have a: "dict2list items x = x @ dict2list items []" for x using 3 by blast
  show ?case
  proof
    fix acc'
    show "dict2list ((k, FileLeaf v) # items) acc' = acc' @ dict2list ((k, FileLeaf v) # items) []"
      using a [of "acc' @ [v]"] a [of "[v]"] a [of acc'] by simp
  qed
qed simp

lemma dict2list_acc: "dict2list d acc = acc @ dict2list d []"
  using dict2list_acc_all by blast

lemma get_tokens_no_marker: "\<not> is_exec_by_doors (get_tokens toks)"
  using exec_marker_foldl [of gt_init toks] by (simp add: get_tokens_def gt_init_def)

text \<open>
  Claim C30. What makes a file executable by DOORS. A file under the size cap is
  executable exactly when its normalised path starts with a normalised extra directory,
  or a \<open>.idx\<close> file of its directory contains its stem as a substring. The
  comment marker of the classifier never contributes: \<open>Lexer.get_tokens\<close> never sets
  it. An oversize file is never executable, even under an extra directory.
\<close>

theorem file_exec_by_doors_iff:
  "file_exec_by_doors env f \<longleftrightarrow>
     os_getsize (te_os env) f \<le> size_cap \<and>
     ((\<exists>d\<in>set (te_extra_directory env). py_startswith (os_normpath (te_os env) f) (os_normpath (te_os env) d)) \<or>
      (\<exists>fn\<in>set (te_listdir env (te_dirname env f)).
          snd (te_splitext env fn) = ''.idx'' \<and>
          py_contains (te_read env (te_dirname env f @ [te_sep env] @ fn)) (fst (te_splitext env (os_basename (te_os env) f)))))"
  by (auto simp: file_exec_by_doors_def in_idx_file_def in_extra_dir_def get_tokens_no_marker Let_def)

theorem file_exec_by_doors_iff_witness:
  "file_exec_by_doors sample_tree_env ''K:/m/main.dxl'' \<and> \<not> file_exec_by_doors sample_tree_env ''K:/m/other.dxl''"
  using file_exec_by_doors_iff [of sample_tree_env "''K:/m/main.dxl''"] file_exec_by_doors_iff [of sample_tree_env "''K:/m/other.dxl''"]
  by (simp add: sample_tree_env_def toy_os_def slash_basename_def size_cap_def)

lemma tree_display_name_dxl_eq: "tree_display_name (s @ ''.dxl'') = py_rstrip_chars ''.dxl'' s"
  by (simp add: tree_display_name_def py_rstrip_chars_def)

text \<open>
  Claim C32. The tree page shows \<open>k.rstrip(".dxl")\<close> for a file \<open>k\<close>. This strips
  a set of characters, not a suffix. The name shown for \<open>s.dxl\<close> is \<open>s\<close> exactly
  when \<open>s\<close> is empty or does not end in one of \<open>.\<close>, \<open>d\<close>, \<open>x\<close>, \<open>l\<close>:
  \<open>model.dxl\<close> is shown as \<open>mode\<close>.
\<close>

theorem tree_display_name_loses_chars:
  "tree_display_name (s @ ''.dxl'') = s \<longleftrightarrow> s = [] \<or> last s \<notin> set ''.dxl''"
  by (simp add: tree_display_name_dxl_eq py_rstrip_chars_def rev_swap dropWhile_eq_self hd_rev del: set_simps)

theorem tree_display_name_loses_chars_witness:
  "tree_display_name ''model.dxl'' = ''mode'' \<and> tree_display_name ''main.dxl'' = ''main''"
  using tree_display_name_loses_chars [of "''main''"] by (simp add: tree_display_name_def py_rstrip_chars_def)


lemma py_startswith_Cons_in: "py_startswith w (c # cs) \<Longrightarrow> c \<in> set w"
  by (cases w) auto

lemma tree_link_open_Cons: "tree_link_open = CHR ''<'' # drop 1 tree_link_open"
  by (simp add: tree_link_open_def)

lemma no_lt_not_link: "CHR ''<'' \<notin> set w \<Longrightarrow> \<not> py_startswith w tree_link_open"
  using py_startswith_Cons_in [of w "CHR ''<''"] tree_link_open_Cons by metis

lemma tree_markup_not_link [simp]:
  "\<not> py_startswith ''<ul>'' tree_link_open" "\<not> py_startswith ''</ul>'' tree_link_open"
  "\<not> py_startswith ''</b></li>'' tree_link_open" "\<not> py_startswith ''</a></li>'' tree_link_open"
  "\<not> py_startswith tree_dir_open tree_link_open"
  by (simp_all add: tree_link_open_def tree_dir_open_def)

lemma tree_close_not_link [simp]:
  "\<not> py_startswith (CHR ''<'' # CHR ''/'' # s) tree_link_open"
  "\<not> py_startswith (CHR ''<'' # CHR ''!'' # s) tree_link_open"
  by (simp_all add: tree_link_open_def)

lemma tree_link_is_link [simp]: "py_startswith (tree_link env v) tree_link_open"
  by (simp add: tree_link_def)

lemma tree_display_name_no_lt: "CHR ''<'' \<notin> set k \<Longrightarrow> CHR ''<'' \<notin> set (tree_display_name k)"
  using set_py_rstrip_chars [of "''.dxl''" k] by (auto simp: tree_display_name_def)

lemma gen_html_links:
  "(\<forall>k\<in>set (tree_names d). CHR ''<'' \<notin> set k) \<Longrightarrow>
     filter (\<lambda>w. py_startswith w tree_link_open) (tp_out (gen_html env d p)) =
     filter (\<lambda>w. py_startswith w tree_link_open) (tp_out p) @ map (tree_link env) (filter (file_exec_by_doors env) (dict2list d []))
   \<and> tp_count_dirs (gen_html env d p) = tp_count_dirs p + tree_dirs d"
  "(\<forall>k\<in>set (tree_names d). CHR ''<'' \<notin> set k) \<Longrightarrow>
     filter (\<lambda>w. py_startswith w tree_link_open) (tp_out (gen_html_items env d p)) =
     filter (\<lambda>w. py_startswith w tree_link_open) (tp_out p) @ map (tree_link env) (filter (file_exec_by_doors env) (dict2list d []))
   \<and> tp_count_dirs (gen_html_items env d p) = tp_count_dirs p + tree_dirs d"
proof (induction env d p and env d p rule: gen_html_gen_html_items.induct)
  case (3 env k v items p)
  then show ?case
    by (simp add: dict2list_acc [of items "dict2list v []"] no_lt_not_link)
next
  case (4 env k v items p)
  then show ?case
    by (cases "py_endswith k ''.dxl'' \<and> file_exec_by_doors env v")
       (auto simp: dict2list_acc [of items "[v]"] no_lt_not_link tree_display_name_no_lt)
qed (simp_all add: Let_def)


lemma foldl_gen_html_links:
  "(\<forall>d\<in>set ds. \<forall>k\<in>set (tree_names d). CHR ''<'' \<notin> set k) \<Longrightarrow>
     filter (\<lambda>w. py_startswith w tree_link_open) (tp_out (foldl (\<lambda>p d. gen_html env d p) p ds)) =
     filter (\<lambda>w. py_startswith w tree_link_open) (tp_out p)
       @ map (tree_link env) (filter (file_exec_by_doors env) (concat (map (\<lambda>d. dict2list d []) ds)))
   \<and> tp_count_dirs (foldl (\<lambda>p d. gen_html env d p) p ds) = tp_count_dirs p + sum_list (map tree_dirs ds)"
  by (induction ds arbitrary: p) (simp_all add: gen_html_links(1) del: gen_html.simps)

lemma get_dxl_files_concat: "get_dxl_files ds = concat (map (\<lambda>d. dict2list d []) ds)"
proof -
  have "foldl (\<lambda>acc d. acc @ dict2list d []) acc ds = acc @ concat (map (\<lambda>d. dict2list d []) ds)" for acc
    by (induction ds arbitrary: acc) simp_all
  then show ?thesis by (simp add: get_dxl_files_def)
qed

lemma foldl_overwrite: "foldl (\<lambda>_ x. f x) s xs = (if xs = [] then s else f (last xs))"
  by (induction xs arbitrary: s) simp_all

lemma txt2html_menu_Inl: "txt2html_menu os dxl_menu = Inl e \<longleftrightarrow> dxl_menu = [] \<and> e = TypeError"
  by (auto simp: txt2html_menu_def foldl_overwrite split: if_splits)

text \<open>
  Claim C31. The tree page links exactly the executable files among those the batch
  checks. When no file or directory name contains \<open><\<close> and the style sheet and
  banner are not links, the anchors of the page \<open>__txt2html\<close> writes are, in order,
  those of the executable files of \<open>__get_dxl_files\<close>. \<open>__count_dirs\<close> grows by
  the number of directories of the trees.
\<close>

theorem txt2html_links:
  "(\<forall>d\<in>set dict_list. \<forall>k\<in>set (tree_names d). CHR ''<'' \<notin> set k) \<Longrightarrow>
   \<not> py_startswith css tree_link_open \<Longrightarrow> \<not> py_startswith header tree_link_open \<Longrightarrow>
   txt2html env css header dict_list dxl_menu n = Inr pg \<Longrightarrow>
     filter (\<lambda>w. py_startswith w tree_link_open) (tp_out pg) =
       map (tree_link env) (filter (file_exec_by_doors env) (get_dxl_files dict_list))
   \<and> tp_count_dirs pg = n + sum_list (map tree_dirs dict_list)"
proof -
  assume names: "\<forall>d\<in>set dict_list. \<forall>k\<in>set (tree_names d). CHR ''<'' \<notin> set k"
    and css: "\<not> py_startswith css tree_link_open" and header: "\<not> py_startswith header tree_link_open"
    and ok: "txt2html env css header dict_list dxl_menu n = Inr pg"
  then obtain m where "txt2html_menu (te_os env) dxl_menu = Inr m"
    by (cases "txt2html_menu (te_os env) dxl_menu") (simp_all add: txt2html_def)
  with ok show ?thesis
    using foldl_gen_html_links [OF names] css header
    by (auto simp: txt2html_def get_dxl_files_concat Let_def simp del: gen_html.simps)
qed

theorem txt2html_links_witness:
  "\<exists>pg. txt2html sample_tree_env '''' '''' [sample_tree] [''K:/m''] 0 = Inr pg
      \<and> filter (\<lambda>w. py_startswith w tree_link_open) (tp_out pg) = [tree_link sample_tree_env ''K:/m/main.dxl'']
      \<and> tp_count_dirs pg = 1"
proof -
  have "txt2html_menu (te_os sample_tree_env) [''K:/m''] = Inr ''extra''"
    by (simp add: txt2html_menu_def sample_tree_env_def slash_basename_def)
  then have "\<exists>pg. txt2html sample_tree_env '''' '''' [sample_tree] [''K:/m''] 0 = Inr pg"
    by (simp add: txt2html_def Let_def del: gen_html.simps gen_html_items.simps)
  then obtain pg where pg: "txt2html sample_tree_env '''' '''' [sample_tree] [''K:/m''] 0 = Inr pg" ..
  have "filter (\<lambda>w. py_startswith w tree_link_open) (tp_out pg) =
          map (tree_link sample_tree_env) (filter (file_exec_by_doors sample_tree_env) (get_dxl_files [sample_tree]))
        \<and> tp_count_dirs pg = 0 + sum_list (map tree_dirs [sample_tree])"
    by (rule txt2html_links [OF _ _ _ pg]) (simp_all add: sample_tree_def tree_link_open_def)
  moreover have "filter (file_exec_by_doors sample_tree_env) (get_dxl_files [sample_tree]) = [''K:/m/main.dxl'']"
    by (simp add: get_dxl_files_def sample_tree_def py_endswith_def file_exec_by_doors_def in_idx_file_def
                  in_extra_dir_def sample_tree_env_def toy_os_def slash_basename_def size_cap_def
                  get_tokens_no_marker get_tokens_def gt_init_def)
  moreover have "tree_dirs sample_tree = 1" by (simp add: sample_tree_def)
  ultimately show ?thesis using pg by auto
qed

lemma dropWhile_append_all: "(\<And>x. x \<in> set xs \<Longrightarrow> P x) \<Longrightarrow> dropWhile P (xs @ ys) = dropWhile P ys"
  by (induction xs) auto

text \<open>
  Claim C33. The file list shows \<open>dxl_file.lstrip(dxl_file[:41])\<close> for a page
  \<open>h_name\<close> with a 40-character hash \<open>h\<close>. This strips every leading character
  that occurs in the hash or is an underscore. The name is shown intact exactly when it is
  empty or its first character does not occur in \<open>h_\<close>.
\<close>

theorem hash_file_dict_shown_name:
  "length h = 40 \<Longrightarrow> h @ ''_'' @ name \<in> set files_list \<Longrightarrow>
     map_of (hash_file_dict files_list) (h @ ''_'' @ name) = Some name \<longleftrightarrow> name = [] \<or> hd name \<notin> set (h @ ''_'')"
proof -
  assume h: "length h = 40" and f: "h @ ''_'' @ name \<in> set files_list"
  have "take 41 (h @ ''_'' @ name) = h @ ''_''" using h by simp
  moreover have "dropWhile (\<lambda>x. x \<in> set (h @ ''_'')) ((h @ ''_'') @ name) = dropWhile (\<lambda>x. x \<in> set (h @ ''_'')) name"
    by (rule dropWhile_append_all) simp
  ultimately show ?thesis
    using f by (simp add: hash_file_dict_def map_of_foldl_update_self py_lstrip_chars_def dropWhile_eq_self
                    del: set_append)
qed

theorem hash_file_dict_shown_name_witness:
  "map_of (hash_file_dict [replicate 40 (CHR ''a'') @ ''_abc.dxl.html'']) (replicate 40 (CHR ''a'') @ ''_abc.dxl.html'')
     \<noteq> Some ''abc.dxl.html''"
  using hash_file_dict_shown_name [of "replicate 40 (CHR ''a'')" "''abc.dxl.html''" "[replicate 40 (CHR ''a'') @ ''_abc.dxl.html'']"]
  by simp

lemma foldl_exc_fixed: "(\<forall>x\<in>set xs. f s x = Inr s) \<Longrightarrow> foldl_exc f s xs = Inr s"
  by (induction xs) auto

lemma make_tree_off_K:
  "\<forall>w\<in>set (te_walk env (py_rstrip (te_sep env) r)). \<not> py_startswith (fst w) ''K'' \<Longrightarrow> make_tree env r = Inr []"
  unfolding make_tree_def Let_def
  by (rule foldl_exc_fixed) (auto simp: make_tree_step_def)

text \<open>
  Claim C34. Only paths on drive \<open>K\<close> enter the tree. When no directory the walk
  visits starts with \<open>K\<close>, the trees \<open>__save_tree\<close> builds are empty and
  \<open>__get_dxl_files\<close> lists no file, so the batch checks nothing.
\<close>

theorem save_tree_off_drive_K:
  "\<forall>m\<in>set dxl_menu. \<forall>w\<in>set (te_walk env (py_rstrip (te_sep env) m)). \<not> py_startswith (fst w) ''K'' \<Longrightarrow>
     map_sum id get_dxl_files (save_tree env dxl_menu) = Inr []"
proof -
  assume off: "\<forall>m\<in>set dxl_menu. \<forall>w\<in>set (te_walk env (py_rstrip (te_sep env) m)). \<not> py_startswith (fst w) ''K''"
  have "foldl_exc (\<lambda>acc m. case make_tree env m of Inl e \<Rightarrow> Inl e | Inr t \<Rightarrow> Inr (acc @ [t])) acc ms
          = Inr (acc @ replicate (length ms) [])" if "set ms \<subseteq> set dxl_menu" for acc ms
    using that by (induction ms arbitrary: acc) (auto simp: make_tree_off_K off replicate_app_Cons_same)
  then show ?thesis by (simp add: save_tree_def get_dxl_files_concat)
qed

theorem save_tree_off_drive_K_witness:
  "map_sum id get_dxl_files (save_tree (sample_tree_env\<lparr>te_walk := \<lambda>_. [(''D:/m'', [], [''a.dxl''])]\<rparr>) [''D:/m'']) = Inr []"
  using save_tree_off_drive_K [of "[''D:/m'']" "sample_tree_env\<lparr>te_walk := \<lambda>_. [(''D:/m'', [], [''a.dxl''])]\<rparr>"]
  by simp

end
