(* ===== verification/TreeWalk.thy ===== *)
theory TreeWalk
  imports Tree
begin

text \<open>
  What \<open>__make_tree\<close> builds from a real directory. A directory is its files and
  its subdirectories, and \<open>os.walk\<close> visits it top-down: the directory first, then each
  subdirectory in turn, with the paths \<open>os.path.join\<close> gives. On such a walk the tree
  is the directory itself, nested dicts in the order of the listing. The files the
  batch then checks are the \<open>.dxl\<close> files of the directory, in pre-order.
\<close>

datatype fs_dir = FsDir "string list" "(string \<times> fs_dir) list"

text \<open>The top-down \<open>os.walk\<close> of a directory at path \<open>p\<close>.\<close>

fun walk_fs :: "char \<Rightarrow> path \<Rightarrow> fs_dir \<Rightarrow> (path \<times> string list \<times> string list) list"
and walk_subs :: "char \<Rightarrow> path \<Rightarrow> (string \<times> fs_dir) list \<Rightarrow> (path \<times> string list \<times> string list) list" where
  "walk_fs sep p (FsDir files subs) = (p, map fst subs, files) # walk_subs sep p subs"
| "walk_subs sep p [] = []"
| "walk_subs sep p ((n, s) # subs) = walk_fs sep (p @ [sep] @ n) s @ walk_subs sep p subs"

text \<open>The dict of a directory: its files, then its subdirectories.\<close>

fun fs_tree :: "char \<Rightarrow> path \<Rightarrow> fs_dir \<Rightarrow> tree_dict"
and fs_subs_tree :: "char \<Rightarrow> path \<Rightarrow> (string \<times> fs_dir) list \<Rightarrow> tree_dict" where
  "fs_tree sep p (FsDir files subs) = map (\<lambda>f. (f, FileLeaf (p @ [sep] @ f))) files @ fs_subs_tree sep p subs"
| "fs_subs_tree sep p [] = []"
| "fs_subs_tree sep p ((n, s) # subs) = (n, DirNode (fs_tree sep (p @ [sep] @ n) s)) # fs_subs_tree sep p subs"

text \<open>The \<open>.dxl\<close> files of a directory, in pre-order.\<close>

fun fs_dxl_files :: "char \<Rightarrow> path \<Rightarrow> fs_dir \<Rightarrow> path list"
and fs_subs_dxl_files :: "char \<Rightarrow> path \<Rightarrow> (string \<times> fs_dir) list \<Rightarrow> path list" where
  "fs_dxl_files sep p (FsDir files subs) =
     map (\<lambda>f. p @ [sep] @ f) (filter (\<lambda>f. py_endswith f ''.dxl'') files) @ fs_subs_dxl_files sep p subs"
| "fs_subs_dxl_files sep p [] = []"
| "fs_subs_dxl_files sep p ((n, s) # subs) = fs_dxl_files sep (p @ [sep] @ n) s @ fs_subs_dxl_files sep p subs"

text \<open>A directory as a file system has it: the names of a directory are distinct and
  contain no separator.\<close>

fun fs_ok :: "char \<Rightarrow> fs_dir \<Rightarrow> bool"
and fs_subs_ok :: "char \<Rightarrow> (string \<times> fs_dir) list \<Rightarrow> bool" where
  "fs_ok sep (FsDir files subs) \<longleftrightarrow>
     distinct (files @ map fst subs) \<and> list_all (\<lambda>n. sep \<notin> set n) (files @ map fst subs) \<and> fs_subs_ok sep subs"
| "fs_subs_ok sep [] \<longleftrightarrow> True"
| "fs_subs_ok sep ((n, s) # subs) \<longleftrightarrow> fs_ok sep s \<and> fs_subs_ok sep subs"

text \<open>The dict reached along a chain of folders, and appending an entry there.\<close>

fun tree_at :: "string list \<Rightarrow> tree_dict \<Rightarrow> tree_dict option" where
  "tree_at [] t = Some t"
| "tree_at (f # fs) t = (case map_of t f of Some (DirNode d) \<Rightarrow> tree_at fs d | _ \<Rightarrow> None)"

fun tree_app :: "string list \<Rightarrow> string \<times> dir_tree \<Rightarrow> tree_dict \<Rightarrow> tree_dict" where
  "tree_app [] e t = t @ [e]"
| "tree_app (f # fs) e t =
     (case map_of t f of Some (DirNode d) \<Rightarrow> AList.update f (DirNode (tree_app fs e d)) t | _ \<Rightarrow> t)"

text \<open>Example: \<open>K:/m\<close> holds \<open>a.dxl\<close>, \<open>b.txt\<close> and the directory \<open>s\<close> with \<open>c.dxl\<close>.\<close>

definition sample_fs :: fs_dir where
  "sample_fs = FsDir [''a.dxl'', ''b.txt''] [(''s'', FsDir [''c.dxl''] [])]"

subsection \<open>Lemmas\<close>

lemma update_new: "k \<notin> fst ` set al \<Longrightarrow> AList.update k v al = al @ [(k, v)]"
  by (induction al) auto

lemma update_append_same: "k \<notin> fst ` set al \<Longrightarrow> AList.update k v (al @ [(k, w)]) = al @ [(k, v)]"
  by (induction al) auto

lemma map_of_new: "k \<notin> fst ` set al \<Longrightarrow> map_of al k = None"
  by (simp add: map_of_eq_None_iff)

lemma tree_put_app:
  "tree_at fl t = Some pd \<Longrightarrow> n \<notin> fst ` set pd \<Longrightarrow> tree_put fl n sub t = Inr (tree_app fl (n, DirNode sub) t)"
  by (induction fl arbitrary: t) (auto simp: update_new split: option.splits dir_tree.splits)

lemma tree_at_app:
  "tree_at fl t = Some pd \<Longrightarrow> n \<notin> fst ` set pd \<Longrightarrow> tree_at (fl @ [n]) (tree_app fl (n, DirNode cur) t) = Some cur"
  by (induction fl arbitrary: t) (auto simp: update_conv' map_of_new split: option.splits dir_tree.splits)

lemma tree_app_app:
  "tree_at fl t = Some pd \<Longrightarrow> n \<notin> fst ` set pd \<Longrightarrow>
     tree_app (fl @ [n]) e (tree_app fl (n, DirNode cur) t) = tree_app fl (n, DirNode (cur @ [e])) t"
  by (induction fl arbitrary: t) (auto simp: update_conv' update_append_same map_of_new split: option.splits dir_tree.splits)

lemma foldl_update_files:
  "distinct files \<Longrightarrow> fst ` set acc \<inter> set files = {} \<Longrightarrow>
     foldl (\<lambda>sd file. AList.update file (g file) sd) acc files = acc @ map (\<lambda>f. (f, g f)) files"
  by (induction files arbitrary: acc) (auto simp: update_new)


lemma py_split_no_sep: "sep \<notin> set a \<Longrightarrow> py_split sep (a @ rest) = (a @ hd (py_split sep rest)) # tl (py_split sep rest)"
  by (induction a) (auto simp: py_split_Cons py_split_nonempty)

lemma py_split_chain:
  "sep \<notin> set base \<Longrightarrow> list_all (\<lambda>x. sep \<notin> set x) rel \<Longrightarrow>
     py_split sep (base @ concat (map (\<lambda>x. sep # x) rel)) = base # rel"
proof (induction rel arbitrary: base)
  case Nil
  then show ?case using py_split_no_sep [of sep base "[]"] by (simp add: py_split_def)
next
  case (Cons x rel)
  then show ?case using py_split_no_sep [of sep base "sep # x @ concat (map (\<lambda>x. sep # x) rel)"]
    by (simp add: py_split_Cons)
qed

lemma drop_rfind_start: "drop (rfind_start sep s) s = rev (takeWhile (\<lambda>c. c \<noteq> sep) (rev s))"
proof -
  let ?t = "takeWhile (\<lambda>c. c \<noteq> sep) (rev s)" and ?d = "dropWhile (\<lambda>c. c \<noteq> sep) (rev s)"
  have s: "rev ?d @ rev ?t = s" by (metis rev_append rev_rev_ident takeWhile_dropWhile_id)
  then have "rfind_start sep s = length (rev ?d)"
    unfolding rfind_start_def by (metis add_diff_cancel_right' length_append length_rev)
  with s show ?thesis by (metis append_eq_conv_conj)
qed

lemma rfind_start_base: "sep \<notin> set (drop (rfind_start sep s) s)"
  by (auto simp: drop_rfind_start dest: set_takeWhileD)

lemma rfind_start_le: "rfind_start sep s \<le> length s"
  by (simp add: rfind_start_def)

lemma make_tree_step_chain:
  assumes k: "py_startswith root_dir ''K''"
    and base: "os_basename (te_os env) root_dir = drop start root_dir" "te_sep env \<notin> set (drop start root_dir)"
    and start: "start \<le> length root_dir"
    and rel: "list_all (\<lambda>x. te_sep env \<notin> set x) rel" and files: "distinct files"
    and chain: "fl @ [n] = root_dir # rel" and at: "tree_at fl t = Some pd" "n \<notin> fst ` set pd"
  shows "make_tree_step env root_dir start t (root_dir @ concat (map (\<lambda>x. te_sep env # x) rel), dirs, files) =
           Inr (tree_app fl (n, DirNode (map (\<lambda>f. (f, FileLeaf ((root_dir @ concat (map (\<lambda>x. te_sep env # x) rel))
                                                            @ [te_sep env] @ f))) files)) t)"
proof -
  let ?p = "root_dir @ concat (map (\<lambda>x. te_sep env # x) rel)"
  have "py_startswith ?p ''K''" using k by (cases root_dir) auto
  moreover have "py_split (te_sep env) (drop start ?p) = drop start root_dir # rel"
    using py_split_chain [OF base(2) rel] start by simp
  moreover have "butlast (root_dir # rel) = fl" "last (root_dir # rel) = n"
    using chain by (metis butlast_snoc, metis last_snoc)
  moreover have "foldl (\<lambda>sd file. AList.update file (FileLeaf (?p @ [te_sep env] @ file)) sd) [] files
                   = map (\<lambda>f. (f, FileLeaf (?p @ [te_sep env] @ f))) files"
    using foldl_update_files [OF files, of "[]"] by simp
  ultimately show ?thesis
    using tree_put_app [OF at] base(1) by (simp add: make_tree_step_def Let_def)
qed


lemma walk_builds_tree:
  assumes k: "py_startswith root_dir ''K''"
    and base: "os_basename (te_os env) root_dir = drop start root_dir" "te_sep env \<notin> set (drop start root_dir)"
    and start: "start \<le> length root_dir"
  shows "sep = te_sep env \<Longrightarrow> \<forall>fl n rel t pd.
           fs_ok sep d \<and> p = root_dir @ concat (map (\<lambda>x. sep # x) rel) \<and> list_all (\<lambda>x. sep \<notin> set x) rel
           \<and> fl @ [n] = root_dir # rel \<and> tree_at fl t = Some pd \<and> n \<notin> fst ` set pd \<longrightarrow>
           foldl_exc (make_tree_step env root_dir start) t (walk_fs sep p d) = Inr (tree_app fl (n, DirNode (fs_tree sep p d)) t)"
    and "sep = te_sep env \<Longrightarrow> \<forall>fl n rel cur t pd.
           fs_subs_ok sep subs \<and> distinct (map fst subs) \<and> list_all (\<lambda>x. sep \<notin> set x) (map fst subs)
           \<and> fst ` set cur \<inter> set (map fst subs) = {}
           \<and> p = root_dir @ concat (map (\<lambda>x. sep # x) rel) \<and> list_all (\<lambda>x. sep \<notin> set x) rel
           \<and> fl @ [n] = root_dir # rel \<and> tree_at fl t = Some pd \<and> n \<notin> fst ` set pd \<longrightarrow>
           foldl_exc (make_tree_step env root_dir start) (tree_app fl (n, DirNode cur) t) (walk_subs sep p subs)
             = Inr (tree_app fl (n, DirNode (cur @ fs_subs_tree sep p subs)) t)"
proof (induction sep p d and sep p subs rule: walk_fs_walk_subs.induct)
  case (1 sep p files subs)
  show ?case
  proof (intro allI impI)
    fix fl n rel t pd
    assume h: "fs_ok sep (FsDir files subs) \<and> p = root_dir @ concat (map (\<lambda>x. sep # x) rel)
               \<and> list_all (\<lambda>x. sep \<notin> set x) rel \<and> fl @ [n] = root_dir # rel \<and> tree_at fl t = Some pd
               \<and> n \<notin> fst ` set pd"
    let ?fd = "map (\<lambda>f. (f, FileLeaf (p @ [sep] @ f))) files"
    have step: "make_tree_step env root_dir start t (p, map fst subs, files) = Inr (tree_app fl (n, DirNode ?fd) t)"
      using make_tree_step_chain [OF k base start, of rel files fl n t pd "map fst subs"] h 1(2) by simp
    have "fst ` set ?fd \<inter> set (map fst subs) = {}" using h by (auto simp: image_image)
    then have "foldl_exc (make_tree_step env root_dir start) (tree_app fl (n, DirNode ?fd) t) (walk_subs sep p subs)
                 = Inr (tree_app fl (n, DirNode (?fd @ fs_subs_tree sep p subs)) t)"
      using 1(1) [OF 1(2)] h by (simp add: list_all_append)
    then show "foldl_exc (make_tree_step env root_dir start) t (walk_fs sep p (FsDir files subs))
                 = Inr (tree_app fl (n, DirNode (fs_tree sep p (FsDir files subs))) t)"
      using step by simp
  qed
next
  case (2 sep p)
  then show ?case by simp
next
  case (3 sep p m sd subs)
  show ?case
  proof (intro allI impI)
    fix fl n rel t pd and cur :: tree_dict
    assume h: "fs_subs_ok sep ((m, sd) # subs) \<and> distinct (map fst ((m, sd) # subs))
               \<and> list_all (\<lambda>x. sep \<notin> set x) (map fst ((m, sd) # subs))
               \<and> fst ` set cur \<inter> set (map fst ((m, sd) # subs)) = {}
               \<and> p = root_dir @ concat (map (\<lambda>x. sep # x) rel) \<and> list_all (\<lambda>x. sep \<notin> set x) rel
               \<and> fl @ [n] = root_dir # rel \<and> tree_at fl t = Some pd \<and> n \<notin> fst ` set pd"
    let ?t1 = "tree_app fl (n, DirNode cur) t" and ?e = "(m, DirNode (fs_tree sep (p @ [sep] @ m) sd))"
    from h have ok: "fs_ok sep sd" "fs_subs_ok sep subs" by simp_all
    from h have dist: "m \<notin> set (map fst subs)" "distinct (map fst subs)" by simp_all
    from h have nsep: "sep \<notin> set m" "list_all (\<lambda>x. sep \<notin> set x) (map fst subs)" by simp_all
    from h have disj: "fst ` set cur \<inter> set (map fst subs) = {}" "m \<notin> fst ` set cur" by auto
    from h have p: "p = root_dir @ concat (map (\<lambda>x. sep # x) rel)" and rel: "list_all (\<lambda>x. sep \<notin> set x) rel"
      and chain: "fl @ [n] = root_dir # rel" and at: "tree_at fl t = Some pd" and nin: "n \<notin> fst ` set pd"
      by simp_all
    have p1: "p @ [sep] @ m = root_dir @ concat (map (\<lambda>x. sep # x) (rel @ [m]))" using p by simp
    have rel1: "list_all (\<lambda>x. sep \<notin> set x) (rel @ [m])" using rel nsep(1) by simp
    have chain1: "(fl @ [n]) @ [m] = root_dir # (rel @ [m])" using chain by simp
    have at1: "tree_at (fl @ [n]) ?t1 = Some cur" using tree_at_app [OF at nin] .
    have "foldl_exc (make_tree_step env root_dir start) ?t1 (walk_fs sep (p @ [sep] @ m) sd)
            = Inr (tree_app (fl @ [n]) ?e ?t1)"
      using 3(1) [OF 3(3)] ok(1) p1 rel1 chain1 at1 disj(2) by blast
    also have "tree_app (fl @ [n]) ?e ?t1 = tree_app fl (n, DirNode (cur @ [?e])) t"
      using tree_app_app [OF at nin] .
    finally have first: "foldl_exc (make_tree_step env root_dir start) ?t1 (walk_fs sep (p @ [sep] @ m) sd)
                           = Inr (tree_app fl (n, DirNode (cur @ [?e])) t)" .
    have disj1: "fst ` set (cur @ [?e]) \<inter> set (map fst subs) = {}" using disj(1) dist(1) by auto
    have "foldl_exc (make_tree_step env root_dir start) (tree_app fl (n, DirNode (cur @ [?e])) t) (walk_subs sep p subs)
            = Inr (tree_app fl (n, DirNode ((cur @ [?e]) @ fs_subs_tree sep p subs)) t)"
      using 3(2) [OF 3(3)] ok(2) dist(2) nsep(2) disj1 p rel chain at nin by blast
    with first show "foldl_exc (make_tree_step env root_dir start) ?t1 (walk_subs sep p ((m, sd) # subs))
                       = Inr (tree_app fl (n, DirNode (cur @ fs_subs_tree sep p ((m, sd) # subs))) t)"
      by (simp add: foldl_exc_append)
  qed
qed

lemma dict2list_append: "dict2list (xs @ ys) acc = dict2list ys (dict2list xs acc)"
  by (induction xs acc rule: dict2list.induct) simp_all

lemma dict2list_files:
  "dict2list (map (\<lambda>f. (f, FileLeaf (g f))) files) acc = acc @ map g (filter (\<lambda>f. py_endswith f ''.dxl'') files)"
  by (induction files arbitrary: acc) simp_all

lemma dict2list_fs_tree:
  "dict2list (fs_tree sep p d) [] = fs_dxl_files sep p d"
  "dict2list (fs_subs_tree sep p subs) [] = fs_subs_dxl_files sep p subs"
proof (induction sep p d and sep p subs rule: fs_tree_fs_subs_tree.induct)
  case (1 sep p files subs)
  then show ?case
    by (simp add: dict2list_append dict2list_files
          dict2list_acc [of "fs_subs_tree sep p subs" "map (\<lambda>f. p @ sep # f) (filter (\<lambda>f. py_endswith f ''.dxl'') files)"])
next
  case (3 sep p n s subs)
  then show ?case by (simp add: dict2list_acc [of "fs_subs_tree sep p subs" "fs_dxl_files sep (p @ sep # n) s"])
qed simp


text \<open>
  Claim C35. \<open>__make_tree\<close> rebuilds the directory. Take a root on drive \<open>K\<close> without a
  trailing separator, whose \<open>os.path.basename\<close> is the part after its last separator,
  and a directory whose names are distinct and contain no separator. If the walk of the
  root is the top-down walk of that directory, then the tree is the directory as nested
  dicts, files first, in the order of the listing. The files \<open>__get_dxl_files\<close> lists
  for the batch are then the directory's \<open>.dxl\<close> files in pre-order.
\<close>

theorem make_tree_roundtrip:
  "py_startswith root_dir ''K'' \<Longrightarrow> py_rstrip (te_sep env) root_dir = root_dir \<Longrightarrow>
   os_basename (te_os env) root_dir = drop (rfind_start (te_sep env) root_dir) root_dir \<Longrightarrow>
   fs_ok (te_sep env) d \<Longrightarrow> te_walk env root_dir = walk_fs (te_sep env) root_dir d \<Longrightarrow>
     make_tree env root_dir = Inr [(root_dir, DirNode (fs_tree (te_sep env) root_dir d))]
   \<and> get_dxl_files [[(root_dir, DirNode (fs_tree (te_sep env) root_dir d))]] = fs_dxl_files (te_sep env) root_dir d"
proof -
  assume k: "py_startswith root_dir ''K''" and r: "py_rstrip (te_sep env) root_dir = root_dir"
    and b: "os_basename (te_os env) root_dir = drop (rfind_start (te_sep env) root_dir) root_dir"
    and ok: "fs_ok (te_sep env) d" and w: "te_walk env root_dir = walk_fs (te_sep env) root_dir d"
  have "foldl_exc (make_tree_step env root_dir (rfind_start (te_sep env) root_dir)) [] (walk_fs (te_sep env) root_dir d)
          = Inr (tree_app [] (root_dir, DirNode (fs_tree (te_sep env) root_dir d)) [])"
    using walk_builds_tree(1) [OF k b rfind_start_base rfind_start_le refl, rule_format,
                               where p = root_dir and d = d and fl = "[]" and n = root_dir and rel = "[]"
                                 and t = "[]" and pd = "[]"] ok
    by simp
  then have "make_tree env root_dir = Inr [(root_dir, DirNode (fs_tree (te_sep env) root_dir d))]"
    by (simp add: make_tree_def r w)
  moreover have "get_dxl_files [[(root_dir, DirNode (fs_tree (te_sep env) root_dir d))]] = fs_dxl_files (te_sep env) root_dir d"
    by (simp add: get_dxl_files_def dict2list_fs_tree(1))
  ultimately show ?thesis ..
qed

theorem make_tree_roundtrip_witness:
  "map_sum id get_dxl_files
     (save_tree (sample_tree_env\<lparr>te_walk := \<lambda>_. walk_fs (CHR ''/'') ''K:/m'' sample_fs\<rparr>) [''K:/m''])
     = Inr [''K:/m/a.dxl'', ''K:/m/s/c.dxl'']"
proof -
  have "make_tree (sample_tree_env\<lparr>te_walk := \<lambda>_. walk_fs (CHR ''/'') ''K:/m'' sample_fs\<rparr>) ''K:/m''
          = Inr [(''K:/m'', DirNode (fs_tree (CHR ''/'') ''K:/m'' sample_fs))]
        \<and> get_dxl_files [[(''K:/m'', DirNode (fs_tree (CHR ''/'') ''K:/m'' sample_fs))]]
          = fs_dxl_files (CHR ''/'') ''K:/m'' sample_fs"
    using make_tree_roundtrip [of "''K:/m''" "sample_tree_env\<lparr>te_walk := \<lambda>_. walk_fs (CHR ''/'') ''K:/m'' sample_fs\<rparr>"
                                  sample_fs]
    by (simp add: sample_tree_env_def slash_basename_def rfind_start_def py_rstrip_def sample_fs_def)
  then show ?thesis by (simp add: save_tree_def sample_fs_def py_endswith_def)
qed

end
