(* ===== verification/Spec2Isabelle.thy ===== *)
theory Spec2Isabelle
  imports Batch IncludePages Lexer TreeWalk
begin

text \<open>
  \<^bold>\<open>A verification development of the DXL analyzer.\<close>

  The program (\<open>src/dxl_lexer.py\<close>, \<open>src/dxl-analyzer/dxl_scan.py\<close>) scans the DXL
  scripts of a DOORS installation. A ply lexer splits a file into tokens; the
  classifier \<open>Lexer.get_tokens\<close> makes one pass over them and fills side tables
  (include targets, string initialisations, pragmas, system calls, called
  functions, loop scope); the methods of \<open>StartDoors\<close> resolve the includes, turn
  the tables into diagnostics in a per-file report, and finally compare files
  across the whole batch (same name, same content). The theories follow that order.

  \<^descr>[\<open>Prelude\<close>] Python built-ins on strings (\<open>startswith\<close>, \<open>in\<close>, \<open>lstrip\<close>,
    \<open>split\<close>, slicing, indexing with IndexError, \<open>int()\<close> with ValueError),
    \<open>collections.Counter\<close>, and dicts as association lists: \<open>d[k] = v\<close> is
    \<open>AList.update\<close> (a new key goes last, an old one keeps its place), a dict of lists
    filled by \<open>append\<close> is \<open>dict_append\<close>. The shared lemmas read a dict built by a
    loop declaratively (\<open>set_dict_of\<close>, \<open>last_value\<close>: a key holds the value of its
    last pair) and let a loop over a dict act on one key (\<open>foldl_dict_key\<close>,
    \<open>concat_map_dict_get\<close>).
  \<^descr>[\<open>Tokens\<close>] the token record of the lexer and its keyword tables. Token kinds
    are strings, as in the code.
  \<^descr>[\<open>Classifier\<close>] \<open>Lexer.get_tokens\<close> (lines 224--327) as a record state and a
    step that composes one definition per code block; \<open>get_tokens\<close> is a fold of
    that step. The theorems give each table as a comprehension over the token
    stream paired with its predecessor, and show that the executable marker can
    never be set (\<open>count_tok\<close> is never incremented).
  \<^descr>[\<open>Report\<close>] the diagnostic classes as one datatype and \<open>__add_error\<close>.
  \<^descr>[\<open>Includes\<close>] \<open>__get_valid_includes\<close> (596--668) over an interface record
    \<open>os_iface\<close> for \<open>os.path\<close> and the file system, so its theorems hold for every
    file system. They relate the root search to the spec's resolution order, give
    the not-found diagnostics, and give the drive-letter legality rule. They also show
    that the library directory shadows later roots and that path diagnostics carry a
    stale line.
  \<^descr>[\<open>Issues\<close>] the per-file checks \<open>__check_string_init\<close>,
    \<open>__check_sys_calls\<close>, \<open>__check_pragmas\<close> (which returns its exception as
    \<open>Inl\<close>) and \<open>__check_duplicates\<close>. Each check has an exact statement of the
    diagnostics it adds. One statement says exactly when the pragma check raises:
    an uncaught exception that ends the run.
  \<^descr>[\<open>SameContent\<close>] \<open>__check_same_include_content\<close> (927--964). Its loop
    removes elements from the list it iterates over, and is modelled as an
    index-based \<open>function\<close> with a measure termination proof. The theorems show that
    the loop visits the even positions only, and give the exact diagnostic each file
    of a group gets.

  \<^descr>[\<open>Functions\<close>] \<open>Lexer.get_func_declarations\<close>, \<open>__get_func_declarations\<close>,
    \<open>__get_defined_functions\<close> and \<open>__get_called_functions\<close> with the batch-wide
    function state; the theorems give the declaration table (every occurrence of a
    declared name, not only its declarations, as the docstring says), the defined and called
    tables after a batch, and the not-called and redefinition reports as
    comprehensions over the batch.
  \<^descr>[\<open>Batch\<close>] \<open>__check_files\<close> (1543--1666) as a fold of \<open>check_main_file\<close> over the
    listed files from the state the run is given (the addins run of \<open>__doit\<close> starts
    from the projects run's state), then the identical-content check and the choice of
    \<open>dxl_menu\<close>, with every exception path (\<open>py_exc + batch_state\<close>). The theorems
    give the outcome of a run: the loop completes unless a pragma check raises,
    then the run raises \<open>IOError\<close> without \<open>hash_content.txt\<close> and
    \<open>UnboundLocalError\<close> in scan-file mode. They show that a raising pragma aborts the
    whole run and that a main file included later is checked twice.
  \<^descr>[\<open>Html\<close>] \<open>__syntax_color\<close> (1054--1107) and \<open>__dxl2html\<close> (1199--1506): a page
    is the list of strings written. The code column is a fold over the line numbers
    (\<open>render_line\<close>) of a fold over each line's tokens (\<open>render_token\<close>). The
    renderer keeps the Python variables that live across tokens (\<open>render_state\<close>).
    IndexError is caught and truncates the page; KeyError escapes. The theorems show
    that the code column is aligned with the gutter (one break per line, for single-line
    C comments), and how the gutter width depends on the digit count of the last line.
  \<^descr>[\<open>IncludePages\<close>] \<open>__includes_dxl2html\<close> with \<open>analyse_inc\<close> (1152--1196),
    \<open>__hash_file_content\<close> and \<open>__compare_hash_content\<close>, as three mutually recursive
    functions over a state of files written, hashes in memory and on disk, and counters.
    The depth argument is the interpreter's recursion limit: at depth 0 the call raises
    \<open>RuntimeError\<close>, as CPython does, and the bare \<open>except\<close> swallows it. This
    bound is the fuel, and it is faithful rather than a proof device. The theorems show
    that the incremental mode ends by itself whenever the budget exceeds the number of
    reachable files not yet hashed (the result no longer depends on it). In complete
    mode, an include cycle uses the whole budget. After the first hash dump, a stale hash
    file silently ends a file's include loop.
  \<^descr>[\<open>Lexer\<close>] in \<open>src/dxl_lexer.py\<close>, the reserved-word table built at class
    level (lines 64--82) and \<open>t_ID\<close>, with Python's \<open>lower\<close> and \<open>capitalize\<close> on
    ASCII; the line and column bookkeeping of \<open>t_newline\<close> and the two comment rules
    (\<open>lex_match\<close>, a state of \<open>lineno\<close> and \<open>__last_newline_lexpos\<close>); and
    \<open>Lexer.init\<close> (366--401) as a fold over the matches of the ply lexer. The theorems
    show that \<open>init\<close> loses no token and keeps their order (its lines increase), and
    that a token after a multi-line block comment gets a column measured from the
    newline before the comment.
  \<^descr>[\<open>Tree\<close>] the directory tree and the pages built from it: \<open>__make_tree\<close> and
    \<open>__save_tree\<close> (295--387) as a fold over the \<open>os.walk\<close> of each menu directory,
    with the nested dicts as the datatype \<open>dir_tree\<close> and the path lookup
    \<open>dict.get\<close> raising \<open>TypeError\<close> as in Python; \<open>__dict2list\<close> and
    \<open>__get_dxl_files\<close>, the list of files \<open>__check_files\<close> scans;
    \<open>__file_exec_by_doors\<close> (776--808), composed with the classifier;
    \<open>__gen_html\<close> and \<open>__txt2html\<close>, the tree page, as mutually recursive
    functions over a page record of the strings written and \<open>__count_dirs\<close>; and the
    names of \<open>__list_html_files\<close>. The file system is the record \<open>tree_env\<close>. The
    theorems characterise executability, show that the tree page links exactly the
    executable files among those checked, and pin down three defects: the names shown
    with \<open>rstrip\<close> and \<open>lstrip\<close>, and the drive letter \<open>K\<close> wired into the walk.
    Reading, sizing and listing files are total here: the \<open>IOError\<close> of a file that
    vanishes during the run is not modelled.
  \<^descr>[\<open>TreeWalk\<close>] an abstract directory (\<open>fs_dir\<close>: files and subdirectories)
    and its top-down \<open>os.walk\<close> (\<open>walk_fs\<close>), written from the documentation of
    \<open>os.walk\<close>. The theorem shows that \<open>__make_tree\<close> rebuilds a well-formed
    directory on drive \<open>K\<close> exactly, and that the batch then checks its \<open>.dxl\<close>
    files in pre-order. The proof is a mutual induction over the walk, tracking the dict
    that the chain of folders reaches (\<open>tree_at\<close>, \<open>tree_app\<close>).

  \<^bold>\<open>Conventions.\<close> Dicts and sets iterate in insertion order, the order of PyPy,
  which the launcher the program writes runs (line 583); CPython 2 would use hash
  order. Most claims are stated as sets or per file and hold for any order; the order
  of the not-found diagnostics and the line the path diagnostics carry follow
  insertion order. A file's size is an input. The
  size cap \<open>500*1000\<close> is \<open>size_cap\<close>. Token lines are natural numbers; claims
  that need the lexer's lines to start at 1 say so. Every loop of the modelled code is a fold over a finite list, or a
  \<open>function\<close> whose termination is proved. The one recursion that may not
  end, \<open>__includes_dxl2html\<close>, is bounded by the interpreter's own recursion
  limit, as in CPython.

  \<^bold>\<open>Not modelled.\<close> The ply regular-expression rules of the lexer, which
  decide where a match ends: \<open>Lexer\<close> takes the sequence of matches as input, the
  token stream is the input of the classifier, and the HTML tokens are the input of
  \<open>__dxl2html\<close>. Also not modelled:
  \<^item> \<open>template.py\<close>, the HTML templates of the report and home pages: constant
    markup with string substitution;
  \<^item> the command line, logging and progress output, \<open>__make_log_file\<close>, the
    report pages and the table of \<open>__write_list_files\<close> (dates and counts read back
    from files the run wrote); the pickle files, read back as written;
  \<^item> MD5/SHA-1 hashing, a parameter (\<open>hc_hash\<close>, the content-hash dict);
  \<^item> the CPD report and the clearcase view start of \<open>__make_list\<close>;
  \<^item> the composition of the HTML passes into \<open>check_files\<close>: Batch runs the checks,
    and IncludePages the pages from a given state.
\<close>

end
